theory Spec2Isabelle
  imports Complex_Main "HOL-Library.Sublist" "HOL-Library.Word"
begin

section \<open>Python values\<close>

text \<open>
  A Python \<open>str\<close> is a sequence of Unicode code points, so it is modelled as a list of
  natural numbers; \<open>len\<close>, \<open>split\<close>, \<open>strip\<close> and \<open>replace\<close> all count code points.
  The constants of \<open>app.py\<close> that are written in Chinese are given by their code points,
  with an English gloss beside them.
\<close>

type_synonym pystr = "nat list"

type_synonym bytes = "8 word list"

definition ascii :: "string \<Rightarrow> pystr" where
  "ascii s = map of_char s"

text \<open>
  What \<open>json.loads\<close> returns: \<open>None\<close>, \<open>bool\<close>, \<open>int\<close>, \<open>float\<close>, \<open>str\<close>, \<open>list\<close> or
  \<open>dict\<close>. A \<open>dict\<close> is kept as the list of its items in insertion order. Only the
  truth value of a float is ever observed by the code below, so a float is its rational value
  (the non-finite floats that \<open>json.loads\<close> also accepts are truthy like every non-zero float).
\<close>

datatype json =
    JNull
  | JBool bool
  | JInt int
  | JFloat rat
  | JStr pystr
  | JArr "json list"
  | JObj "(pystr \<times> json) list"

text \<open>Python truthiness: \<open>if v\<close>.\<close>

fun truthy :: "json \<Rightarrow> bool" where
  "truthy JNull = False"
| "truthy (JBool b) = b"
| "truthy (JInt i) = (i \<noteq> 0)"
| "truthy (JFloat r) = (r \<noteq> 0)"
| "truthy (JStr s) = (s \<noteq> [])"
| "truthy (JArr xs) = (xs \<noteq> [])"
| "truthy (JObj kvs) = (kvs \<noteq> [])"

text \<open>The exceptions that the modelled code can raise or let through.\<close>

datatype py_exc =
    IndexError
  | KeyError
  | AttributeError
  | TypeError
  | FileNotFoundError
  | SameFileError
  | BadZipFile
  | PermissionError
  | OSError
  | UnicodeDecodeError
  | UnicodeEncodeError
  | RegexError
  | External pystr

subsection \<open>\<open>str\<close> methods\<close>

text \<open>\<open>sub in s\<close> for strings: \<open>sub\<close> occurs as a contiguous substring of \<open>s\<close>.\<close>

fun py_in :: "'a list \<Rightarrow> 'a list \<Rightarrow> bool" where
  "py_in sub [] = (sub = [])"
| "py_in sub (c # cs) = (prefix sub (c # cs) \<or> py_in sub cs)"

text \<open>
  \<open>s.split(sep)\<close> for a non-empty separator: scan from the left, cut at every occurrence
  of \<open>sep\<close> and continue behind it. \<open>cur\<close> is the segment collected so far. (Python raises
  \<open>ValueError\<close> for an empty separator; every separator in \<open>app.py\<close> is a non-empty literal.)
\<close>

fun split_from :: "'a list \<Rightarrow> 'a list \<Rightarrow> 'a list \<Rightarrow> 'a list list" where
  "split_from sep cur [] = [cur]"
| "split_from sep cur (c # cs) =
     (if sep \<noteq> [] \<and> prefix sep (c # cs)
      then cur # split_from sep [] (drop (length sep - 1) cs)
      else split_from sep (cur @ [c]) cs)"

definition py_split :: "'a list \<Rightarrow> 'a list \<Rightarrow> 'a list list" where
  "py_split sep s = split_from sep [] s"

text \<open>
  \<open>s.strip()\<close> removes leading and trailing white space; \<open>is_space\<close> lists the code points
  for which \<open>str.isspace\<close> holds.
\<close>

definition is_space :: "nat \<Rightarrow> bool" where
  "is_space c \<longleftrightarrow>
     (0x9 \<le> c \<and> c \<le> 0xD) \<or> (0x1C \<le> c \<and> c \<le> 0x20) \<or> c = 0x85 \<or> c = 0xA0 \<or> c = 0x1680 \<or>
     (0x2000 \<le> c \<and> c \<le> 0x200A) \<or> c = 0x2028 \<or> c = 0x2029 \<or> c = 0x202F \<or> c = 0x205F \<or>
     c = 0x3000"

definition py_strip :: "pystr \<Rightarrow> pystr" where
  "py_strip s = rev (dropWhile is_space (rev (dropWhile is_space s)))"

text \<open>
  \<open>s.replace(old, new)\<close>: every occurrence of \<open>old\<close>, found from the left and not
  overlapping an earlier one, becomes \<open>new\<close>. For an empty \<open>old\<close> Python puts \<open>new\<close> in
  front of every character and at the end.
\<close>

fun replace_from :: "'a list \<Rightarrow> 'a list \<Rightarrow> 'a list \<Rightarrow> 'a list" where
  "replace_from old new [] = []"
| "replace_from old new (c # cs) =
     (if old \<noteq> [] \<and> prefix old (c # cs)
      then new @ replace_from old new (drop (length old - 1) cs)
      else c # replace_from old new cs)"

definition py_replace :: "'a list \<Rightarrow> 'a list \<Rightarrow> 'a list \<Rightarrow> 'a list" where
  "py_replace old new s =
     (if old = [] then new @ concat (map (\<lambda>c. c # new) s) else replace_from old new s)"

text \<open>\<open>sep.join(parts)\<close>\<close>

fun py_join :: "'a list \<Rightarrow> 'a list list \<Rightarrow> 'a list" where
  "py_join sep [] = []"
| "py_join sep [x] = x"
| "py_join sep (x # y # ys) = x @ sep @ py_join sep (y # ys)"

section \<open>Field schema\<close>

text \<open>\<open>FIELD_GROUPS\<close>: the four groups of the form, each with its field names.\<close>

definition FIELD_GROUPS :: "(pystr \<times> pystr list) list" where
  "FIELD_GROUPS =
   [ \<comment> \<open>basic information\<close>
     ([0x1F4CB, 0x20, 0x57FA, 0x672C, 0x4FE1, 0x606F],
      [ [0x6743, 0x5C5E, 0x4EBA],                  \<comment> \<open>owner\<close>
        [0x623F, 0x4EA7, 0x5730, 0x5740],          \<comment> \<open>property address\<close>
        [0x59D4, 0x6258, 0x4EBA],                  \<comment> \<open>client\<close>
        [0x59D4, 0x6258, 0x4E66, 0x6587, 0x53F7],  \<comment> \<open>engagement letter number\<close>
        [0x62A5, 0x544A, 0x7F16, 0x53F7],          \<comment> \<open>report number\<close>
        [0x62A5, 0x544A, 0x5E8F, 0x53F7],          \<comment> \<open>report serial number\<close>
        [0x4EF7, 0x503C, 0x65F6, 0x70B9],          \<comment> \<open>valuation date\<close>
        [0x62A5, 0x544A, 0x65E5, 0x671F],          \<comment> \<open>report date\<close>
        [0x67E5, 0x52D8, 0x65E5, 0x671F],          \<comment> \<open>inspection date\<close>
        [0x7B7E, 0x540D, 0x65E5, 0x671F],          \<comment> \<open>signature date\<close>
        [0x4F5C, 0x4E1A, 0x671F] ]),               \<comment> \<open>working period\<close>
     \<comment> \<open>physical property\<close>
     ([0x1F3E0, 0x20, 0x623F, 0x4EA7, 0x5B9E, 0x7269],
      [ [0x5EFA, 0x7B51, 0x9762, 0x79EF],          \<comment> \<open>floor area\<close>
        [0x571F, 0x5730, 0x9762, 0x79EF],          \<comment> \<open>land area\<close>
        [0x6237, 0x578B],                          \<comment> \<open>layout\<close>
        [0x603B, 0x5C42, 0x6570],                  \<comment> \<open>total storeys\<close>
        [0x6240, 0x5728, 0x697C, 0x5C42],          \<comment> \<open>storey\<close>
        [0x5EFA, 0x6210, 0x5E74, 0x4EFD],          \<comment> \<open>year built\<close>
        [0x6B20, 0x7F34, 0x7279, 0x7EA6, 0x7269, 0x4E1A, 0x8D39],  \<comment> \<open>special service fee owed\<close>
        [0x6B20, 0x7F34, 0x7269, 0x4E1A, 0x8D39] ]),               \<comment> \<open>service fee owed\<close>
     \<comment> \<open>rights\<close>
     ([0x1F4DC, 0x20, 0x6743, 0x76CA, 0x72B6, 0x51B5],
      [ [0x4E0D, 0x52A8, 0x4EA7, 0x6743, 0x8BC1, 0x53F7],          \<comment> \<open>title certificate number\<close>
        [0x4F7F, 0x7528, 0x671F, 0x9650],          \<comment> \<open>term of use\<close>
        [0x5B97, 0x5730, 0x53F7],                  \<comment> \<open>parcel number\<close>
        [0x767B, 0x8BB0, 0x65E5, 0x671F],          \<comment> \<open>registration date\<close>
        [0x62B5, 0x62BC, 0x6743, 0x4EBA],          \<comment> \<open>mortgagee\<close>
        [0x62B5, 0x62BC, 0x767B, 0x8BB0, 0x8BC1, 0x660E, 0x53F7],  \<comment> \<open>mortgage certificate number\<close>
        [0x503A, 0x6743, 0x6570, 0x989D],          \<comment> \<open>amount of the claim\<close>
        [0x62B5, 0x62BC, 0x767B, 0x8BB0, 0x65E5, 0x671F],          \<comment> \<open>mortgage registration date\<close>
        [0x503A, 0x52A1, 0x5C65, 0x884C, 0x671F, 0x9650],          \<comment> \<open>term of the debt\<close>
        [0x67E5, 0x5C01, 0x6587, 0x53F7],          \<comment> \<open>seizure order number\<close>
        [0x67E5, 0x5C01, 0x671F, 0x9650] ]),       \<comment> \<open>seizure period\<close>
     \<comment> \<open>valuation result\<close>
     ([0x1F4B0, 0x20, 0x4F30, 0x4EF7, 0x7ED3, 0x8BBA],
      [ [0x8BC4, 0x4F30, 0x603B, 0x4EF7],          \<comment> \<open>total value\<close>
        [0x8BC4, 0x4F30, 0x603B, 0x4EF7, 0x5927, 0x5199],          \<comment> \<open>total value in words\<close>
        [0x8BC4, 0x4F30, 0x5355, 0x4EF7],          \<comment> \<open>unit price\<close>
        [0x8BC4, 0x4F30, 0x5355, 0x4EF7, 0x5927, 0x5199] ]) ]"     \<comment> \<open>unit price in words\<close>

text \<open>\<open>ALL_FIELDS = [f for fields in FIELD_GROUPS.values() for f in fields]\<close>\<close>

definition ALL_FIELDS :: "pystr list" where
  "ALL_FIELDS = concat (map snd FIELD_GROUPS)"

text \<open>The sentinel \<open>"not mentioned"\<close> of the extraction prompt.\<close>

definition SENTINEL :: pystr where
  "SENTINEL = [0x672A, 0x63D0, 0x53CA]"

section \<open>The Python library, as far as the code relies on it\<close>

text \<open>
  Library calls whose results the code only passes on are parameters of the model; every
  theorem holds for all of them.
  \<^item> \<open>json_loads\<close>: \<open>json.loads(raw)\<close>, \<open>None\<close> when it raises;
  \<^item> \<open>utf8_decode\<close>, \<open>utf8_encode\<close>: \<open>bytes.decode('utf-8')\<close> and \<open>str.encode('utf-8')\<close>,
    \<open>None\<close> when they raise;
  \<^item> \<open>py_lower\<close>: \<open>str.lower()\<close>;
  \<^item> \<open>str_of\<close>: \<open>str(v)\<close> of a value that is not a \<open>str\<close>;
  \<^item> \<open>exc_str\<close>: \<open>str(e)\<close> of an exception;
  \<^item> \<open>re_embed tag doc\<close>: group 1 of
    \<open>re.search(rf'r:embed="(rId\d+)"[^>]*w:comment="{tag}"', doc)\<close>, \<open>Inr None\<close> when there is
    no match, \<open>Inl\<close> when the pattern built from \<open>tag\<close> does not compile;
  \<^item> \<open>re_target rid rels\<close>: group 1 of
    \<open>re.search(rf'Id="{rid}"[^>]*Target="media/([^"]+)"', rels)\<close>, \<open>None\<close> when there is no
    match (\<open>rid\<close> consists of letters and digits, so this pattern always compiles).
\<close>

record pyrt =
  json_loads :: "pystr \<Rightarrow> json option"
  utf8_decode :: "bytes \<Rightarrow> pystr option"
  utf8_encode :: "pystr \<Rightarrow> bytes option"
  py_lower :: "pystr \<Rightarrow> pystr"
  str_of :: "json \<Rightarrow> pystr"
  exc_str :: "py_exc \<Rightarrow> pystr"
  re_embed :: "pystr \<Rightarrow> pystr \<Rightarrow> py_exc + pystr option"
  re_target :: "pystr \<Rightarrow> pystr \<Rightarrow> pystr option"

section \<open>Field extraction: \<open>extract_info_from_pdf\<close>\<close>

text \<open>\<open>all_results\<close>, the accumulator dictionary.\<close>

type_synonym fields = "pystr \<rightharpoonup> json"

text \<open>
  The body of the loop over \<open>batch_result.items()\<close>:
  \<^verbatim>\<open>if v and v != SENTINEL and (k not in all_results or not all_results[k]
       or all_results[k] == SENTINEL): all_results[k] = v\<close>
\<close>

definition merge_pair :: "fields \<Rightarrow> pystr \<times> json \<Rightarrow> fields" where
  "merge_pair all_results kv =
     (case kv of (k, v) \<Rightarrow>
        if truthy v \<and> v \<noteq> JStr SENTINEL \<and>
           (case all_results k of
              None \<Rightarrow> True
            | Some cur \<Rightarrow> \<not> truthy cur \<or> cur = JStr SENTINEL)
        then all_results(k \<mapsto> v)
        else all_results)"

text \<open>
  The \<open>try\<close> block: \<open>json.loads\<close> may raise, and \<open>.items()\<close> raises for anything that is
  not a \<open>dict\<close>; \<open>except Exception: pass\<close> then leaves the accumulator as it is.
\<close>

definition merge_batch :: "fields \<Rightarrow> json option \<Rightarrow> fields" where
  "merge_batch all_results parsed =
     (case parsed of
        Some (JObj items) \<Rightarrow> foldl merge_pair all_results items
      | _ \<Rightarrow> all_results)"

definition FENCE_JSON :: pystr where
  "FENCE_JSON = [0x60, 0x60, 0x60, 0x6A, 0x73, 0x6F, 0x6E]"

definition FENCE :: pystr where
  "FENCE = [0x60, 0x60, 0x60]"

text \<open>\<open>raw.split(opening)[1].split(FENCE)[0].strip()\<close>; an index out of range raises.\<close>

definition between_fences :: "pystr \<Rightarrow> pystr \<Rightarrow> py_exc + pystr" where
  "between_fences opening raw =
     (case py_split opening raw of
        _ # p # _ \<Rightarrow>
          (case py_split FENCE p of
             q # _ \<Rightarrow> Inr (py_strip q)
           | [] \<Rightarrow> Inl IndexError)
      | _ \<Rightarrow> Inl IndexError)"

definition strip_fence :: "pystr \<Rightarrow> py_exc + pystr" where
  "strip_fence raw =
     (if py_in FENCE_JSON raw then between_fences FENCE_JSON raw
      else if py_in FENCE raw then between_fences FENCE raw
      else Inr raw)"

text \<open>
  The function is modelled from its loop on, with the pages already rendered. There is one
  entry per batch of at most three pages: what
  \<open>client.messages.create(...).content[0].text\<close> gives for that batch. The call is outside
  the \<open>try\<close> block, so an exception it raises leaves \<open>extract_info_from_pdf\<close>.
\<close>

datatype reply = Raised py_exc | Reply pystr

fun is_reply :: "reply \<Rightarrow> bool" where
  "is_reply (Reply t) = True"
| "is_reply (Raised e) = False"

fun extract_loop :: "pyrt \<Rightarrow> fields \<Rightarrow> reply list \<Rightarrow> py_exc + fields" where
  "extract_loop rt all_results [] = Inr all_results"
| "extract_loop rt all_results (Raised e # rest) = Inl e"
| "extract_loop rt all_results (Reply text # rest) =
     (case strip_fence (py_strip text) of
        Inl e \<Rightarrow> Inl e
      | Inr raw \<Rightarrow> extract_loop rt (merge_batch all_results (json_loads rt raw)) rest)"

text \<open>\<open>for f in ALL_FIELDS: if f not in all_results: all_results[f] = SENTINEL\<close>\<close>

definition backfill :: "fields \<Rightarrow> fields" where
  "backfill all_results =
     foldl (\<lambda>m f. if m f = None then m(f \<mapsto> JStr SENTINEL) else m) all_results ALL_FIELDS"

definition extract_info_from_pdf :: "pyrt \<Rightarrow> reply list \<Rightarrow> py_exc + fields" where
  "extract_info_from_pdf rt replies =
     (case extract_loop rt Map.empty replies of
        Inl e \<Rightarrow> Inl e
      | Inr all_results \<Rightarrow> Inr (backfill all_results))"

text \<open>
  A value is resolved when the merge accepts it: it is truthy and is not the sentinel. For a
  \<open>str\<close> this means non-empty and different from the sentinel.
\<close>

definition resolved :: "json \<Rightarrow> bool" where
  "resolved v \<longleftrightarrow> truthy v \<and> v \<noteq> JStr SENTINEL"

definition all_resolved :: "fields \<Rightarrow> bool" where
  "all_resolved m \<longleftrightarrow> (\<forall>k w. m k = Some w \<longrightarrow> resolved w)"

text \<open>The first resolved value that the items of a batch report for a key, if any.\<close>

definition first_resolved :: "(pystr \<times> json) list \<Rightarrow> pystr \<Rightarrow> json option" where
  "first_resolved items k = map_of (filter (\<lambda>kv. resolved (snd kv)) items) k"

section \<open>Narrative: \<open>generate_surrounding_description\<close>\<close>

definition SPLIT :: pystr where
  "SPLIT = ascii ''---SPLIT---''"

text \<open>
  Lines 211 to 215: \<open>text = response.content[0].text.strip()\<close>,
  \<open>parts = text.split(SPLIT)\<close>, \<open>para1 = parts[0].strip() if parts else text\<close>,
  \<open>para2 = parts[1].strip() if len(parts) > 1 else ""\<close>.
\<close>

definition split_paragraphs :: "pystr \<Rightarrow> pystr \<times> pystr" where
  "split_paragraphs response_text =
     (let text = py_strip response_text;
          parts = py_split SPLIT text;
          para1 = (case parts of [] \<Rightarrow> text | p # _ \<Rightarrow> py_strip p);
          para2 = (case parts of _ # q # _ \<Rightarrow> py_strip q | _ \<Rightarrow> [])
      in (para1, para2))"

text \<open>The call to the model is not inside a \<open>try\<close>: what it raises, the function raises.\<close>

definition generate_surrounding_description :: "reply \<Rightarrow> py_exc + pystr \<times> pystr" where
  "generate_surrounding_description r =
     (case r of Raised e \<Rightarrow> Inl e | Reply t \<Rightarrow> Inr (split_paragraphs t))"

text \<open>
  The claim's wording, "split on the first occurrence of the delimiter": the text before the
  first occurrence, and the text behind it when there is one.
\<close>

fun spec_split_first :: "'a list \<Rightarrow> 'a list \<Rightarrow> 'a list \<Rightarrow> 'a list \<times> 'a list option" where
  "spec_split_first sep cur [] = (cur, None)"
| "spec_split_first sep cur (c # cs) =
     (if sep \<noteq> [] \<and> prefix sep (c # cs)
      then (cur, Some (drop (length sep - 1) cs))
      else spec_split_first sep (cur @ [c]) cs)"

definition spec_paragraphs :: "pystr \<Rightarrow> pystr \<times> pystr" where
  "spec_paragraphs response_text =
     (case spec_split_first SPLIT [] (py_strip response_text) of
        (a, None) \<Rightarrow> (py_strip a, [])
      | (a, Some b) \<Rightarrow> (py_strip a, py_strip b))"

section \<open>Template filling: \<open>fill_template\<close> and \<open>replace_image_in_docx\<close>\<close>

subsection \<open>Placeholder substitution\<close>

text \<open>\<open>"{{" + key + "}}"\<close>\<close>

definition token :: "pystr \<Rightarrow> pystr" where
  "token key = [0x7B, 0x7B] @ key @ [0x7D, 0x7D]"

text \<open>\<open>str(value) if value else ""\<close>; \<open>str\<close> of a \<open>str\<close> is the string itself.\<close>

definition value_text :: "pyrt \<Rightarrow> json \<Rightarrow> pystr" where
  "value_text rt v =
     (if truthy v then (case v of JStr s \<Rightarrow> s | _ \<Rightarrow> str_of rt v) else [])"

text \<open>
  Lines 230 and 231: \<open>for key, value in data.items(): xml_content =
  xml_content.replace(token, ...)\<close>, one key after the other in the order of the dictionary.
\<close>

definition substitute :: "pyrt \<Rightarrow> pystr \<Rightarrow> (pystr \<times> json) list \<Rightarrow> pystr" where
  "substitute rt xml_content data =
     foldl (\<lambda>xml kv. case kv of (key, v) \<Rightarrow> py_replace (token key) (value_text rt v) xml)
       xml_content data"

text \<open>
  To speak of the occurrences of tokens in a document text, the text is given as a template:
  a sequence of literal pieces and of tokens. \<open>render\<close> is the text it stands for, and
  \<open>spec_substitute\<close> is the substitution the specification describes: every token whose key
  is in the field map becomes the text of its value, all at once, and every other token and
  every literal stays.
\<close>

datatype segment = Lit pystr | Tok pystr

definition render_segment :: "segment \<Rightarrow> pystr" where
  "render_segment seg = (case seg of Lit s \<Rightarrow> s | Tok k \<Rightarrow> token k)"

definition render :: "segment list \<Rightarrow> pystr" where
  "render tpl = concat (map render_segment tpl)"

definition fill_segment :: "pyrt \<Rightarrow> (pystr \<times> json) list \<Rightarrow> segment \<Rightarrow> pystr" where
  "fill_segment rt data seg =
     (case seg of
        Lit s \<Rightarrow> s
      | Tok k \<Rightarrow> (case map_of data k of None \<Rightarrow> token k | Some v \<Rightarrow> value_text rt v))"

definition spec_substitute :: "pyrt \<Rightarrow> segment list \<Rightarrow> (pystr \<times> json) list \<Rightarrow> pystr" where
  "spec_substitute rt tpl data = concat (map (fill_segment rt data) tpl)"

text \<open>
  A text is plain when no \<open>{{\<close> can begin in it: each \<open>{\<close> is followed, inside the text, by
  a character other than \<open>{\<close>. A key is brace-free when it contains neither \<open>{\<close> nor \<open>}\<close>.
\<close>

fun plain :: "pystr \<Rightarrow> bool" where
  "plain [] = True"
| "plain (c # cs) = ((c = 0x7B \<longrightarrow> cs \<noteq> [] \<and> hd cs \<noteq> 0x7B) \<and> plain cs)"

definition brace_free :: "pystr \<Rightarrow> bool" where
  "brace_free k \<longleftrightarrow> 0x7B \<notin> set k \<and> 0x7D \<notin> set k"

definition well_formed_segment :: "segment \<Rightarrow> bool" where
  "well_formed_segment seg = (case seg of Lit s \<Rightarrow> plain s | Tok k \<Rightarrow> brace_free k)"

definition well_formed :: "segment list \<Rightarrow> bool" where
  "well_formed tpl = list_all well_formed_segment tpl"

definition plain_data :: "pyrt \<Rightarrow> (pystr \<times> json) list \<Rightarrow> bool" where
  "plain_data rt data = list_all (\<lambda>kv. brace_free (fst kv) \<and> plain (value_text rt (snd kv))) data"

text \<open>
  One step of the loop seen on the template, and the template after all steps: a token whose
  key is in the field map has become a literal.
\<close>

definition subst1 :: "pystr \<Rightarrow> pystr \<Rightarrow> segment \<Rightarrow> segment" where
  "subst1 k new seg = (if seg = Tok k then Lit new else seg)"

definition filled :: "pyrt \<Rightarrow> (pystr \<times> json) list \<Rightarrow> segment \<Rightarrow> segment" where
  "filled rt data seg =
     (case seg of Lit s \<Rightarrow> Lit s
      | Tok k \<Rightarrow> (case map_of data k of None \<Rightarrow> Tok k | Some v \<Rightarrow> Lit (value_text rt v)))"

subsection \<open>Archives and files\<close>

text \<open>
  A ZIP archive is the list of its members in the order of \<open>infolist()\<close>, each with its file
  name and its decompressed content; a name may occur more than once. A file is an archive or
  anything else. The file system maps paths to files.
\<close>

type_synonym member = "pystr \<times> bytes"
type_synonym archive = "member list"

datatype disk_file = Zip archive | Other bytes

type_synonym filesystem = "pystr \<rightharpoonup> disk_file"

text \<open>\<open>zipfile.ZipFile(path, 'r')\<close>\<close>

definition open_zip :: "filesystem \<Rightarrow> pystr \<Rightarrow> py_exc + archive" where
  "open_zip fs path =
     (case fs path of
        None \<Rightarrow> Inl FileNotFoundError
      | Some (Other _) \<Rightarrow> Inl BadZipFile
      | Some (Zip z) \<Rightarrow> Inr z)"

text \<open>\<open>z.read(name)\<close>: the content of the last member of that name, \<open>KeyError\<close> without one.\<close>

definition zread :: "archive \<Rightarrow> pystr \<Rightarrow> py_exc + bytes" where
  "zread z name = (case map_of (rev z) name of None \<Rightarrow> Inl KeyError | Some b \<Rightarrow> Inr b)"

text \<open>\<open>z.read(name).decode('utf-8')\<close>\<close>

definition read_text :: "pyrt \<Rightarrow> archive \<Rightarrow> pystr \<Rightarrow> py_exc + pystr" where
  "read_text rt z name =
     (case zread z name of
        Inl e \<Rightarrow> Inl e
      | Inr raw \<Rightarrow> (case utf8_decode rt raw of None \<Rightarrow> Inl UnicodeDecodeError | Some s \<Rightarrow> Inr s))"

text \<open>
  \<open>zout.writestr(name, data)\<close> with a \<open>str\<close> name builds a \<open>ZipInfo\<close>, which cuts the name
  at the first NUL character (and keeps \<open>/\<close> as the separator on POSIX).
\<close>

definition arcname :: "pystr \<Rightarrow> pystr" where
  "arcname name = takeWhile (\<lambda>c. c \<noteq> 0) name"

definition DOCUMENT_XML :: pystr where
  "DOCUMENT_XML = ascii ''word/document.xml''"

definition RELS :: pystr where
  "RELS = ascii ''word/_rels/document.xml.rels''"

text \<open>
  The loop \<open>for item in zin.infolist(): zout.writestr(...)\<close>: \<open>f\<close> computes what is written
  for one member; when it raises, the loop stops and \<open>out\<close> holds what was written so far.
\<close>

fun write_members ::
  "(member \<Rightarrow> py_exc + member) \<Rightarrow> member list \<Rightarrow> archive \<Rightarrow> py_exc option \<times> archive" where
  "write_members f [] out = (None, out)"
| "write_members f (item # items) out =
     (case f item of
        Inl e \<Rightarrow> (Some e, out)
      | Inr m \<Rightarrow> write_members f items (out @ [m]))"

text \<open>What the loop writes for a member when it does not raise.\<close>

definition written :: "(member \<Rightarrow> py_exc + member) \<Rightarrow> member \<Rightarrow> member" where
  "written f item = (case f item of Inr m \<Rightarrow> m | Inl e \<Rightarrow> item)"

text \<open>
  The tail that both functions share: open \<open>tmp_path\<close> for writing, run the loop over the
  members of \<open>zin\<close>, then \<open>os.replace(tmp_path, dest)\<close>. \<open>writable p\<close> says whether a file can
  be created or replaced at \<open>p\<close>. Leaving the \<open>with\<close> block closes the new archive also when
  the loop raised, so the temporary file then holds the members written so far; nothing
  removes it.
\<close>

definition rewrite ::
  "(pystr \<Rightarrow> bool) \<Rightarrow> (member \<Rightarrow> py_exc + member) \<Rightarrow> archive \<Rightarrow> pystr \<Rightarrow> pystr \<Rightarrow>
     filesystem \<Rightarrow> py_exc option \<times> filesystem" where
  "rewrite writable f zin tmp_path dest fs =
     (if \<not> writable tmp_path then (Some PermissionError, fs)
      else
        (case write_members f zin [] of
           (Some e, out) \<Rightarrow> (Some e, fs(tmp_path \<mapsto> Zip out))
         | (None, out) \<Rightarrow>
             if \<not> writable dest then (Some PermissionError, fs(tmp_path \<mapsto> Zip out))
             else (None, (fs(tmp_path := None))(dest \<mapsto> Zip out))))"

subsection \<open>\<open>fill_template\<close>\<close>

text \<open>Lines 237 to 240, for one \<open>item\<close>.\<close>

definition fill_item :: "pyrt \<Rightarrow> archive \<Rightarrow> pystr \<Rightarrow> member \<Rightarrow> py_exc + member" where
  "fill_item rt zin xml_content item =
     (if fst item = DOCUMENT_XML then
        (case utf8_encode rt xml_content of
           None \<Rightarrow> Inl UnicodeEncodeError
         | Some b \<Rightarrow> Inr (fst item, b))
      else
        (case zread zin (fst item) of
           Inl e \<Rightarrow> Inl e
         | Inr b \<Rightarrow> Inr (fst item, b)))"

text \<open>
  \<open>shutil.copy(src, dst)\<close> writes the destination in place: it opens \<open>dst\<close> for writing,
  which empties the file, and then writes the content of \<open>src\<close> to it block by block. A write
  can fail part-way (the device is full, the file goes away) with \<open>OSError\<close>; the destination
  then holds the blocks written so far. What the device does to the copy is a parameter:
  \<open>Copies\<close> when every block is written, \<open>Breaks part\<close> when a write fails, where \<open>part\<close> is
  the file that the blocks written before the failure make up, a cut-off beginning of the
  source.
\<close>

datatype copy_outcome = Copies | Breaks disk_file

text \<open>
  \<open>fill_template(data, output_path)\<close>, with the file system before and after, and the
  exception raised, if any. \<open>shutil.copy\<close> writes the template to \<open>output_path\<close> before
  anything is read: it raises \<open>SameFileError\<close> when both paths are the same file and
  \<open>PermissionError\<close> when the destination cannot be opened for writing, both before anything
  is written, and \<open>OSError\<close> when the copy breaks.
\<close>

definition fill_template ::
  "pyrt \<Rightarrow> (pystr \<Rightarrow> bool) \<Rightarrow> copy_outcome \<Rightarrow> pystr \<Rightarrow> (pystr \<times> json) list \<Rightarrow> pystr \<Rightarrow>
     filesystem \<Rightarrow> py_exc option \<times> filesystem" where
  "fill_template rt writable copying TEMPLATE_PATH data output_path fs =
     (case fs TEMPLATE_PATH of
        None \<Rightarrow> (Some FileNotFoundError, fs)
      | Some template \<Rightarrow>
          if output_path = TEMPLATE_PATH then (Some SameFileError, fs)
          else if \<not> writable output_path then (Some PermissionError, fs)
          else
            (case copying of
               Breaks part \<Rightarrow> (Some OSError, fs(output_path \<mapsto> part))
             | Copies \<Rightarrow>
                 (let fs1 = fs(output_path \<mapsto> template) in
                  case open_zip fs1 output_path of
                    Inl e \<Rightarrow> (Some e, fs1)
                  | Inr z \<Rightarrow>
                      (case read_text rt z DOCUMENT_XML of
                         Inl e \<Rightarrow> (Some e, fs1)
                       | Inr xml \<Rightarrow>
                           rewrite writable (fill_item rt z (substitute rt xml data)) z
                             (output_path @ ascii ''.tmp'') output_path fs1))))"

subsection \<open>\<open>replace_image_in_docx\<close>\<close>

text \<open>Lines 274 to 279, for one \<open>item\<close>.\<close>

definition image_item ::
  "pyrt \<Rightarrow> archive \<Rightarrow> pystr \<Rightarrow> pystr \<Rightarrow> pystr \<Rightarrow> bytes \<Rightarrow> member \<Rightarrow> py_exc + member" where
  "image_item rt zin rels_content old_filename new_filename new_image_bytes item =
     (if fst item = RELS then
        (case utf8_encode rt rels_content of
           None \<Rightarrow> Inl UnicodeEncodeError
         | Some b \<Rightarrow> Inr (fst item, b))
      else if fst item = ascii ''word/media/'' @ old_filename then
        Inr (arcname (ascii ''word/media/'' @ new_filename), new_image_bytes)
      else
        (case zread zin (fst item) of
           Inl e \<Rightarrow> Inl e
         | Inr b \<Rightarrow> Inr (fst item, b)))"

text \<open>Line 264: \<open>f"replaced_{image_placeholder.lower()}.{image_ext}"\<close>\<close>

definition new_filename_for :: "pyrt \<Rightarrow> pystr \<Rightarrow> pystr \<Rightarrow> pystr" where
  "new_filename_for rt image_placeholder image_ext =
     ascii ''replaced_'' @ py_lower rt image_placeholder @ ascii ''.'' @ image_ext"

text \<open>Lines 264 to 280: what happens once \<open>old_filename\<close> is known.\<close>

definition rewire_image ::
  "pyrt \<Rightarrow> (pystr \<Rightarrow> bool) \<Rightarrow> archive \<Rightarrow> pystr \<Rightarrow> pystr \<Rightarrow> pystr \<Rightarrow> pystr \<Rightarrow> bytes \<Rightarrow> pystr \<Rightarrow>
     filesystem \<Rightarrow> py_exc option \<times> filesystem" where
  "rewire_image rt writable z rels_content old_filename docx_path image_placeholder
       new_image_bytes image_ext fs =
     (let new_filename = new_filename_for rt image_placeholder image_ext;
          rels_content' = py_replace (ascii ''media/'' @ old_filename)
                            (ascii ''media/'' @ new_filename) rels_content
      in rewrite writable (image_item rt z rels_content' old_filename new_filename new_image_bytes) z
           (docx_path @ ascii ''.imgtmp'') docx_path fs)"

definition replace_image_in_docx ::
  "pyrt \<Rightarrow> (pystr \<Rightarrow> bool) \<Rightarrow> pystr \<Rightarrow> pystr \<Rightarrow> bytes \<Rightarrow> pystr \<Rightarrow> filesystem \<Rightarrow>
     py_exc option \<times> filesystem" where
  "replace_image_in_docx rt writable docx_path image_placeholder new_image_bytes image_ext fs =
     (case open_zip fs docx_path of
        Inl e \<Rightarrow> (Some e, fs)
      | Inr z \<Rightarrow>
          (case read_text rt z RELS of
             Inl e \<Rightarrow> (Some e, fs)
           | Inr rels_content \<Rightarrow>
               (case read_text rt z DOCUMENT_XML of
                  Inl e \<Rightarrow> (Some e, fs)
                | Inr doc_content \<Rightarrow>
                    (case re_embed rt image_placeholder doc_content of
                       Inl e \<Rightarrow> (Some e, fs)
                     | Inr None \<Rightarrow> (None, fs)
                     | Inr (Some rid) \<Rightarrow>
                         (case re_target rt rid rels_content of
                            None \<Rightarrow> (None, fs)
                          | Some old_filename \<Rightarrow>
                              rewire_image rt writable z rels_content old_filename docx_path
                                image_placeholder new_image_bytes image_ext fs)))))"

section \<open>Surroundings: \<open>search_surroundings\<close>\<close>

subsection \<open>Operations on parsed JSON\<close>

text \<open>\<open>d.get(key, dflt)\<close>: only a \<open>dict\<close> has the method.\<close>

definition py_get :: "json \<Rightarrow> pystr \<Rightarrow> json \<Rightarrow> py_exc + json" where
  "py_get d key dflt =
     (case d of
        JObj kvs \<Rightarrow> Inr (case map_of kvs key of None \<Rightarrow> dflt | Some v \<Rightarrow> v)
      | _ \<Rightarrow> Inl AttributeError)"

text \<open>\<open>d[key]\<close> with a \<open>str\<close> key.\<close>

definition py_item :: "json \<Rightarrow> pystr \<Rightarrow> py_exc + json" where
  "py_item d key =
     (case d of
        JObj kvs \<Rightarrow> (case map_of kvs key of None \<Rightarrow> Inl KeyError | Some v \<Rightarrow> Inr v)
      | _ \<Rightarrow> Inl TypeError)"

text \<open>\<open>x[0]\<close>: the first element of a list, the first character of a string.\<close>

definition py_first :: "json \<Rightarrow> py_exc + json" where
  "py_first x =
     (case x of
        JArr [] \<Rightarrow> Inl IndexError
      | JArr (y # _) \<Rightarrow> Inr y
      | JStr [] \<Rightarrow> Inl IndexError
      | JStr (c # _) \<Rightarrow> Inr (JStr [c])
      | JObj _ \<Rightarrow> Inl KeyError
      | _ \<Rightarrow> Inl TypeError)"

text \<open>
  The elements that \<open>for poi in x[:5]\<close> runs over: a list or a string can be sliced, a
  \<open>dict\<close> cannot (\<open>TypeError\<close>, a \<open>KeyError\<close> from Python 3.12 on), nor can a number.
\<close>

definition py_first5 :: "json \<Rightarrow> py_exc + json list" where
  "py_first5 x =
     (case x of
        JArr ys \<Rightarrow> Inr (take 5 ys)
      | JStr cs \<Rightarrow> Inr (map (\<lambda>c. JStr [c]) (take 5 cs))
      | _ \<Rightarrow> Inl TypeError)"

text \<open>A value inside an f-string: \<open>format(v, "")\<close>, which is \<open>str(v)\<close>.\<close>

definition py_format :: "pyrt \<Rightarrow> json \<Rightarrow> pystr" where
  "py_format rt v = (case v of JStr s \<Rightarrow> s | _ \<Rightarrow> str_of rt v)"

subsection \<open>The search\<close>

text \<open>The five list-valued keys of \<open>result\<close>.\<close>

datatype category = Transport | Education | Medical | Commerce | Parks

text \<open>
  \<open>result\<close>: the coordinate (\<open>None\<close> is \<open>JNull\<close>), the five lists and the search status.
\<close>

record surroundings =
  coord :: json
  pois :: "category \<Rightarrow> pystr list"
  status :: pystr

text \<open>
  The two kinds of request, with the parameters that vary: the address and the key; the
  location, the types, the radius and the key. \<open>http\<close> below gives the outcome of
  \<open>requests.get(...).json()\<close> for a request: an exception (connection, timeout, a body that
  is not JSON) or the parsed body.
\<close>

datatype request = Geocode pystr pystr | Around json pystr nat pystr

datatype response = Fails py_exc | Body json

definition STATUS_OK :: pystr where
  "STATUS_OK = [0x6210, 0x529F]"  \<comment> \<open>"success"\<close>

definition STATUS_UNRESOLVED :: pystr where
  "STATUS_UNRESOLVED = [0x5730, 0x5740, 0x89E3, 0x6790, 0x5931, 0x8D25]"  \<comment> \<open>"address not resolved"\<close>

definition STATUS_ERROR :: pystr where
  "STATUS_ERROR = [0x641C, 0x7D22, 0x5F02, 0x5E38, 0x3A, 0x20]"  \<comment> \<open>"search failed: "\<close>

definition initial_result :: surroundings where
  "initial_result = \<lparr> coord = JNull, pois = (\<lambda>c. []), status = STATUS_OK \<rparr>"

text \<open>The list of the \<open>for type_str, key, radius in [...]\<close> loop.\<close>

definition CATEGORIES :: "(pystr \<times> category \<times> nat) list" where
  "CATEGORIES =
   [ ([0x4EA4, 0x901A, 0x8BBE, 0x65BD, 0x670D, 0x52A1], Transport, 1000),
     ([0x4E2D, 0x5C0F, 0x5B66, 0x3B, 0x9AD8, 0x7B49, 0x9662, 0x6821, 0x3B, 0x5E7C, 0x513F, 0x56ED],
        Education, 1000),
     ([0x7EFC, 0x5408, 0x533B, 0x9662, 0x3B, 0x8BCA, 0x6240, 0x3B, 0x836F, 0x5E97], Medical, 1500),
     ([0x8D2D, 0x7269, 0x670D, 0x52A1, 0x3B, 0x8D85, 0x7EA7, 0x5E02, 0x573A], Commerce, 1000),
     ([0x516C, 0x56ED, 0x5E7F, 0x573A, 0x3B, 0x98CE, 0x666F, 0x540D, 0x80DC], Parks, 1500) ]"

text \<open>
  Lines 165 to 168: \<open>Inr None\<close> when the address is not resolved, else
  \<open>geo["geocodes"][0]["location"]\<close>. \<open>or\<close> evaluates its second operand only when the
  status is \<open>"1"\<close>.
\<close>

definition locate :: "json \<Rightarrow> py_exc + json option" where
  "locate geo =
     (case py_get geo (ascii ''status'') JNull of
        Inl e \<Rightarrow> Inl e
      | Inr st \<Rightarrow>
          if st \<noteq> JStr (ascii ''1'') then Inr None
          else
            (case py_get geo (ascii ''geocodes'') JNull of
               Inl e \<Rightarrow> Inl e
             | Inr gs \<Rightarrow>
                 if \<not> truthy gs then Inr None
                 else
                   (case py_item geo (ascii ''geocodes'') of
                      Inl e \<Rightarrow> Inl e
                    | Inr gs' \<Rightarrow>
                        (case py_first gs' of
                           Inl e \<Rightarrow> Inl e
                         | Inr g \<Rightarrow>
                             (case py_item g (ascii ''location'') of
                                Inl e \<Rightarrow> Inl e
                              | Inr location \<Rightarrow> Inr (Some location))))))"

text \<open>
  Lines 185 and 186: \<open>result[key].append(f"{name}(about {distance} m)")\<close> for each \<open>poi\<close>; the
  brackets are full-width and \<open>about\<close>, \<open>m\<close> are one Chinese character each.
\<close>

fun add_pois :: "pyrt \<Rightarrow> category \<Rightarrow> json list \<Rightarrow> surroundings \<Rightarrow> py_exc option \<times> surroundings" where
  "add_pois rt key [] result = (None, result)"
| "add_pois rt key (poi # rest) result =
     (case py_get poi (ascii ''name'') (JStr []) of
        Inl e \<Rightarrow> (Some e, result)
      | Inr name \<Rightarrow>
          (case py_get poi (ascii ''distance'') (JStr []) of
             Inl e \<Rightarrow> (Some e, result)
           | Inr distance \<Rightarrow>
               add_pois rt key rest
                 (result\<lparr> pois := (pois result)
                    (key := pois result key @
                       [py_format rt name @ [0xFF08, 0x7EA6] @ py_format rt distance @ [0x7C73, 0xFF09]]) \<rparr>)))"

text \<open>Lines 184 to 186 for one parsed response.\<close>

definition take_pois :: "pyrt \<Rightarrow> category \<Rightarrow> json \<Rightarrow> surroundings \<Rightarrow> py_exc option \<times> surroundings" where
  "take_pois rt key resp result =
     (case py_get resp (ascii ''status'') JNull of
        Inl e \<Rightarrow> (Some e, result)
      | Inr st \<Rightarrow>
          if st \<noteq> JStr (ascii ''1'') then (None, result)
          else
            (case py_get resp (ascii ''pois'') JNull of
               Inl e \<Rightarrow> (Some e, result)
             | Inr ps \<Rightarrow>
                 if \<not> truthy ps then (None, result)
                 else
                   (case py_item resp (ascii ''pois'') of
                      Inl e \<Rightarrow> (Some e, result)
                    | Inr ps' \<Rightarrow>
                        (case py_first5 ps' of
                           Inl e \<Rightarrow> (Some e, result)
                         | Inr items \<Rightarrow> add_pois rt key items result))))"

text \<open>The loop of lines 171 to 186; an exception ends it.\<close>

fun search_categories ::
  "pyrt \<Rightarrow> (request \<Rightarrow> response) \<Rightarrow> json \<Rightarrow> pystr \<Rightarrow> (pystr \<times> category \<times> nat) list \<Rightarrow>
     surroundings \<Rightarrow> py_exc option \<times> surroundings" where
  "search_categories rt http location amap_key [] result = (None, result)"
| "search_categories rt http location amap_key ((type_str, key, radius) # rest) result =
     (case http (Around location type_str radius amap_key) of
        Fails e \<Rightarrow> (Some e, result)
      | Body resp \<Rightarrow>
          (case take_pois rt key resp result of
             (Some e, result') \<Rightarrow> (Some e, result')
           | (None, result') \<Rightarrow> search_categories rt http location amap_key rest result'))"

text \<open>The \<open>try\<close> block: the exception that ends it, if any, and \<open>result\<close> at that moment.\<close>

definition search_body ::
  "pyrt \<Rightarrow> (request \<Rightarrow> response) \<Rightarrow> pystr \<Rightarrow> pystr \<Rightarrow> py_exc option \<times> surroundings" where
  "search_body rt http address amap_key =
     (case http (Geocode address amap_key) of
        Fails e \<Rightarrow> (Some e, initial_result)
      | Body geo \<Rightarrow>
          (case locate geo of
             Inl e \<Rightarrow> (Some e, initial_result)
           | Inr None \<Rightarrow> (None, initial_result\<lparr> status := STATUS_UNRESOLVED \<rparr>)
           | Inr (Some location) \<Rightarrow>
               search_categories rt http location amap_key CATEGORIES
                 (initial_result\<lparr> coord := location \<rparr>)))"

text \<open>
  \<open>except Exception as e: result[status] = f"<search failed>: {e}"\<close>, then \<open>return result\<close>.
  The \<open>import requests\<close> in front of the \<open>try\<close> block is taken to succeed.
\<close>

definition search_surroundings ::
  "pyrt \<Rightarrow> (request \<Rightarrow> response) \<Rightarrow> pystr \<Rightarrow> pystr \<Rightarrow> surroundings" where
  "search_surroundings rt http address amap_key =
     (case search_body rt http address amap_key of
        (None, result) \<Rightarrow> result
      | (Some e, result) \<Rightarrow> result\<lparr> status := STATUS_ERROR @ exc_str rt e \<rparr>)"

section \<open>Example data\<close>

definition OWNER :: pystr where
  "OWNER = [0x6743, 0x5C5E, 0x4EBA]"

definition ADDRESS :: pystr where
  "ADDRESS = [0x623F, 0x4EA7, 0x5730, 0x5740]"

definition FLOOR_AREA :: pystr where
  "FLOOR_AREA = [0x5EFA, 0x7B51, 0x9762, 0x79EF]"

definition TOTAL_STOREYS :: pystr where
  "TOTAL_STOREYS = [0x603B, 0x5C42, 0x6570]"

definition REPORT_NO :: pystr where
  "REPORT_NO = [0x62A5, 0x544A, 0x7F16, 0x53F7]"

definition ZHANG_SAN :: pystr where
  "ZHANG_SAN = [0x5F20, 0x4E09]"

definition LI_SI :: pystr where
  "LI_SI = [0x674E, 0x56DB]"

text \<open>The address of Scenario A: "Beijing, Chaoyang district, XX road no. 1".\<close>

definition BEIJING_ADDRESS :: pystr where
  "BEIJING_ADDRESS = [0x5317, 0x4EAC, 0x5E02, 0x671D, 0x9633, 0x533A, 0x58, 0x58, 0x8DEF, 0x31, 0x53F7]"

definition scenario_A_batch1 :: json where
  "scenario_A_batch1 = JObj [(OWNER, JStr ZHANG_SAN), (ADDRESS, JStr SENTINEL)]"

definition scenario_A_batch2 :: json where
  "scenario_A_batch2 = JObj [(ADDRESS, JStr BEIJING_ADDRESS)]"

text \<open>
  The two replies of Scenario A as texts, \<open>{"<owner>":"<Zhang San>","<address>":"<sentinel>"}\<close>
  and \<open>{"<address>":"<the address>"}\<close>, and \<open>json.loads\<close> at these two texts.
\<close>

definition SCENARIO_A_REPLY1 :: pystr where
  "SCENARIO_A_REPLY1 =
     [0x7B, 0x22, 0x6743, 0x5C5E, 0x4EBA, 0x22, 0x3A, 0x22, 0x5F20, 0x4E09, 0x22, 0x2C,
      0x22, 0x623F, 0x4EA7, 0x5730, 0x5740, 0x22, 0x3A, 0x22, 0x672A, 0x63D0, 0x53CA, 0x22,
      0x7D]"

definition SCENARIO_A_REPLY2 :: pystr where
  "SCENARIO_A_REPLY2 =
     [0x7B, 0x22, 0x623F, 0x4EA7, 0x5730, 0x5740, 0x22, 0x3A, 0x22, 0x5317, 0x4EAC, 0x5E02,
      0x671D, 0x9633, 0x533A, 0x58, 0x58, 0x8DEF, 0x31, 0x53F7, 0x22, 0x7D]"

definition scenario_A_loads :: "pystr \<Rightarrow> json option" where
  "scenario_A_loads raw =
     (if raw = SCENARIO_A_REPLY1 then Some scenario_A_batch1
      else if raw = SCENARIO_A_REPLY2 then Some scenario_A_batch2
      else None)"

text \<open>
  Three reply texts: a fenced \<open>{"<owner>": "<Li Si>"}\<close> between \<open>```json\<close> and \<open>```\<close>,
  the text between its fences, \<open>{"<total storeys>": 18}\<close> and \<open>{"<floor area>": 89.5}\<close>.
\<close>

definition OWNER_JSON :: pystr where
  "OWNER_JSON = [0x7B, 0x22, 0x6743, 0x5C5E, 0x4EBA, 0x22, 0x3A, 0x20, 0x22, 0x674E, 0x56DB, 0x22, 0x7D]"

definition OWNER_REPLY :: pystr where
  "OWNER_REPLY = [0x60, 0x60, 0x60, 0x6A, 0x73, 0x6F, 0x6E, 0xA] @ OWNER_JSON @ [0xA, 0x60, 0x60, 0x60]"

definition STOREYS_REPLY :: pystr where
  "STOREYS_REPLY = [0x7B, 0x22, 0x603B, 0x5C42, 0x6570, 0x22, 0x3A, 0x20, 0x31, 0x38, 0x7D]"

definition AREA_REPLY :: pystr where
  "AREA_REPLY = [0x7B, 0x22, 0x5EFA, 0x7B51, 0x9762, 0x79EF, 0x22, 0x3A, 0x20, 0x38, 0x39, 0x2E, 0x35, 0x7D]"

text \<open>\<open>json.loads\<close> at these three texts; the examples apply it to nothing else.\<close>

definition example_loads :: "pystr \<Rightarrow> json option" where
  "example_loads raw =
     (if raw = OWNER_JSON then Some (JObj [(OWNER, JStr LI_SI)])
      else if raw = STOREYS_REPLY then Some (JObj [(TOTAL_STOREYS, JInt 18)])
      else if raw = AREA_REPLY then Some (JObj [(FLOOR_AREA, JFloat (179 / 2))])
      else None)"

text \<open>The field of a result, \<open>None\<close> when the call raised or the key is absent.\<close>

definition field_of :: "py_exc + fields \<Rightarrow> pystr \<Rightarrow> json option" where
  "field_of res k = (case res of Inl e \<Rightarrow> None | Inr m \<Rightarrow> m k)"

definition is_str :: "json \<Rightarrow> bool" where
  "is_str v = (case v of JStr s \<Rightarrow> True | _ \<Rightarrow> False)"

text \<open>
  The library on the examples: \<open>json.loads\<close> as above; UTF-8 on ASCII text, where a code
  point is its own byte; \<open>str.lower\<close> on ASCII text; the message of an exception raised by
  a request; and the two searches as far as the examples call them, with the tags
  \<open>IMAGE_PHOTO_1\<close> and \<open>IMAGE_PHOTO_2\<close> on the example document below: there
  \<open>IMAGE_PHOTO_1\<close> is bound to \<open>rId5\<close> and \<open>rId5\<close> to \<open>media/image1.png\<close>, and
  \<open>IMAGE_PHOTO_2\<close> is bound to nothing. The examples format strings only, so \<open>str_of\<close> is
  not reached.
  The document text and the relationships of the example are
  \<^verbatim>\<open><w:t>{{no}}</w:t><a:blip r:embed="rId5" w:comment="IMAGE_PHOTO_1"/>\<close> and
  \<^verbatim>\<open><Relationship Id="rId5" Target="media/image1.png"/>\<close> followed by
  \<^verbatim>\<open><Relationship Id="rId6" Target="media/replaced_image_photo_1.png"/>\<close>.
\<close>

definition DQ :: pystr where
  "DQ = [0x22]"

definition EXAMPLE_DOC :: pystr where
  "EXAMPLE_DOC =
     ascii ''<w:t>{{no}}</w:t><a:blip r:embed='' @ DQ @ ascii ''rId5'' @ DQ @
     ascii '' w:comment='' @ DQ @ ascii ''IMAGE_PHOTO_1'' @ DQ @ ascii ''/>''"

definition EXAMPLE_RELS :: pystr where
  "EXAMPLE_RELS =
     ascii ''<Relationship Id='' @ DQ @ ascii ''rId5'' @ DQ @ ascii '' Target='' @ DQ @
     ascii ''media/image1.png'' @ DQ @ ascii ''/>'' @
     ascii ''<Relationship Id='' @ DQ @ ascii ''rId6'' @ DQ @ ascii '' Target='' @ DQ @
     ascii ''media/replaced_image_photo_1.png'' @ DQ @ ascii ''/>''"

definition example_rt :: pyrt where
  "example_rt =
     \<lparr> json_loads = example_loads,
       utf8_decode = (\<lambda>b. if list_all (\<lambda>x. x < 0x80) b then Some (map unat b) else None),
       utf8_encode = (\<lambda>s. if list_all (\<lambda>c. c < 0x80) s then Some (map of_nat s) else None),
       py_lower = map (\<lambda>c. if 0x41 \<le> c \<and> c \<le> 0x5A then c + 0x20 else c),
       str_of = (\<lambda>v. []),
       exc_str = (\<lambda>e. case e of External msg \<Rightarrow> msg | _ \<Rightarrow> []),
       re_embed = (\<lambda>tag doc. if tag = ascii ''IMAGE_PHOTO_1'' \<and> doc = EXAMPLE_DOC
                               then Inr (Some (ascii ''rId5'')) else Inr None),
       re_target = (\<lambda>rid rels. if rid = ascii ''rId5'' \<and> rels = EXAMPLE_RELS
                                then Some (ascii ''image1.png'') else None) \<rparr>"

text \<open>The same library with \<open>json.loads\<close> at the two replies of Scenario A.\<close>

definition scenario_A_rt :: pyrt where
  "scenario_A_rt = example_rt\<lparr> json_loads := scenario_A_loads \<rparr>"

text \<open>
  What \<open>ZipFile(path).read(name)\<close> gives on a file system; and an archive with the example
  document, its relationships and two pictures, one of which already has the name that
  \<open>replace_image_in_docx\<close> gives to the picture it replaces.
\<close>

definition read_at :: "filesystem \<Rightarrow> pystr \<Rightarrow> pystr \<Rightarrow> py_exc + bytes" where
  "read_at fs path name = (case open_zip fs path of Inl e \<Rightarrow> Inl e | Inr z \<Rightarrow> zread z name)"

definition EXAMPLE_ARCHIVE :: archive where
  "EXAMPLE_ARCHIVE =
     [ (RELS, map of_nat EXAMPLE_RELS),
       (DOCUMENT_XML, map of_nat EXAMPLE_DOC),
       (ascii ''word/media/replaced_image_photo_1.png'', [1, 2, 3]),
       (ascii ''word/media/image1.png'', [4, 5, 6]) ]"

text \<open>
  The same document, with the same relationships text, and one picture only, so that no
  member has the new media name yet; a document without the relationships member; and the
  beginning of a file that a broken copy leaves behind.
\<close>

definition PLAIN_ARCHIVE :: archive where
  "PLAIN_ARCHIVE =
     [ (RELS, map of_nat EXAMPLE_RELS),
       (DOCUMENT_XML, map of_nat EXAMPLE_DOC),
       (ascii ''word/media/image1.png'', [4, 5, 6]) ]"

definition NO_RELS_ARCHIVE :: archive where
  "NO_RELS_ARCHIVE = [ (DOCUMENT_XML, map of_nat EXAMPLE_DOC) ]"


text \<open>Two settings of the file system's permissions.\<close>

definition always_writable :: "pystr \<Rightarrow> bool" where
  "always_writable p = True"


definition REPORT_PATH :: pystr where
  "REPORT_PATH = ascii ''/tmp/report.docx''"

definition TEMPLATE :: pystr where
  "TEMPLATE = ascii ''/app/template_v2.docx''"

text \<open>The relationships of the example after the rewiring, and the archive then.\<close>

definition EXAMPLE_RELS_REWIRED :: pystr where
  "EXAMPLE_RELS_REWIRED =
     ascii ''<Relationship Id='' @ DQ @ ascii ''rId5'' @ DQ @ ascii '' Target='' @ DQ @
     ascii ''media/replaced_image_photo_1.png'' @ DQ @ ascii ''/>'' @
     ascii ''<Relationship Id='' @ DQ @ ascii ''rId6'' @ DQ @ ascii '' Target='' @ DQ @
     ascii ''media/replaced_image_photo_1.png'' @ DQ @ ascii ''/>''"

definition REWIRED_ARCHIVE :: archive where
  "REWIRED_ARCHIVE =
    [ (RELS, map of_nat EXAMPLE_RELS_REWIRED),
      (DOCUMENT_XML, map of_nat EXAMPLE_DOC),
      (ascii ''word/media/replaced_image_photo_1.png'', [1, 2, 3]),
      (ascii ''word/media/replaced_image_photo_1.png'', [7, 8, 9]) ]"

text \<open>
  Responses of the map service for the examples: a geocoding response with one coordinate and
  one without any, a nearby-search response with one place, and three behaviours of the
  network: every request fails; the address is not found; the address is found, the first
  nearby search answers and every later one times out.
\<close>

definition GEO_FOUND :: json where
  "GEO_FOUND =
     JObj [(ascii ''status'', JStr (ascii ''1'')),
           (ascii ''geocodes'', JArr [JObj [(ascii ''location'', JStr (ascii ''116.48,39.99''))]])]"

definition GEO_NOT_FOUND :: json where
  "GEO_NOT_FOUND = JObj [(ascii ''status'', JStr (ascii ''1'')), (ascii ''geocodes'', JArr [])]"

definition ONE_PLACE :: json where
  "ONE_PLACE =
     JObj [(ascii ''status'', JStr (ascii ''1'')),
           (ascii ''pois'', JArr [JObj [(ascii ''name'', JStr (ascii ''Metro'')),
                                        (ascii ''distance'', JStr (ascii ''300''))]])]"

definition TRANSPORT_TYPES :: pystr where
  "TRANSPORT_TYPES = [0x4EA4, 0x901A, 0x8BBE, 0x65BD, 0x670D, 0x52A1]"

definition http_down :: "request \<Rightarrow> response" where
  "http_down req = Fails (External (ascii ''connection refused''))"

definition http_not_found :: "request \<Rightarrow> response" where
  "http_not_found req = Body GEO_NOT_FOUND"

definition http_times_out :: "request \<Rightarrow> response" where
  "http_times_out req =
     (case req of
        Geocode address key \<Rightarrow> Body GEO_FOUND
      | Around location types radius key \<Rightarrow>
          if types = TRANSPORT_TYPES then Body ONE_PLACE
          else Fails (External (ascii ''timed out'')))"

definition ONE_PLACE_RESULT :: surroundings where
  "ONE_PLACE_RESULT =
     \<lparr> coord = JStr (ascii ''116.48,39.99''),
       pois = (\<lambda>c. if c = Transport
                     then [ascii ''Metro'' @ [0xFF08, 0x7EA6] @ ascii ''300'' @ [0x7C73, 0xFF09]]
                     else []),
       status = STATUS_OK \<rparr>"

section \<open>Properties of the \<open>str\<close> methods\<close>

lemma py_in_append: "py_in (a @ b) t \<Longrightarrow> py_in a t"
  by (induction t) (auto dest: append_prefixD)

lemma split_from_not_Nil: "split_from sep cur s \<noteq> []"
  by (induction sep cur s rule: split_from.induct) auto

lemma py_in_split_from:
  "sep \<noteq> [] \<Longrightarrow> py_in sep s \<Longrightarrow> 2 \<le> length (split_from sep cur s)"
proof (induction sep cur s rule: split_from.induct)
  case (1 sep cur)
  then show ?case by simp
next
  case (2 sep cur c cs)
  show ?case
  proof (cases "prefix sep (c # cs)")
    case True
    have "1 \<le> length (split_from sep [] (drop (length sep - 1) cs))"
      using split_from_not_Nil [of sep "[]" "drop (length sep - 1) cs"]
      by (cases "split_from sep [] (drop (length sep - 1) cs)") auto
    with True "2.prems" show ?thesis by simp
  next
    case False
    with "2.prems" have "py_in sep cs" by simp
    with False "2.prems" "2.IH"(2) show ?thesis by simp
  qed
qed

lemma dropWhile_rev_dropWhile:
  "dropWhile P (rev (dropWhile P (rev (dropWhile P s)))) = rev (dropWhile P (rev (dropWhile P s)))"
proof -
  define a where "a = dropWhile P s"
  define b where "b = dropWhile P (rev a)"
  have "rev b = [] \<or> \<not> P (hd (rev b))"
  proof (cases "b = []")
    case True
    then show ?thesis by simp
  next
    case False
    have "rev a = takeWhile P (rev a) @ b" by (simp add: b_def)
    with False have "last (rev a) = last b" by (metis last_appendR)
    moreover from False have "a \<noteq> []" by (auto simp: b_def)
    ultimately have "hd a = last b" by (simp add: last_rev)
    moreover from \<open>a \<noteq> []\<close> have "\<not> P (hd a)" unfolding a_def by (rule hd_dropWhile)
    ultimately show ?thesis using False by (simp add: hd_rev)
  qed
  then show ?thesis unfolding a_def b_def by (simp add: dropWhile_eq_self_iff)
qed

lemma py_strip_idem: "py_strip (py_strip s) = py_strip s"
  unfolding py_strip_def by (simp add: dropWhile_rev_dropWhile)

lemma split_from_spec:
  "split_from sep cur s =
     (case spec_split_first sep cur s of
        (a, None) \<Rightarrow> [a]
      | (a, Some b) \<Rightarrow> a # split_from sep [] b)"
  by (induction sep cur s rule: split_from.induct) simp_all

lemma spec_split_first_no_occurrence:
  "\<not> py_in sep s \<Longrightarrow> spec_split_first sep cur s = (cur @ s, None)"
  by (induction s arbitrary: cur) auto

lemma prefix_of_short:
  "prefix xs (ys @ zs) \<Longrightarrow> length xs \<le> length ys \<Longrightarrow> prefix xs ys"
  by (metis prefix_length_prefix prefixI)

lemma spec_split_first_occurrence:
  assumes "sep \<noteq> []" "\<not> py_in sep (a @ butlast sep)"
  shows "spec_split_first sep cur (a @ sep @ b) = (cur @ a, Some b)"
  using assms(2)
proof (induction a arbitrary: cur)
  case Nil
  from assms(1) obtain c cs where "sep = c # cs" by (cases sep) auto
  then show ?case by simp
next
  case (Cons x a)
  have "\<not> prefix sep (x # a @ sep @ b)"
  proof
    assume p: "prefix sep (x # a @ sep @ b)"
    have "x # a @ sep @ b = (x # a @ butlast sep) @ (last sep # b)"
      using assms(1) by simp
    with p have "prefix sep ((x # a @ butlast sep) @ (last sep # b))" by simp
    moreover have "length sep \<le> length (x # a @ butlast sep)" by simp
    ultimately have "prefix sep (x # a @ butlast sep)" by (rule prefix_of_short)
    with Cons.prems show False by simp
  qed
  moreover from Cons.prems have "\<not> py_in sep (a @ butlast sep)" by simp
  ultimately show ?case using Cons.IH [of "cur @ [x]"] by simp
qed

lemma py_join_Cons: "ys \<noteq> [] \<Longrightarrow> py_join sep (x # ys) = x @ sep @ py_join sep ys"
  by (cases ys) simp_all

lemma join_split_from:
  "py_join new (split_from old cur s) = cur @ replace_from old new s"
proof (induction old cur s rule: split_from.induct)
  case (1 sep cur)
  then show ?case by simp
next
  case (2 sep cur c cs)
  then show ?case by (auto simp: py_join_Cons split_from_not_Nil)
qed

lemma replace_is_join_split:
  "old \<noteq> [] \<Longrightarrow> py_replace old new s = py_join new (py_split old s)"
  by (simp add: py_replace_def py_split_def join_split_from)

lemma replace_from_absent: "\<not> py_in old s \<Longrightarrow> replace_from old new s = s"
  by (induction s) auto

section \<open>Properties of the extraction merge\<close>

lemma between_fences_total:
  assumes "opening \<noteq> []" "py_in opening raw"
  shows "\<exists>r. between_fences opening raw = Inr r"
proof -
  from assms have "2 \<le> length (py_split opening raw)"
    unfolding py_split_def by (rule py_in_split_from)
  then obtain a p ps where sp: "py_split opening raw = a # p # ps"
    by (cases "py_split opening raw"; cases "tl (py_split opening raw)") auto
  have "py_split FENCE p \<noteq> []"
    unfolding py_split_def by (rule split_from_not_Nil)
  then obtain q qs where "py_split FENCE p = q # qs"
    by (cases "py_split FENCE p") auto
  with sp show ?thesis by (simp add: between_fences_def)
qed

lemma strip_fence_total: "\<exists>r. strip_fence raw = Inr r"
  using between_fences_total [of FENCE_JSON raw] between_fences_total [of FENCE raw]
  by (auto simp: strip_fence_def FENCE_JSON_def FENCE_def)

lemma merge_pair_all_resolved: "all_resolved m \<Longrightarrow> all_resolved (merge_pair m kv)"
  by (cases kv) (auto simp: all_resolved_def merge_pair_def resolved_def)

lemma foldl_merge_pair_all_resolved:
  "all_resolved m \<Longrightarrow> all_resolved (foldl merge_pair m kvs)"
  by (induction kvs arbitrary: m) (auto intro: merge_pair_all_resolved)

lemma merge_batch_all_resolved: "all_resolved m \<Longrightarrow> all_resolved (merge_batch m parsed)"
  by (auto simp: merge_batch_def foldl_merge_pair_all_resolved split: option.splits json.splits)

lemma extract_loop_all_resolved:
  "all_resolved acc \<Longrightarrow> extract_loop rt acc replies = Inr m \<Longrightarrow> all_resolved m"
proof (induction rt acc replies rule: extract_loop.induct)
  case (3 rt all_results t rest)
  then show ?case
    by (auto split: sum.splits intro: merge_batch_all_resolved)
qed auto

lemma merge_pair_keeps:
  "m k = Some w \<Longrightarrow> resolved w \<Longrightarrow> merge_pair m kv k = Some w"
  by (cases kv) (auto simp: merge_pair_def resolved_def)

lemma foldl_merge_pair_keeps:
  "m k = Some w \<Longrightarrow> resolved w \<Longrightarrow> foldl merge_pair m kvs k = Some w"
  by (induction kvs arbitrary: m) (auto intro: merge_pair_keeps)

lemma merge_batch_keeps:
  "m k = Some w \<Longrightarrow> resolved w \<Longrightarrow> merge_batch m parsed k = Some w"
  by (auto simp: merge_batch_def foldl_merge_pair_keeps split: option.splits json.splits)

lemma extract_loop_keeps:
  "acc k = Some w \<Longrightarrow> resolved w \<Longrightarrow> extract_loop rt acc replies = Inr m \<Longrightarrow> m k = Some w"
proof (induction rt acc replies rule: extract_loop.induct)
  case (3 rt all_results t rest)
  then show ?case
    by (auto split: sum.splits intro: merge_batch_keeps)
qed auto

lemma extract_loop_total:
  "list_all is_reply replies \<Longrightarrow> \<exists>m. extract_loop rt acc replies = Inr m"
proof (induction rt acc replies rule: extract_loop.induct)
  case (3 rt all_results t rest)
  obtain raw where "strip_fence (py_strip t) = Inr raw"
    using strip_fence_total by blast
  with 3 show ?case by simp
qed auto

lemma foldl_backfill:
  "foldl (\<lambda>m f. if m f = None then m(f \<mapsto> s) else m) m fs k =
     (if k \<in> set fs \<and> m k = None then Some s else m k)"
  by (induction fs arbitrary: m) auto

lemma backfill_apply:
  "backfill m k = (if k \<in> set ALL_FIELDS \<and> m k = None then Some (JStr SENTINEL) else m k)"
  unfolding backfill_def by (rule foldl_backfill)

lemma length_ALL_FIELDS: "length ALL_FIELDS = 34"
  by (simp add: ALL_FIELDS_def FIELD_GROUPS_def)

lemma distinct_ALL_FIELDS: "distinct ALL_FIELDS"
  by (simp add: ALL_FIELDS_def FIELD_GROUPS_def)


lemma resolved_JStr: "resolved (JStr s) \<longleftrightarrow> s \<noteq> [] \<and> s \<noteq> SENTINEL"
  by (auto simp: resolved_def)

lemma resolved_SENTINEL: "\<not> resolved (JStr SENTINEL)"
  by (simp add: resolved_def)

lemma truthy_SENTINEL: "truthy (JStr SENTINEL)"
  by (simp add: SENTINEL_def)

lemma extract_result:
  assumes "extract_info_from_pdf rt replies = Inr m"
  obtains m0 where "extract_loop rt Map.empty replies = Inr m0" "m = backfill m0" "all_resolved m0"
proof -
  from assms obtain m0 where m0: "extract_loop rt Map.empty replies = Inr m0" "m = backfill m0"
    by (auto simp: extract_info_from_pdf_def split: sum.splits)
  have "all_resolved Map.empty" by (simp add: all_resolved_def)
  with m0(1) have "all_resolved m0" by (rule extract_loop_all_resolved [rotated])
  with m0 that show ?thesis by blast
qed

lemma scenario_A:
  "backfill (merge_batch (merge_batch Map.empty (Some scenario_A_batch1)) (Some scenario_A_batch2)) OWNER
     = Some (JStr ZHANG_SAN)"
  "backfill (merge_batch (merge_batch Map.empty (Some scenario_A_batch1)) (Some scenario_A_batch2)) ADDRESS
     = Some (JStr BEIJING_ADDRESS)"
  by (simp_all add: backfill_apply merge_batch_def merge_pair_def scenario_A_batch1_def
      scenario_A_batch2_def OWNER_def ADDRESS_def ZHANG_SAN_def BEIJING_ADDRESS_def SENTINEL_def)

lemma foldl_merge_pair_lookup:
  "foldl merge_pair acc items k =
     (if \<exists>w. acc k = Some w \<and> resolved w then acc k
      else case first_resolved items k of None \<Rightarrow> acc k | Some u \<Rightarrow> Some u)"
proof (induction items arbitrary: acc)
  case Nil
  then show ?case by (simp add: first_resolved_def)
next
  case (Cons kv items)
  define a where "a = merge_pair acc kv"
  have IH: "foldl merge_pair a items k =
     (if \<exists>w. a k = Some w \<and> resolved w then a k
      else case first_resolved items k of None \<Rightarrow> a k | Some u \<Rightarrow> Some u)"
    by (rule Cons.IH)
  have step: "foldl merge_pair acc (kv # items) k = foldl merge_pair a items k"
    by (simp add: a_def)
  show ?case
  proof (cases "\<exists>w. acc k = Some w \<and> resolved w")
    case True
    then obtain w where w: "acc k = Some w" "resolved w" by blast
    then have "a k = Some w" unfolding a_def by (rule merge_pair_keeps)
    with w IH step show ?thesis by auto
  next
    case False
    show ?thesis
    proof (cases "fst kv = k \<and> resolved (snd kv)")
      case True
      with False have ak: "a k = Some (snd kv)"
        by (cases kv) (auto simp: a_def merge_pair_def resolved_def split: option.splits)
      from True have fr: "first_resolved (kv # items) k = Some (snd kv)"
        by (cases kv) (auto simp: first_resolved_def)
      from True ak have "\<exists>w. a k = Some w \<and> resolved w" by blast
      with IH ak have "foldl merge_pair a items k = Some (snd kv)" by auto
      with step fr False show ?thesis by auto
    next
      case False2: False
      then have ak: "a k = acc k"
        by (cases kv) (auto simp: a_def merge_pair_def resolved_def)
      from False2 have fr: "first_resolved (kv # items) k = first_resolved items k"
        by (cases kv) (auto simp: first_resolved_def)
      from False ak have "\<not> (\<exists>w. a k = Some w \<and> resolved w)" by simp
      with IH ak have "foldl merge_pair a items k =
          (case first_resolved items k of None \<Rightarrow> acc k | Some u \<Rightarrow> Some u)"
        by (auto split: option.splits)
      with step fr False show ?thesis by auto
    qed
  qed
qed

lemma first_resolved_distinct:
  "distinct (map fst items) \<Longrightarrow> map_of items k = Some u \<Longrightarrow>
     first_resolved items k = (if resolved u then Some u else None)"
proof (induction items)
  case Nil
  then show ?case by simp
next
  case (Cons kv items)
  obtain k' v' where kv: "kv = (k', v')" by (cases kv)
  show ?case
  proof (cases "k' = k")
    case True
    with Cons.prems kv have u: "v' = u" and "k \<notin> fst ` set items" by auto
    then have "k \<notin> fst ` set (filter (\<lambda>kv. resolved (snd kv)) items)" by auto
    then have "map_of (filter (\<lambda>kv. resolved (snd kv)) items) k = None"
      by (simp add: map_of_eq_None_iff)
    with True u show ?thesis by (simp add: kv first_resolved_def)
  next
    case False
    with Cons kv show ?thesis by (simp add: first_resolved_def)
  qed
qed

lemma extract_loop_step:
  "\<exists>raw. strip_fence (py_strip t) = Inr raw \<and>
     extract_loop rt acc (Reply t # replies)
       = extract_loop rt (merge_batch acc (json_loads rt raw)) replies"
proof -
  obtain raw where "strip_fence (py_strip t) = Inr raw"
    using strip_fence_total by blast
  then show ?thesis by simp
qed

text \<open>
  C1 (as amended). A reply is stripped of its fence, parsed, and merged into the accumulator
  before the next reply is looked at. Merging a batch goes through the pairs of the parsed
  object in order; a reply that does not parse to an object changes nothing. For every pair,
  the accumulator entry of the key is overwritten with the returned value if and only if the
  value is truthy (a non-empty string, a non-zero number, \<open>true\<close>, a non-empty array or object)
  and different from the sentinel, and the accumulator has no value for the key, or a falsy
  one, or the sentinel; otherwise the pair is discarded and the accumulator stays as it is.
  So after a batch a key that was resolved before keeps its value, and any other key holds the
  resolved value that the batch reports for it, if it reports one, and its old entry if not.
  Consequently a key that holds a truthy value different from the sentinel keeps it through
  every later batch and through the final backfill. In Scenario A the owner of the first batch
  and the address of the second batch are both in the final result.
\<close>

theorem merge_first_resolved_wins:
  "merge_pair acc (k, v) =
     (if resolved v \<and> (acc k = None \<or> (\<exists>cur. acc k = Some cur \<and> (\<not> truthy cur \<or> cur = JStr SENTINEL)))
      then acc(k \<mapsto> v) else acc) \<and>
   merge_batch acc (Some (JObj items)) k =
     (if \<exists>cur. acc k = Some cur \<and> resolved cur then acc k
      else case first_resolved items k of None \<Rightarrow> acc k | Some u \<Rightarrow> Some u) \<and>
   (distinct (map fst items) \<and> map_of items k = Some u \<longrightarrow>
      first_resolved items k = (if resolved u then Some u else None)) \<and>
   ((\<forall>its. parsed \<noteq> Some (JObj its)) \<longrightarrow> merge_batch acc parsed = acc) \<and>
   (\<exists>raw. strip_fence (py_strip t) = Inr raw \<and>
      extract_loop rt acc (Reply t # replies)
        = extract_loop rt (merge_batch acc (json_loads rt raw)) replies) \<and>
   (acc k = Some w \<and> resolved w \<longrightarrow>
      merge_pair acc (k, v) = acc \<and>
      merge_batch acc parsed k = Some w \<and>
      (\<forall>m. extract_loop rt acc replies = Inr m \<longrightarrow> m k = Some w \<and> backfill m k = Some w)) \<and>
   backfill (merge_batch (merge_batch Map.empty (Some scenario_A_batch1)) (Some scenario_A_batch2)) OWNER
     = Some (JStr ZHANG_SAN) \<and>
   backfill (merge_batch (merge_batch Map.empty (Some scenario_A_batch1)) (Some scenario_A_batch2)) ADDRESS
     = Some (JStr BEIJING_ADDRESS)"
proof -
  have 1: "merge_pair acc (k, v) =
     (if resolved v \<and> (acc k = None \<or> (\<exists>cur. acc k = Some cur \<and> (\<not> truthy cur \<or> cur = JStr SENTINEL)))
      then acc(k \<mapsto> v) else acc)"
    by (auto simp: merge_pair_def resolved_def split: option.splits)
  have 2: "merge_batch acc (Some (JObj items)) k =
     (if \<exists>cur. acc k = Some cur \<and> resolved cur then acc k
      else case first_resolved items k of None \<Rightarrow> acc k | Some u \<Rightarrow> Some u)"
    by (simp only: merge_batch_def option.case json.case foldl_merge_pair_lookup)
  have 3: "first_resolved items k = (if resolved u then Some u else None)"
    if "distinct (map fst items)" "map_of items k = Some u"
    using that by (rule first_resolved_distinct)
  have 4: "merge_batch acc parsed = acc" if "\<forall>its. parsed \<noteq> Some (JObj its)"
    using that by (auto simp: merge_batch_def split: option.splits json.splits)
  have 5: "merge_pair acc (k, v) = acc" if "acc k = Some w" "resolved w"
    using that by (auto simp: merge_pair_def resolved_def)
  have 6: "merge_batch acc parsed k = Some w" if "acc k = Some w" "resolved w"
    using that by (rule merge_batch_keeps)
  have 7: "m k = Some w \<and> backfill m k = Some w"
    if "acc k = Some w" "resolved w" "extract_loop rt acc replies = Inr m" for m
    using extract_loop_keeps [OF that] by (simp add: backfill_apply)
  from 1 2 3 4 5 6 7 extract_loop_step [of t rt acc replies] scenario_A show ?thesis
    by blast
qed

text \<open>
  C2 (as amended). The schema has 34 keys, all different. Whenever no call to the model
  raises, \<open>extract_info_from_pdf\<close> returns a field map; every field map it returns contains
  every one of the 34 schema keys, each bound to a value that is not \<open>None\<close>; a key that no
  batch resolved is bound to the sentinel, and every other key to the truthy, non-sentinel
  value (a string, or whatever JSON value the model reported) that the batches resolved it to.
\<close>

theorem extract_all_schema_keys:
  "length ALL_FIELDS = 34 \<and> distinct ALL_FIELDS \<and>
   (list_all is_reply replies \<longrightarrow> (\<exists>m. extract_info_from_pdf rt replies = Inr m)) \<and>
   (extract_info_from_pdf rt replies = Inr m \<longrightarrow>
      (\<exists>m0. extract_loop rt Map.empty replies = Inr m0 \<and>
         (\<forall>f \<in> set ALL_FIELDS. \<exists>v. m f = Some v \<and> v \<noteq> JNull \<and>
            (if m0 f = None then v = JStr SENTINEL else m0 f = Some v \<and> resolved v))))"
proof -
  have total: "\<exists>m. extract_info_from_pdf rt replies = Inr m" if "list_all is_reply replies"
    using extract_loop_total [OF that, of rt Map.empty]
    by (auto simp: extract_info_from_pdf_def)
  have keys: "\<exists>m0. extract_loop rt Map.empty replies = Inr m0 \<and>
         (\<forall>f \<in> set ALL_FIELDS. \<exists>v. m f = Some v \<and> v \<noteq> JNull \<and>
            (if m0 f = None then v = JStr SENTINEL else m0 f = Some v \<and> resolved v))"
    if "extract_info_from_pdf rt replies = Inr m"
  proof -
    from that obtain m0 where m0: "extract_loop rt Map.empty replies = Inr m0"
      "m = backfill m0" "all_resolved m0"
      by (rule extract_result)
    have "\<exists>v. m f = Some v \<and> v \<noteq> JNull \<and>
            (if m0 f = None then v = JStr SENTINEL else m0 f = Some v \<and> resolved v)"
      if "f \<in> set ALL_FIELDS" for f
    proof (cases "m0 f")
      case None
      with that m0(2) show ?thesis by (simp add: backfill_apply)
    next
      case (Some v)
      with m0(3) have "resolved v" by (auto simp: all_resolved_def)
      moreover from this have "v \<noteq> JNull" by (auto simp: resolved_def)
      ultimately show ?thesis using Some m0(2) by (simp add: backfill_apply)
    qed
    with m0(1) show ?thesis by blast
  qed
  from total keys length_ALL_FIELDS distinct_ALL_FIELDS show ?thesis by blast
qed

text \<open>
  C10 (as amended). A field map returned by the extraction never contains the empty string,
  nor any other falsy value, as a value: for every sequence of batch replies, the final value
  of each key is either the sentinel or a truthy value different from the sentinel (for a
  string: non-empty and different from the sentinel), and only a schema key can hold the
  sentinel.
\<close>

theorem extract_values_never_empty:
  "extract_info_from_pdf rt replies = Inr m \<and> m k = Some v \<longrightarrow>
     v \<noteq> JStr [] \<and> truthy v \<and> (v = JStr SENTINEL \<or> resolved v) \<and>
     (\<forall>s. v = JStr s \<longrightarrow> s = SENTINEL \<or> (s \<noteq> [] \<and> s \<noteq> SENTINEL)) \<and>
     (v = JStr SENTINEL \<longrightarrow> k \<in> set ALL_FIELDS)"
proof (intro impI, elim conjE)
  assume res: "extract_info_from_pdf rt replies = Inr m" and mk: "m k = Some v"
  from res obtain m0 where m0: "extract_loop rt Map.empty replies = Inr m0"
    "m = backfill m0" "all_resolved m0"
    by (rule extract_result)
  show "v \<noteq> JStr [] \<and> truthy v \<and> (v = JStr SENTINEL \<or> resolved v) \<and>
     (\<forall>s. v = JStr s \<longrightarrow> s = SENTINEL \<or> (s \<noteq> [] \<and> s \<noteq> SENTINEL)) \<and>
     (v = JStr SENTINEL \<longrightarrow> k \<in> set ALL_FIELDS)"
  proof (cases "m0 k")
    case None
    with mk m0(2) have "v = JStr SENTINEL" "k \<in> set ALL_FIELDS"
      by (auto simp: backfill_apply split: if_splits)
    then show ?thesis using truthy_SENTINEL by (auto simp: SENTINEL_def)
  next
    case (Some w)
    with mk m0(2) have "v = w" by (simp add: backfill_apply)
    with Some m0(3) have "resolved v" by (auto simp: all_resolved_def)
    then show ?thesis by (auto simp: resolved_def)
  qed
qed


section \<open>Properties of the placeholder substitution\<close>

lemma token_not_Nil: "token k \<noteq> []"
  by (simp add: token_def)

lemma py_replace_token: "py_replace (token k) new s = replace_from (token k) new s"
  by (simp add: py_replace_def token_not_Nil)

lemma replace_from_plain:
  "plain s \<Longrightarrow> replace_from (token k) new (s @ rest) = s @ replace_from (token k) new rest"
proof (induction s)
  case Nil
  then show ?case by simp
next
  case (Cons c cs)
  then have "\<not> prefix (token k) (c # cs @ rest)"
    by (cases cs) (auto simp: token_def)
  with Cons show ?case by simp
qed

lemma no_open_brace_plain: "0x7B \<notin> set s \<Longrightarrow> plain s"
  by (induction s) auto

lemma key_prefix_eq:
  "0x7D \<notin> set k \<Longrightarrow> 0x7D \<notin> set k' \<Longrightarrow> prefix (k @ [0x7D, 0x7D]) (k' @ [0x7D, 0x7D] @ rest) \<Longrightarrow> k = k'"
proof (induction k arbitrary: k')
  case Nil
  then show ?case by (cases k') auto
next
  case (Cons c k)
  then show ?case by (cases k') auto
qed

lemma replace_from_token_same:
  "replace_from (token k) new (token k @ rest) = new @ replace_from (token k) new rest"
  by (simp add: token_def)

lemma replace_from_token_other:
  assumes "brace_free k" "brace_free k'" "k \<noteq> k'"
  shows "replace_from (token k) new (token k' @ rest) = token k' @ replace_from (token k) new rest"
proof -
  have 1: "\<not> prefix (token k) (token k' @ rest)"
    using assms key_prefix_eq [of k k' rest] by (auto simp: token_def brace_free_def)
  have 2: "\<not> prefix (token k) (0x7B # k' @ [0x7D, 0x7D] @ rest)"
    using assms(2) by (cases k') (auto simp: token_def brace_free_def)
  have "plain (k' @ [0x7D, 0x7D])"
    using assms(2) by (intro no_open_brace_plain) (auto simp: brace_free_def)
  from replace_from_plain [OF this, of k new rest]
  have 3: "replace_from (token k) new (k' @ [0x7D, 0x7D] @ rest) =
      k' @ [0x7D, 0x7D] @ replace_from (token k) new rest"
    by simp
  have "replace_from (token k) new (token k' @ rest) =
      0x7B # replace_from (token k) new (0x7B # k' @ [0x7D, 0x7D] @ rest)"
    using 1 by (simp add: token_def)
  also have "\<dots> = 0x7B # 0x7B # replace_from (token k) new (k' @ [0x7D, 0x7D] @ rest)"
    using 2 by simp
  finally show ?thesis using 3 by (simp add: token_def)
qed

lemma render_Cons: "render (seg # tpl) = render_segment seg @ render tpl"
  by (simp add: render_def)

lemma subst1_simps:
  "subst1 k new (Lit s) = Lit s"
  "subst1 k new (Tok k) = Lit new"
  "k' \<noteq> k \<Longrightarrow> subst1 k new (Tok k') = Tok k'"
  by (simp_all add: subst1_def)

lemma replace_from_render:
  assumes "brace_free k" "well_formed tpl"
  shows "replace_from (token k) new (render tpl) = render (map (subst1 k new) tpl)"
  using assms(2)
proof (induction tpl)
  case Nil
  then show ?case by (simp add: render_def)
next
  case (Cons seg tpl)
  then have IH: "replace_from (token k) new (render tpl) = render (map (subst1 k new) tpl)"
    by (simp add: well_formed_def)
  show ?case
  proof (cases seg)
    case (Lit s)
    with Cons.prems have "plain s" by (simp add: well_formed_def well_formed_segment_def)
    with IH Lit show ?thesis
      by (simp add: render_Cons render_segment_def subst1_simps replace_from_plain)
  next
    case (Tok k')
    with Cons.prems have bf: "brace_free k'" by (simp add: well_formed_def well_formed_segment_def)
    show ?thesis
    proof (cases "k' = k")
      case True
      with IH Tok show ?thesis
        by (simp add: render_Cons render_segment_def subst1_simps replace_from_token_same)
    next
      case False
      then have "k \<noteq> k'" by simp
      with IH Tok False show ?thesis
        by (simp add: render_Cons render_segment_def subst1_simps
            replace_from_token_other [OF assms(1) bf])
    qed
  qed
qed

lemma well_formed_subst1:
  "well_formed tpl \<Longrightarrow> plain new \<Longrightarrow> well_formed (map (subst1 k new) tpl)"
  by (induction tpl) (auto simp: well_formed_def well_formed_segment_def subst1_def)

lemma fill_segment_subst1:
  "fill_segment rt data (subst1 k (value_text rt v) seg) = fill_segment rt ((k, v) # data) seg"
  by (cases seg) (auto simp: fill_segment_def subst1_def)

lemma substitute_render:
  "well_formed tpl \<Longrightarrow> plain_data rt data \<Longrightarrow>
     substitute rt (render tpl) data = spec_substitute rt tpl data"
proof (induction data arbitrary: tpl)
  case Nil
  have "fill_segment rt [] = render_segment"
    by (rule ext) (simp add: fill_segment_def render_segment_def split: segment.splits)
  then show ?case by (simp add: substitute_def spec_substitute_def render_def)
next
  case (Cons kv data)
  obtain k v where kv: "kv = (k, v)" by (cases kv)
  from Cons.prems kv have k: "brace_free k" and v: "plain (value_text rt v)"
    and d: "plain_data rt data"
    by (simp_all add: plain_data_def)
  let ?tpl = "map (subst1 k (value_text rt v)) tpl"
  have "substitute rt (render tpl) (kv # data) = substitute rt (render ?tpl) data"
    using replace_from_render [OF k Cons.prems(1), of "value_text rt v"]
    by (simp add: substitute_def kv py_replace_token)
  also have "\<dots> = spec_substitute rt ?tpl data"
    using well_formed_subst1 [OF Cons.prems(1) v] d by (rule Cons.IH)
  also have "\<dots> = spec_substitute rt tpl (kv # data)"
    by (simp add: spec_substitute_def kv fill_segment_subst1 comp_def)
  finally show ?case .
qed

lemma plain_data_map_of:
  "plain_data rt data \<Longrightarrow> map_of data k = Some v \<Longrightarrow> plain (value_text rt v)"
  by (induction data) (auto simp: plain_data_def split: if_splits)

lemma substitute_idem:
  assumes "well_formed tpl" "plain_data rt data"
  shows "substitute rt (substitute rt (render tpl) data) data = substitute rt (render tpl) data"
proof -
  let ?tpl = "map (filled rt data) tpl"
  have r: "spec_substitute rt tpl data = render ?tpl"
    by (auto simp: spec_substitute_def render_def fill_segment_def filled_def render_segment_def
        comp_def intro!: arg_cong [where f = concat] split: segment.splits option.splits)
  have w: "well_formed ?tpl"
    using assms plain_data_map_of [OF assms(2)]
    by (auto simp: well_formed_def list_all_iff well_formed_segment_def filled_def
        split: segment.splits option.splits)
  have s: "spec_substitute rt ?tpl data = render ?tpl"
    by (auto simp: spec_substitute_def render_def fill_segment_def filled_def render_segment_def
        comp_def intro!: arg_cong [where f = concat] split: segment.splits option.splits)
  show ?thesis
    using substitute_render [OF assms] substitute_render [OF w assms(2)] r s by simp
qed

lemma substitute_no_tokens:
  "list_all (\<lambda>kv. \<not> py_in (token (fst kv)) t) data \<Longrightarrow> substitute rt t data = t"
proof (induction data)
  case Nil
  then show ?case by (simp add: substitute_def)
next
  case (Cons kv data)
  obtain k v where kv: "kv = (k, v)" by (cases kv)
  with Cons.prems have "replace_from (token k) (value_text rt v) t = t"
    by (simp add: replace_from_absent)
  moreover from Cons have "substitute rt t data = t" by simp
  ultimately show ?case
    by (simp add: substitute_def kv py_replace_token)
qed

section \<open>Properties of the archive rewrite\<close>

lemma write_members_success:
  "write_members f items acc = (None, out) \<Longrightarrow>
     out = acc @ map (written f) items \<and> (\<forall>item \<in> set items. f item = Inr (written f item))"
proof (induction items arbitrary: acc)
  case Nil
  then show ?case by simp
next
  case (Cons item items)
  from Cons.prems obtain m where m: "f item = Inr m"
    and rest: "write_members f items (acc @ [m]) = (None, out)"
    by (auto split: sum.splits)
  from Cons.IH [OF rest] m show ?case by (simp add: written_def)
qed

lemma zread_rewritten:
  assumes "\<And>item. item \<in> set zin \<Longrightarrow> (fst (g item) = n \<longleftrightarrow> fst item = n)"
    and "\<And>item. item \<in> set zin \<Longrightarrow> fst item = n \<Longrightarrow> Inr (snd (g item)) = zread zin n"
  shows "zread (map g zin) n = zread zin n"
proof (cases "map_of (rev (map g zin)) n")
  case None
  then have "n \<notin> fst ` set (map g zin)" by (simp add: map_of_eq_None_iff)
  with assms(1) have "n \<notin> fst ` set zin" by force
  then have "map_of (rev zin) n = None" by (simp add: map_of_eq_None_iff)
  with None show ?thesis by (simp add: zread_def)
next
  case (Some x)
  then have "(n, x) \<in> set (map g zin)" using map_of_SomeD by fastforce
  then obtain item where i: "item \<in> set zin" "g item = (n, x)" by auto
  with assms(1) [of item] have "fst item = n" by simp
  with assms(2) [OF i(1)] i(2) have "Inr x = zread zin n" by simp
  with Some show ?thesis by (simp add: zread_def)
qed

lemma zread_in_archive: "item \<in> set zin \<Longrightarrow> \<exists>b. zread zin (fst item) = Inr b"
proof -
  assume "item \<in> set zin"
  then have "fst item \<in> fst ` set (rev zin)" by force
  then have "map_of (rev zin) (fst item) \<noteq> None" by (simp only: map_of_eq_None_iff not_not)
  then show ?thesis by (auto simp: zread_def)
qed

lemma fill_item_written:
  assumes "item \<in> set zin" "fill_item rt zin xml item = Inr m"
  shows "fst m = fst item" "fst item \<noteq> DOCUMENT_XML \<Longrightarrow> Inr (snd m) = zread zin (fst item)"
  using assms by (auto simp: fill_item_def split: if_splits option.splits sum.splits)

lemma fill_rewrite_keeps:
  assumes "write_members (fill_item rt zin xml) zin [] = (None, out)"
  shows "map fst out = map fst zin" "n \<noteq> DOCUMENT_XML \<Longrightarrow> zread out n = zread zin n"
proof -
  let ?g = "written (fill_item rt zin xml)"
  from write_members_success [OF assms]
  have out: "out = map ?g zin" and ok: "\<forall>item \<in> set zin. fill_item rt zin xml item = Inr (?g item)"
    by simp_all
  have names: "fst (?g item) = fst item" if "item \<in> set zin" for item
    using fill_item_written(1) [OF that] ok that by blast
  then show "map fst out = map fst zin" by (simp add: out)
  show "zread out n = zread zin n" if "n \<noteq> DOCUMENT_XML"
    unfolding out
  proof (rule zread_rewritten)
    fix item assume "item \<in> set zin"
    then show "fst (?g item) = n \<longleftrightarrow> fst item = n" by (simp add: names)
  next
    fix item assume i: "item \<in> set zin" "fst item = n"
    with ok have "fill_item rt zin xml item = Inr (?g item)" by blast
    from fill_item_written(2) [OF i(1) this] i(2) that
    show "Inr (snd (?g item)) = zread zin n" by simp
  qed
qed

lemma image_item_written:
  assumes "image_item rt zin rels old new bytes item = Inr m"
  shows "fst item = RELS \<or> fst item \<noteq> ascii ''word/media/'' @ old \<Longrightarrow> fst m = fst item"
    and "fst item \<noteq> RELS \<Longrightarrow> fst item = ascii ''word/media/'' @ old \<Longrightarrow>
      m = (arcname (ascii ''word/media/'' @ new), bytes)"
    and "fst item \<noteq> RELS \<Longrightarrow> fst item \<noteq> ascii ''word/media/'' @ old \<Longrightarrow>
      Inr (snd m) = zread zin (fst item)"
  using assms by (auto simp: image_item_def split: if_splits option.splits sum.splits)

lemma image_rewrite_keeps:
  assumes "write_members (image_item rt zin rels old new bytes) zin [] = (None, out)"
  shows "map fst out =
      map (\<lambda>n. if n \<noteq> RELS \<and> n = ascii ''word/media/'' @ old
                then arcname (ascii ''word/media/'' @ new) else n) (map fst zin)"
    and "n \<noteq> RELS \<Longrightarrow> n \<noteq> ascii ''word/media/'' @ old \<Longrightarrow>
      n \<noteq> arcname (ascii ''word/media/'' @ new) \<Longrightarrow> zread out n = zread zin n"
proof -
  let ?f = "image_item rt zin rels old new bytes"
  let ?g = "written ?f"
  from write_members_success [OF assms]
  have out: "out = map ?g zin" and ok: "\<forall>item \<in> set zin. ?f item = Inr (?g item)"
    by simp_all
  have names: "fst (?g item) =
      (if fst item \<noteq> RELS \<and> fst item = ascii ''word/media/'' @ old
       then arcname (ascii ''word/media/'' @ new) else fst item)"
    if "item \<in> set zin" for item
    using image_item_written(1,2) [of rt zin rels old new bytes item "?g item"] ok that
    by (cases "fst item \<noteq> RELS \<and> fst item = ascii ''word/media/'' @ old") auto
  then show "map fst out =
      map (\<lambda>n. if n \<noteq> RELS \<and> n = ascii ''word/media/'' @ old
                then arcname (ascii ''word/media/'' @ new) else n) (map fst zin)"
    by (simp add: out comp_def)
  show "zread out n = zread zin n"
    if n: "n \<noteq> RELS" "n \<noteq> ascii ''word/media/'' @ old" "n \<noteq> arcname (ascii ''word/media/'' @ new)"
    unfolding out
  proof (rule zread_rewritten)
    fix item assume "item \<in> set zin"
    from names [OF this] n show "fst (?g item) = n \<longleftrightarrow> fst item = n" by auto
  next
    fix item assume i: "item \<in> set zin" "fst item = n"
    with ok have "?f item = Inr (?g item)" by blast
    from image_item_written(3) [OF this] i(2) n
    show "Inr (snd (?g item)) = zread zin n" by simp
  qed
qed

lemma rewrite_success:
  "rewrite writable f zin tmp dest fs = (None, fs') \<Longrightarrow>
     \<exists>out. write_members f zin [] = (None, out) \<and> fs' = (fs(tmp := None))(dest \<mapsto> Zip out)"
  by (auto simp: rewrite_def split: if_splits prod.splits option.splits)

lemma rewrite_failure:
  "rewrite writable f zin tmp dest fs = (Some e, fs') \<Longrightarrow>
     fs' = fs \<or> (\<exists>out. fs' = fs(tmp \<mapsto> Zip out))"
  by (auto simp: rewrite_def split: if_splits prod.splits option.splits)

section \<open>Properties of the surroundings search\<close>

lemma add_pois_grows:
  "add_pois rt key items res = (r, res') \<Longrightarrow>
     (\<forall>c. prefix (pois res c) (pois res' c)) \<and> coord res' = coord res \<and> status res' = status res"
proof (induction items arbitrary: res)
  case Nil
  then show ?case by simp
next
  case (Cons poi items)
  show ?case
  proof (cases "py_get poi (ascii ''name'') (JStr [])")
    case (Inl e)
    with Cons.prems show ?thesis by simp
  next
    case name: (Inr name)
    show ?thesis
    proof (cases "py_get poi (ascii ''distance'') (JStr [])")
      case (Inl e)
      with name Cons.prems show ?thesis by simp
    next
      case (Inr distance)
      let ?res = "res\<lparr> pois := (pois res)
          (key := pois res key @
             [py_format rt name @ [0xFF08, 0x7EA6] @ py_format rt distance @ [0x7C73, 0xFF09]]) \<rparr>"
      from Cons.prems name Inr have "add_pois rt key items ?res = (r, res')" by simp
      from Cons.IH [OF this]
      have "\<forall>c. prefix (pois ?res c) (pois res' c)" "coord res' = coord res" "status res' = status res"
        by simp_all
      moreover have "prefix (pois res c) (pois ?res c)" for c by simp
      ultimately show ?thesis by (meson prefix_order.trans)
    qed
  qed
qed

lemma take_pois_grows:
  "take_pois rt key resp res = (r, res') \<Longrightarrow>
     (\<forall>c. prefix (pois res c) (pois res' c)) \<and> coord res' = coord res \<and> status res' = status res"
  by (auto simp: take_pois_def split: sum.splits if_splits dest: add_pois_grows)

lemma search_categories_grows:
  "search_categories rt http loc k cats res = (r, res') \<Longrightarrow>
     (\<forall>c. prefix (pois res c) (pois res' c)) \<and> coord res' = coord res \<and> status res' = status res"
proof (induction rt http loc k cats res rule: search_categories.induct)
  case (1 rt http location amap_key result)
  then show ?case by simp
next
  case (2 rt http location amap_key type_str key radius rest result)
  show ?case
  proof (cases "http (Around location type_str radius amap_key)")
    case (Fails e)
    with "2.prems" show ?thesis by simp
  next
    case (Body resp)
    obtain r1 res1 where t: "take_pois rt key resp result = (r1, res1)"
      by (cases "take_pois rt key resp result")
    note g1 = take_pois_grows [OF t]
    show ?thesis
    proof (cases r1)
      case (Some e)
      with Body t "2.prems" have "res' = res1" by simp
      with g1 show ?thesis by simp
    next
      case None
      with Body t "2.prems"
      have "search_categories rt http location amap_key rest res1 = (r, res')" by simp
      from "2.IH" [OF Body t [symmetric] None this] g1
      show ?thesis by (metis prefix_order.trans)
    qed
  qed
qed

lemma search_categories_fails:
  "search_categories rt http loc k done res0 = (None, res) \<Longrightarrow>
   http (Around loc ty rad k) = Fails e \<Longrightarrow>
   search_categories rt http loc k (done @ (ty, c, rad) # rest) res0 = (Some e, res)"
proof (induction rt http loc k "done" res0 rule: search_categories.induct)
  case (1 rt http location amap_key result)
  then show ?case by simp
next
  case (2 rt http location amap_key type_str key radius rest' result)
  then show ?case
    by (auto split: response.splits prod.splits option.splits)
qed

lemma locate_unresolved:
  "py_get geo (ascii ''status'') JNull = Inr st \<Longrightarrow>
   st \<noteq> JStr (ascii ''1'') \<or> (py_get geo (ascii ''geocodes'') JNull = Inr gs \<and> \<not> truthy gs) \<Longrightarrow>
   locate geo = Inr None"
  by (auto simp: locate_def)

lemma search_status:
  "status (search_surroundings rt http address amap_key) = STATUS_OK \<or>
   status (search_surroundings rt http address amap_key) = STATUS_UNRESOLVED \<or>
   (\<exists>e. status (search_surroundings rt http address amap_key) = STATUS_ERROR @ exc_str rt e)"
proof (cases "search_body rt http address amap_key")
  case (Pair r res)
  show ?thesis
  proof (cases r)
    case (Some e)
    with Pair show ?thesis by (auto simp: search_surroundings_def)
  next
    case None
    with Pair have res: "search_surroundings rt http address amap_key = res"
      by (simp add: search_surroundings_def)
    from Pair None have "status res = STATUS_OK \<or> status res = STATUS_UNRESOLVED"
      by (auto simp: search_body_def initial_result_def
          split: response.splits sum.splits option.splits
          dest!: search_categories_grows)
    with res show ?thesis by blast
  qed
qed

lemma initial_result_empty:
  "coord initial_result = JNull" "pois initial_result c = []" "status initial_result = STATUS_OK"
  by (simp_all add: initial_result_def)

section \<open>Examples for the extraction merge\<close>

lemma example_owner_reply:
  "extract_loop example_rt acc [Reply OWNER_REPLY] =
     Inr (merge_batch acc (Some (JObj [(OWNER, JStr LI_SI)])))"
proof -
  have "strip_fence (py_strip OWNER_REPLY) = Inr OWNER_JSON"
    by (simp add: strip_fence_def between_fences_def py_split_def py_strip_def is_space_def
        OWNER_REPLY_def OWNER_JSON_def FENCE_def FENCE_JSON_def)
  then show ?thesis
    by (simp add: example_rt_def example_loads_def)
qed

lemma example_plain_reply:
  assumes "\<not> py_in FENCE t" "py_strip t = t"
  shows "extract_loop example_rt acc [Reply t] = Inr (merge_batch acc (example_loads t))"
proof -
  have "\<not> py_in FENCE_JSON t"
  proof
    assume "py_in FENCE_JSON t"
    then have "py_in FENCE t"
      using py_in_append [of FENCE "ascii ''json''" t]
      by (simp add: FENCE_JSON_def FENCE_def ascii_def)
    with assms(1) show False by simp
  qed
  with assms show ?thesis
    by (simp add: strip_fence_def example_rt_def)
qed

lemma scenario_A_strip:
  "strip_fence (py_strip SCENARIO_A_REPLY1) = Inr SCENARIO_A_REPLY1"
  "strip_fence (py_strip SCENARIO_A_REPLY2) = Inr SCENARIO_A_REPLY2"
  by (simp_all add: strip_fence_def py_strip_def is_space_def SCENARIO_A_REPLY1_def
      SCENARIO_A_REPLY2_def FENCE_def FENCE_JSON_def)

lemma scenario_A_parsed:
  "json_loads scenario_A_rt SCENARIO_A_REPLY1
     = Some (JObj [(OWNER, JStr ZHANG_SAN), (ADDRESS, JStr SENTINEL)])"
  "json_loads scenario_A_rt SCENARIO_A_REPLY2 = Some (JObj [(ADDRESS, JStr BEIJING_ADDRESS)])"
  by (simp_all add: scenario_A_rt_def scenario_A_loads_def scenario_A_batch1_def
      scenario_A_batch2_def SCENARIO_A_REPLY1_def SCENARIO_A_REPLY2_def)

lemma scenario_A_first_resolved:
  "first_resolved [(OWNER, JStr ZHANG_SAN), (ADDRESS, JStr SENTINEL)] OWNER = Some (JStr ZHANG_SAN)"
  "first_resolved [(OWNER, JStr ZHANG_SAN), (ADDRESS, JStr SENTINEL)] ADDRESS = None"
  "first_resolved [(ADDRESS, JStr BEIJING_ADDRESS)] ADDRESS = Some (JStr BEIJING_ADDRESS)"
  by (simp_all add: first_resolved_def resolved_def OWNER_def ADDRESS_def ZHANG_SAN_def
      BEIJING_ADDRESS_def SENTINEL_def)

theorem merge_first_resolved_wins_witness:
  "field_of (extract_info_from_pdf scenario_A_rt
               [Reply SCENARIO_A_REPLY1, Reply SCENARIO_A_REPLY2]) OWNER
     = Some (JStr ZHANG_SAN) \<and>
   field_of (extract_info_from_pdf scenario_A_rt
               [Reply SCENARIO_A_REPLY1, Reply SCENARIO_A_REPLY2]) ADDRESS
     = Some (JStr BEIJING_ADDRESS) \<and>
   resolved (JStr ZHANG_SAN) \<and>
   merge_pair [OWNER \<mapsto> JStr ZHANG_SAN] (OWNER, JStr LI_SI) = [OWNER \<mapsto> JStr ZHANG_SAN] \<and>
   field_of (extract_loop example_rt [OWNER \<mapsto> JStr ZHANG_SAN] [Reply OWNER_REPLY]) OWNER
     = Some (JStr ZHANG_SAN)"
proof -
  define its1 where "its1 = [(OWNER, JStr ZHANG_SAN), (ADDRESS, JStr SENTINEL)]"
  define its2 where "its2 = [(ADDRESS, JStr BEIJING_ADDRESS)]"
  define m1 where "m1 = merge_batch Map.empty (Some (JObj its1))"
  define m2 where "m2 = merge_batch m1 (Some (JObj its2))"
  have r: "resolved (JStr ZHANG_SAN)"
    by (simp add: resolved_def ZHANG_SAN_def SENTINEL_def)
  have lookup: "merge_batch acc (Some (JObj items)) k =
     (if \<exists>cur. acc k = Some cur \<and> resolved cur then acc k
      else case first_resolved items k of None \<Rightarrow> acc k | Some u \<Rightarrow> Some u)"
    for acc items k
    by (rule conjunct1 [OF conjunct2 [OF merge_first_resolved_wins]])
  have step: "\<exists>raw. strip_fence (py_strip t) = Inr raw \<and>
      extract_loop rt acc (Reply t # replies)
        = extract_loop rt (merge_batch acc (json_loads rt raw)) replies"
    for t rt acc replies
    by (rule conjunct1 [OF conjunct2 [OF conjunct2 [OF conjunct2
          [OF conjunct2 [OF merge_first_resolved_wins]]]]])
  have e1: "extract_loop scenario_A_rt Map.empty [Reply SCENARIO_A_REPLY1, Reply SCENARIO_A_REPLY2]
              = extract_loop scenario_A_rt m1 [Reply SCENARIO_A_REPLY2]"
    using step [of SCENARIO_A_REPLY1 scenario_A_rt Map.empty "[Reply SCENARIO_A_REPLY2]"]
    by (simp only: scenario_A_strip scenario_A_parsed sum.inject m1_def its1_def simp_thms)
  have e2: "extract_loop scenario_A_rt m1 [Reply SCENARIO_A_REPLY2] = extract_loop scenario_A_rt m2 []"
    using step [of SCENARIO_A_REPLY2 scenario_A_rt m1 "[]"]
    by (simp only: scenario_A_strip scenario_A_parsed sum.inject m2_def its2_def simp_thms)
  have e: "extract_info_from_pdf scenario_A_rt [Reply SCENARIO_A_REPLY1, Reply SCENARIO_A_REPLY2]
             = Inr (backfill m2)"
    by (simp only: extract_info_from_pdf_def e1 e2 extract_loop.simps(1) sum.case)
  have o1: "m1 OWNER = Some (JStr ZHANG_SAN)"
    unfolding m1_def its1_def by (simp add: lookup scenario_A_first_resolved)
  have a1: "m1 ADDRESS = None"
    unfolding m1_def its1_def by (simp add: lookup scenario_A_first_resolved)
  have o2: "m2 OWNER = Some (JStr ZHANG_SAN)"
    unfolding m2_def using o1 r by (simp add: lookup)
  have a2: "m2 ADDRESS = Some (JStr BEIJING_ADDRESS)"
    unfolding m2_def its2_def using a1 by (simp add: lookup scenario_A_first_resolved)
  have A: "field_of (extract_info_from_pdf scenario_A_rt
               [Reply SCENARIO_A_REPLY1, Reply SCENARIO_A_REPLY2]) OWNER = Some (JStr ZHANG_SAN)"
    by (simp add: e field_of_def backfill_apply o2)
  have B: "field_of (extract_info_from_pdf scenario_A_rt
               [Reply SCENARIO_A_REPLY1, Reply SCENARIO_A_REPLY2]) ADDRESS
             = Some (JStr BEIJING_ADDRESS)"
    by (simp add: e field_of_def backfill_apply a2)
  have a: "[OWNER \<mapsto> JStr ZHANG_SAN] OWNER = Some (JStr ZHANG_SAN)"
    by simp
  obtain m where m: "extract_loop example_rt [OWNER \<mapsto> JStr ZHANG_SAN] [Reply OWNER_REPLY] = Inr m"
    using example_owner_reply by blast
  note keep = conjunct1 [OF conjunct2 [OF conjunct2 [OF conjunct2 [OF conjunct2 [OF conjunct2
      [OF merge_first_resolved_wins
        [where acc = "[OWNER \<mapsto> JStr ZHANG_SAN]" and k = OWNER and v = "JStr LI_SI"
           and w = "JStr ZHANG_SAN" and parsed = None and rt = example_rt
           and replies = "[Reply OWNER_REPLY]"]]]]]]]
  from keep r a m
  have "merge_pair [OWNER \<mapsto> JStr ZHANG_SAN] (OWNER, JStr LI_SI) = [OWNER \<mapsto> JStr ZHANG_SAN]"
    and "m OWNER = Some (JStr ZHANG_SAN)"
    by blast+
  with r A B show ?thesis by (simp only: field_of_def m sum.case simp_thms)
qed

text \<open>
  Against C1 as stated: a batch that reports the number 120 for a key overwrites the entry,
  although 120 is not a string.
\<close>

theorem merge_overwrites_with_number:
  "\<not> is_str (JInt 120) \<and>
   Map.empty FLOOR_AREA \<noteq> Some (JInt 120) \<and>
   merge_batch Map.empty (Some (JObj [(FLOOR_AREA, JInt 120)])) FLOOR_AREA = Some (JInt 120)"
  by (simp add: is_str_def merge_batch_def merge_pair_def)

theorem extract_all_schema_keys_witness:
  "list_all is_reply [Reply OWNER_REPLY] \<and> OWNER \<in> set ALL_FIELDS \<and> ADDRESS \<in> set ALL_FIELDS \<and>
   field_of (extract_info_from_pdf example_rt [Reply OWNER_REPLY]) OWNER = Some (JStr LI_SI) \<and>
   field_of (extract_info_from_pdf example_rt [Reply OWNER_REPLY]) ADDRESS = Some (JStr SENTINEL)"
proof -
  have l: "list_all is_reply [Reply OWNER_REPLY]" by simp
  have o: "OWNER \<in> set ALL_FIELDS" and a: "ADDRESS \<in> set ALL_FIELDS"
    by (simp_all add: ALL_FIELDS_def FIELD_GROUPS_def OWNER_def ADDRESS_def)
  have m0: "extract_loop example_rt Map.empty [Reply OWNER_REPLY] =
      Inr (merge_batch Map.empty (Some (JObj [(OWNER, JStr LI_SI)])))"
    by (rule example_owner_reply)
  obtain m where m: "extract_info_from_pdf example_rt [Reply OWNER_REPLY] = Inr m"
    using extract_all_schema_keys [of "[Reply OWNER_REPLY]" example_rt] l by blast
  from extract_all_schema_keys [of "[Reply OWNER_REPLY]" example_rt m] m m0
  have keys: "\<forall>f \<in> set ALL_FIELDS. \<exists>v. m f = Some v \<and> v \<noteq> JNull \<and>
      (if merge_batch Map.empty (Some (JObj [(OWNER, JStr LI_SI)])) f = None
       then v = JStr SENTINEL
       else merge_batch Map.empty (Some (JObj [(OWNER, JStr LI_SI)])) f = Some v \<and> resolved v)"
    by simp
  have "m OWNER = Some (JStr LI_SI)"
    using keys o
    by (auto simp: merge_batch_def merge_pair_def LI_SI_def SENTINEL_def)
  moreover have "m ADDRESS = Some (JStr SENTINEL)"
    using keys a
    by (auto simp: merge_batch_def merge_pair_def OWNER_def ADDRESS_def LI_SI_def SENTINEL_def)
  ultimately show ?thesis using l o a m by (simp add: field_of_def)
qed

text \<open>
  Against C2 as stated: the schema has 34 keys, not 23, and a value need not be a string; a
  reply \<open>{"<floor area>": 89.5}\<close> binds the key to the number.
\<close>

theorem schema_has_34_keys:
  "length ALL_FIELDS = 34 \<and> distinct ALL_FIELDS \<and> length ALL_FIELDS \<noteq> 23 \<and>
   field_of (extract_info_from_pdf example_rt [Reply AREA_REPLY]) FLOOR_AREA = Some (JFloat (179 / 2)) \<and>
   \<not> is_str (JFloat (179 / 2))"
proof -
  have "extract_loop example_rt Map.empty [Reply AREA_REPLY] =
      Inr (merge_batch Map.empty (example_loads AREA_REPLY))"
    by (rule example_plain_reply)
      (simp_all add: AREA_REPLY_def FENCE_def py_strip_def is_space_def)
  then show ?thesis
    using length_ALL_FIELDS distinct_ALL_FIELDS
    by (simp add: extract_info_from_pdf_def field_of_def backfill_apply example_loads_def
        merge_batch_def merge_pair_def is_str_def AREA_REPLY_def OWNER_JSON_def STOREYS_REPLY_def)
qed

theorem extract_values_never_empty_witness:
  "field_of (extract_info_from_pdf example_rt [Reply OWNER_REPLY]) OWNER = Some (JStr LI_SI) \<and>
   JStr LI_SI \<noteq> JStr [] \<and> truthy (JStr LI_SI) \<and> resolved (JStr LI_SI) \<and> LI_SI \<noteq> SENTINEL"
proof -
  have m: "extract_info_from_pdf example_rt [Reply OWNER_REPLY] =
      Inr (backfill (merge_batch Map.empty (Some (JObj [(OWNER, JStr LI_SI)]))))"
    by (simp only: extract_info_from_pdf_def example_owner_reply sum.case)
  have k: "backfill (merge_batch Map.empty (Some (JObj [(OWNER, JStr LI_SI)]))) OWNER =
      Some (JStr LI_SI)"
    by (simp add: backfill_apply merge_batch_def merge_pair_def LI_SI_def SENTINEL_def)
  from extract_values_never_empty
    [of example_rt "[Reply OWNER_REPLY]" _ OWNER "JStr LI_SI"] m k
  show ?thesis
    by (simp add: field_of_def LI_SI_def SENTINEL_def)
qed

text \<open>
  Against C10 as stated: after a reply \<open>{"<total storeys>": 18}\<close> the final value of the key
  is the number 18, which is neither the sentinel nor a string.
\<close>

theorem extract_value_can_be_number:
  "field_of (extract_info_from_pdf example_rt [Reply STOREYS_REPLY]) TOTAL_STOREYS = Some (JInt 18) \<and>
   JInt 18 \<noteq> JStr SENTINEL \<and> \<not> is_str (JInt 18)"
proof -
  have "extract_loop example_rt Map.empty [Reply STOREYS_REPLY] =
      Inr (merge_batch Map.empty (example_loads STOREYS_REPLY))"
    by (rule example_plain_reply)
      (simp_all add: STOREYS_REPLY_def FENCE_def py_strip_def is_space_def)
  then show ?thesis
    by (simp add: extract_info_from_pdf_def field_of_def backfill_apply example_loads_def
        merge_batch_def merge_pair_def is_str_def STOREYS_REPLY_def OWNER_JSON_def)
qed


section \<open>The two paragraphs of the narrative\<close>

lemma split_paragraphs_eq:
  "split_paragraphs t =
     (case spec_split_first SPLIT [] (py_strip t) of
        (a, None) \<Rightarrow> (py_strip a, [])
      | (a, Some b) \<Rightarrow> (py_strip a, py_strip (fst (spec_split_first SPLIT [] b))))"
proof (cases "spec_split_first SPLIT [] (py_strip t)")
  case (Pair a r)
  show ?thesis
  proof (cases r)
    case None
    with Pair show ?thesis
      by (simp add: split_paragraphs_def py_split_def split_from_spec [of SPLIT "[]" "py_strip t"])
  next
    case (Some b)
    obtain c r' where c: "spec_split_first SPLIT [] b = (c, r')"
      by (cases "spec_split_first SPLIT [] b")
    then have "\<exists>rest. split_from SPLIT [] b = c # rest"
      by (cases r') (simp_all add: split_from_spec [of SPLIT "[]" b])
    with Pair Some c show ?thesis
      by (auto simp: split_paragraphs_def py_split_def split_from_spec [of SPLIT "[]" "py_strip t"])
  qed
qed

text \<open>
  C9 (as amended). The response, trimmed, is split at every occurrence of the delimiter
  \<open>---SPLIT---\<close>. The first paragraph is the text before the first occurrence, trimmed. The
  second paragraph is the text between the first occurrence and the next one, trimmed, which
  is everything behind the first occurrence when the delimiter occurs once; what follows a
  second delimiter is dropped. Without a delimiter the first paragraph is the whole trimmed
  response and the second is the empty string; nothing is retried and nothing is raised.
\<close>

theorem split_paragraphs_segments:
  "generate_surrounding_description (Reply t) = Inr (split_paragraphs t) \<and>
   split_paragraphs t =
     (case spec_split_first SPLIT [] (py_strip t) of
        (a, None) \<Rightarrow> (py_strip a, [])
      | (a, Some b) \<Rightarrow> (py_strip a, py_strip (fst (spec_split_first SPLIT [] b)))) \<and>
   (\<not> py_in SPLIT (py_strip t) \<longrightarrow> split_paragraphs t = (py_strip t, [])) \<and>
   (py_strip t = a @ SPLIT @ b \<and> \<not> py_in SPLIT (a @ butlast SPLIT) \<longrightarrow>
      fst (split_paragraphs t) = py_strip a \<and>
      snd (split_paragraphs t) = py_strip (fst (spec_split_first SPLIT [] b)) \<and>
      (\<not> py_in SPLIT b \<longrightarrow>
         split_paragraphs t = (py_strip a, py_strip b) \<and> split_paragraphs t = spec_paragraphs t))"
proof -
  have sep: "SPLIT \<noteq> []" by (simp add: SPLIT_def ascii_def)
  have 1: "generate_surrounding_description (Reply t) = Inr (split_paragraphs t)"
    by (simp add: generate_surrounding_description_def)
  have 2: "split_paragraphs t = (py_strip t, [])" if "\<not> py_in SPLIT (py_strip t)"
    using spec_split_first_no_occurrence [OF that, of "[]"]
    by (simp add: split_paragraphs_eq py_strip_idem)
  have 3: "fst (split_paragraphs t) = py_strip a \<and>
      snd (split_paragraphs t) = py_strip (fst (spec_split_first SPLIT [] b)) \<and>
      (\<not> py_in SPLIT b \<longrightarrow>
         split_paragraphs t = (py_strip a, py_strip b) \<and> split_paragraphs t = spec_paragraphs t)"
    if "py_strip t = a @ SPLIT @ b" "\<not> py_in SPLIT (a @ butlast SPLIT)"
  proof -
    have f: "spec_split_first SPLIT [] (py_strip t) = (a, Some b)"
      using spec_split_first_occurrence [OF sep that(2), of "[]" b] that(1) by simp
    then have "split_paragraphs t = (py_strip a, py_strip (fst (spec_split_first SPLIT [] b)))"
      by (simp add: split_paragraphs_eq)
    moreover have "spec_paragraphs t = (py_strip a, py_strip b)"
      using f by (simp add: spec_paragraphs_def)
    moreover have "fst (spec_split_first SPLIT [] b) = b" if "\<not> py_in SPLIT b"
      using spec_split_first_no_occurrence [OF that, of "[]"] by simp
    ultimately show ?thesis by simp
  qed
  from 1 2 3 split_paragraphs_eq [of t] show ?thesis by blast
qed

theorem split_paragraphs_segments_witness:
  "py_strip (ascii '' first---SPLIT---second '') = ascii ''first'' @ SPLIT @ ascii ''second'' \<and>
   generate_surrounding_description (Reply (ascii '' first---SPLIT---second ''))
     = Inr (ascii ''first'', ascii ''second'')"
proof -
  have s: "py_strip (ascii '' first---SPLIT---second '') = ascii ''first'' @ SPLIT @ ascii ''second''"
    by (simp add: py_strip_def is_space_def SPLIT_def ascii_def)
  have a: "\<not> py_in SPLIT (ascii ''first'' @ butlast SPLIT)"
    by (simp add: SPLIT_def ascii_def)
  have b: "\<not> py_in SPLIT (ascii ''second'')"
    by (simp add: SPLIT_def ascii_def)
  have t: "py_strip (ascii ''first'') = ascii ''first''" "py_strip (ascii ''second'') = ascii ''second''"
    by (simp_all add: py_strip_def is_space_def ascii_def)
  note th = split_paragraphs_segments
    [of "ascii '' first---SPLIT---second ''" "ascii ''first''" "ascii ''second''"]
  from th have g: "generate_surrounding_description (Reply (ascii '' first---SPLIT---second ''))
      = Inr (split_paragraphs (ascii '' first---SPLIT---second ''))"
    by (rule conjunct1)
  from th s a b have "split_paragraphs (ascii '' first---SPLIT---second '')
      = (py_strip (ascii ''first''), py_strip (ascii ''second''))"
    by blast
  with g s show ?thesis by (simp only: t simp_thms)
qed

text \<open>Scenario C: a response without the delimiter.\<close>

lemma scenario_C:
  "generate_surrounding_description (Reply (ascii '' one paragraph only ''))
     = Inr (ascii ''one paragraph only'', [])"
  by (simp add: generate_surrounding_description_def split_paragraphs_def py_split_def
      py_strip_def is_space_def SPLIT_def ascii_def)

text \<open>
  Against C9 as stated: with two delimiters the second paragraph is the text between them,
  not the text behind the first one.
\<close>

theorem split_paragraphs_drops_third_segment:
  "generate_surrounding_description (Reply (ascii ''a---SPLIT---b---SPLIT---c''))
     = Inr (ascii ''a'', ascii ''b'') \<and>
   spec_paragraphs (ascii ''a---SPLIT---b---SPLIT---c'') = (ascii ''a'', ascii ''b---SPLIT---c'') \<and>
   ascii ''b'' \<noteq> ascii ''b---SPLIT---c''"
  by (simp add: generate_surrounding_description_def split_paragraphs_def spec_paragraphs_def
      py_split_def py_strip_def is_space_def SPLIT_def ascii_def)


section \<open>Placeholder substitution on templates\<close>

text \<open>
  C5 (as amended). The keys of the field map are substituted one after the other, and each
  step replaces every occurrence of the token of its key in the text as it then is: the text is
  cut at the occurrences, found from the left, and joined again with the value. Let the
  document text be a sequence of literal pieces and tokens
  \<open>{{k}}\<close>, where no key, of a token or of the field map, contains a brace, and where in the
  literal pieces and in the texts substituted for the values every \<open>{\<close> is followed by a
  character other than \<open>{\<close>. Then every token whose key is in the field map is replaced by
  the string form of the key's value, every occurrence alike (Scenario D), and every token
  whose key is not in the field map, and every literal piece, is left as it is; nothing is
  raised. A value that is \<open>None\<close>, empty or otherwise falsy is substituted as the empty string;
  any other string, the sentinel included, is substituted as it is.
\<close>

theorem substitute_fills_every_token:
  "py_replace (token key) new t = py_join new (py_split (token key) t) \<and>
   (well_formed tpl \<and> plain_data rt data \<longrightarrow>
      substitute rt (render tpl) data = spec_substitute rt tpl data) \<and>
   value_text rt JNull = [] \<and> value_text rt (JStr s) = s \<and>
   (\<not> truthy v \<longrightarrow> value_text rt v = [])"
  using substitute_render [of tpl rt data] replace_is_join_split [OF token_not_Nil, of key new t]
  by (simp add: value_text_def)

theorem substitute_fills_every_token_witness:
  "well_formed [Tok REPORT_NO, Lit (ascii '' / ''), Tok REPORT_NO, Tok (ascii ''other'')] \<and>
   plain_data example_rt [(REPORT_NO, JStr (ascii ''R-2024-001'')), (OWNER, JNull)] \<and>
   substitute example_rt (token REPORT_NO @ ascii '' / '' @ token REPORT_NO @ token (ascii ''other''))
       [(REPORT_NO, JStr (ascii ''R-2024-001'')), (OWNER, JNull)]
     = ascii ''R-2024-001 / R-2024-001'' @ token (ascii ''other'')"
proof -
  have w: "well_formed [Tok REPORT_NO, Lit (ascii '' / ''), Tok REPORT_NO, Tok (ascii ''other'')]"
    by (simp add: well_formed_def well_formed_segment_def brace_free_def REPORT_NO_def ascii_def)
  have d: "plain_data example_rt [(REPORT_NO, JStr (ascii ''R-2024-001'')), (OWNER, JNull)]"
    by (simp add: plain_data_def brace_free_def value_text_def REPORT_NO_def OWNER_def ascii_def)
  have r: "render [Tok REPORT_NO, Lit (ascii '' / ''), Tok REPORT_NO, Tok (ascii ''other'')] =
      token REPORT_NO @ ascii '' / '' @ token REPORT_NO @ token (ascii ''other'')"
    by (simp add: render_def render_segment_def)
  have e: "spec_substitute example_rt
        [Tok REPORT_NO, Lit (ascii '' / ''), Tok REPORT_NO, Tok (ascii ''other'')]
        [(REPORT_NO, JStr (ascii ''R-2024-001'')), (OWNER, JNull)]
      = ascii ''R-2024-001 / R-2024-001'' @ token (ascii ''other'')"
    by (simp add: spec_substitute_def fill_segment_def value_text_def REPORT_NO_def OWNER_def
        ascii_def)
  from substitute_fills_every_token
    [of _ _ _ "[Tok REPORT_NO, Lit (ascii '' / ''), Tok REPORT_NO, Tok (ascii ''other'')]" example_rt
        "[(REPORT_NO, JStr (ascii ''R-2024-001'')), (OWNER, JNull)]"] w d
  have "substitute example_rt
        (render [Tok REPORT_NO, Lit (ascii '' / ''), Tok REPORT_NO, Tok (ascii ''other'')])
        [(REPORT_NO, JStr (ascii ''R-2024-001'')), (OWNER, JNull)]
      = spec_substitute example_rt
        [Tok REPORT_NO, Lit (ascii '' / ''), Tok REPORT_NO, Tok (ascii ''other'')]
        [(REPORT_NO, JStr (ascii ''R-2024-001'')), (OWNER, JNull)]"
    by blast
  with w d show ?thesis by (simp only: r e simp_thms)
qed

text \<open>
  Against C5 as stated: the keys are replaced one after the other, so a value that contains
  the token of a later key is itself rewritten; the token \<open>{{a}}\<close> does not end as the value
  of \<open>a\<close>.
\<close>

theorem substitute_rewrites_values:
  "substitute example_rt (render [Tok (ascii ''a'')])
       [(ascii ''a'', JStr (token (ascii ''b''))), (ascii ''b'', JStr (ascii ''X''))]
     = ascii ''X'' \<and>
   spec_substitute example_rt [Tok (ascii ''a'')]
       [(ascii ''a'', JStr (token (ascii ''b''))), (ascii ''b'', JStr (ascii ''X''))]
     = token (ascii ''b'') \<and>
   ascii ''X'' \<noteq> token (ascii ''b'')"
  by (simp add: substitute_def spec_substitute_def render_def render_segment_def fill_segment_def
      py_replace_def value_text_def token_def ascii_def)

text \<open>
  C6 (as amended). Substituting a second time changes nothing whenever the text after the
  first substitution contains no token of a key of the field map. This is so for every document
  text that is a sequence of literal pieces and tokens as in C5: when no key contains a brace
  and, in the literal pieces and in the texts substituted for the values, every \<open>{\<close> is
  followed by a character other than \<open>{\<close>.
\<close>

theorem substitute_idempotent:
  "(list_all (\<lambda>kv. \<not> py_in (token (fst kv)) (substitute rt t data)) data \<longrightarrow>
      substitute rt (substitute rt t data) data = substitute rt t data) \<and>
   (well_formed tpl \<and> plain_data rt data \<longrightarrow>
      substitute rt (substitute rt (render tpl) data) data = substitute rt (render tpl) data)"
  using substitute_idem [of tpl rt data] substitute_no_tokens [of "substitute rt t data" data rt]
  by blast

theorem substitute_idempotent_witness:
  "well_formed [Lit (ascii ''No. ''), Tok REPORT_NO] \<and>
   plain_data example_rt [(REPORT_NO, JStr (ascii ''R-2024-001''))] \<and>
   list_all (\<lambda>kv. \<not> py_in (token (fst kv)) (ascii ''Ref. R-2024-001''))
     [(REPORT_NO, JStr (ascii ''R-2024-001''))] \<and>
   substitute example_rt (ascii ''Ref. R-2024-001'') [(REPORT_NO, JStr (ascii ''R-2024-001''))]
     = ascii ''Ref. R-2024-001'' \<and>
   substitute example_rt (ascii ''No. '' @ token REPORT_NO) [(REPORT_NO, JStr (ascii ''R-2024-001''))]
     = ascii ''No. R-2024-001'' \<and>
   substitute example_rt (ascii ''No. R-2024-001'') [(REPORT_NO, JStr (ascii ''R-2024-001''))]
     = ascii ''No. R-2024-001''"
proof -
  have w: "well_formed [Lit (ascii ''No. ''), Tok REPORT_NO]"
    by (simp add: well_formed_def well_formed_segment_def brace_free_def REPORT_NO_def ascii_def)
  have d: "plain_data example_rt [(REPORT_NO, JStr (ascii ''R-2024-001''))]"
    by (simp add: plain_data_def brace_free_def value_text_def REPORT_NO_def ascii_def)
  have r: "render [Lit (ascii ''No. ''), Tok REPORT_NO] = ascii ''No. '' @ token REPORT_NO"
    by (simp add: render_def render_segment_def)
  have e: "substitute example_rt (ascii ''No. '' @ token REPORT_NO)
        [(REPORT_NO, JStr (ascii ''R-2024-001''))] = ascii ''No. R-2024-001''"
    by (simp add: substitute_def py_replace_def value_text_def token_def REPORT_NO_def ascii_def)
  have e2: "substitute example_rt (ascii ''Ref. '' @ token REPORT_NO)
        [(REPORT_NO, JStr (ascii ''R-2024-001''))] = ascii ''Ref. R-2024-001''"
    by (simp add: substitute_def py_replace_def value_text_def token_def REPORT_NO_def ascii_def)
  have n: "list_all (\<lambda>kv. \<not> py_in (token (fst kv)) (ascii ''Ref. R-2024-001''))
     [(REPORT_NO, JStr (ascii ''R-2024-001''))]"
    by (simp add: token_def REPORT_NO_def ascii_def)
  from substitute_idempotent
    [of example_rt "ascii ''Ref. '' @ token REPORT_NO" "[(REPORT_NO, JStr (ascii ''R-2024-001''))]"]
    n
  have r2: "substitute example_rt (ascii ''Ref. R-2024-001'') [(REPORT_NO, JStr (ascii ''R-2024-001''))]
     = ascii ''Ref. R-2024-001''"
    by (simp only: e2 simp_thms)
  from substitute_idempotent
    [of example_rt _ "[(REPORT_NO, JStr (ascii ''R-2024-001''))]"
        "[Lit (ascii ''No. ''), Tok REPORT_NO]"] w d
  have "substitute example_rt
        (substitute example_rt (render [Lit (ascii ''No. ''), Tok REPORT_NO])
           [(REPORT_NO, JStr (ascii ''R-2024-001''))])
        [(REPORT_NO, JStr (ascii ''R-2024-001''))]
      = substitute example_rt (render [Lit (ascii ''No. ''), Tok REPORT_NO])
           [(REPORT_NO, JStr (ascii ''R-2024-001''))]"
    by blast
  then have "substitute example_rt (ascii ''No. R-2024-001'')
        [(REPORT_NO, JStr (ascii ''R-2024-001''))] = ascii ''No. R-2024-001''"
    by (simp only: r e)
  with w d e n r2 show ?thesis by (simp only: simp_thms)
qed

text \<open>
  Against C6 as stated: the only value is the empty string, which contains neither \<open>{{\<close> nor
  \<open>}}\<close>, yet on the text \<open>{{{{a}}a}}\<close> the first pass leaves \<open>{{a}}\<close> and the second pass
  removes it.
\<close>

theorem substitute_twice_differs:
  "\<not> py_in (ascii ''{{'') (value_text example_rt (JStr [])) \<and>
   \<not> py_in (ascii ''}}'') (value_text example_rt (JStr [])) \<and>
   substitute example_rt (ascii ''{{{{a}}a}}'') [(ascii ''a'', JStr [])] = ascii ''{{a}}'' \<and>
   substitute example_rt (substitute example_rt (ascii ''{{{{a}}a}}'') [(ascii ''a'', JStr [])])
       [(ascii ''a'', JStr [])] = [] \<and>
   ascii ''{{a}}'' \<noteq> []"
  by (simp add: substitute_def py_replace_def value_text_def token_def ascii_def)


section \<open>The archive rewrite\<close>

lemma rewrite_result:
  assumes "rewrite writable f zin tmp dest fs = (r, fs')"
  shows "\<forall>p. p \<noteq> tmp \<and> p \<noteq> dest \<longrightarrow> fs' p = fs p"
    and "r \<noteq> None \<Longrightarrow> \<forall>p. p \<noteq> tmp \<longrightarrow> fs' p = fs p"
    and "r = None \<Longrightarrow> \<exists>out. write_members f zin [] = (None, out) \<and> fs' dest = Some (Zip out)"
  using assms by (auto simp: rewrite_def split: if_splits prod.splits option.splits)


lemma rewire_image_result:
  assumes "rewire_image rt writable src rels old docx_path tag bytes ext fs = (r, fs')"
  shows "\<exists>f. rewrite writable f src (docx_path @ ascii ''.imgtmp'') docx_path fs = (r, fs') \<and>
    f = image_item rt src (py_replace (ascii ''media/'' @ old)
          (ascii ''media/'' @ new_filename_for rt tag ext) rels) old (new_filename_for rt tag ext) bytes"
  using assms by (simp add: rewire_image_def Let_def)

lemma replace_image_cases:
  assumes "replace_image_in_docx rt writable docx_path tag bytes ext fs = (r, fs')"
  shows "fs' = fs \<or>
    (\<exists>z rels doc rid old. open_zip fs docx_path = Inr z \<and> read_text rt z RELS = Inr rels \<and>
       read_text rt z DOCUMENT_XML = Inr doc \<and> re_embed rt tag doc = Inr (Some rid) \<and>
       re_target rt rid rels = Some old \<and>
       rewire_image rt writable z rels old docx_path tag bytes ext fs = (r, fs'))"
  using assms
  by (auto simp: replace_image_in_docx_def split: sum.splits option.splits)

lemma replace_image_pinned:
  assumes "open_zip fs docx_path = Inr z" "read_text rt z RELS = Inr rels"
    "read_text rt z DOCUMENT_XML = Inr doc" "re_embed rt tag doc = Inr (Some rid)"
    "re_target rt rid rels = Some old"
  shows "replace_image_in_docx rt writable docx_path tag bytes ext fs =
    rewire_image rt writable z rels old docx_path tag bytes ext fs"
  using assms by (simp add: replace_image_in_docx_def)

lemma fill_template_cases:
  assumes "fill_template rt writable copying template_path data output_path fs = (r, fs')"
  shows "(r \<noteq> None \<and> fs' = fs) \<or>
    (\<exists>template. fs template_path = Some template \<and> output_path \<noteq> template_path \<and>
       ((\<exists>part. copying = Breaks part \<and> r = Some OSError \<and> fs' = fs(output_path \<mapsto> part)) \<or>
        (copying = Copies \<and> r \<noteq> None \<and> fs' = fs(output_path \<mapsto> template)) \<or>
        (\<exists>src xml. copying = Copies \<and> template = Zip src \<and>
           rewrite writable (fill_item rt src (substitute rt xml data)) src
             (output_path @ ascii ''.tmp'') output_path (fs(output_path \<mapsto> template)) = (r, fs'))))"
  using assms
  by (auto simp: fill_template_def Let_def open_zip_def
      split: option.splits if_splits sum.splits disk_file.splits copy_outcome.splits)

lemma media_not_RELS: "ascii ''word/media/'' @ x \<noteq> RELS"
  by (simp add: RELS_def ascii_def)

lemma arcname_media_not_RELS: "arcname (ascii ''word/media/'' @ x) \<noteq> RELS"
  by (simp add: arcname_def RELS_def ascii_def)

lemma zread_all_same:
  assumes "n \<in> fst ` set out" "\<And>x. (n, x) \<in> set out \<Longrightarrow> x = b"
  shows "zread out n = Inr b"
proof -
  from assms(1) have "n \<in> fst ` set (rev out)" by simp
  then have "map_of (rev out) n \<noteq> None" by (simp only: map_of_eq_None_iff not_not)
  then obtain x where x: "map_of (rev out) n = Some x" by blast
  then have "(n, x) \<in> set out" using map_of_SomeD by fastforce
  with assms(2) x show ?thesis by (simp add: zread_def)
qed

lemma zread_absent: "n \<notin> fst ` set out \<Longrightarrow> zread out n = Inl KeyError"
proof -
  assume "n \<notin> fst ` set out"
  then have "map_of (rev out) n = None" by (simp add: map_of_eq_None_iff)
  then show ?thesis by (simp add: zread_def)
qed

lemma zread_member: "zread z n = Inr b \<Longrightarrow> n \<in> fst ` set z"
proof -
  assume "zread z n = Inr b"
  then have "map_of (rev z) n \<noteq> None" by (auto simp: zread_def split: option.splits)
  then have "n \<in> fst ` set (rev z)" by (simp only: map_of_eq_None_iff not_not)
  then show ?thesis by simp
qed

lemma read_text_member: "read_text rt z n = Inr s \<Longrightarrow> n \<in> fst ` set z"
  by (auto simp: read_text_def split: sum.splits dest: zread_member)

lemma image_rewrite_targets:
  assumes "write_members (image_item rt zin rels old new bytes) zin [] = (None, out)"
  shows "RELS \<in> fst ` set zin \<Longrightarrow> \<exists>b. utf8_encode rt rels = Some b \<and> zread out RELS = Inr b"
    and "ascii ''word/media/'' @ old \<in> fst ` set zin \<Longrightarrow>
      arcname (ascii ''word/media/'' @ new) \<notin> fst ` set zin \<Longrightarrow>
      zread out (arcname (ascii ''word/media/'' @ new)) = Inr bytes"
    and "ascii ''word/media/'' @ old \<noteq> arcname (ascii ''word/media/'' @ new) \<Longrightarrow>
      zread out (ascii ''word/media/'' @ old) = Inl KeyError"
proof -
  let ?f = "image_item rt zin rels old new bytes"
  let ?g = "written ?f"
  let ?old = "ascii ''word/media/'' @ old"
  let ?new = "arcname (ascii ''word/media/'' @ new)"
  from write_members_success [OF assms]
  have out: "out = map ?g zin" and ok: "\<forall>item \<in> set zin. ?f item = Inr (?g item)"
    by simp_all
  have rels: "\<exists>b. utf8_encode rt rels = Some b \<and> ?g item = (RELS, b)"
    if "item \<in> set zin" "fst item = RELS" for item
  proof -
    from ok that(1) have "?f item = Inr (?g item)" by blast
    with that(2) show ?thesis
      by (auto simp: image_item_def split: option.splits)
  qed
  have media: "?g item = (?new, bytes)" if "item \<in> set zin" "fst item = ?old" for item
  proof -
    from ok that(1) have "?f item = Inr (?g item)" by blast
    from image_item_written(2) [OF this] that(2) media_not_RELS [of old] show ?thesis by simp
  qed
  have other: "fst (?g item) = fst item" if "item \<in> set zin" "fst item \<noteq> ?old" for item
  proof -
    from ok that(1) have "?f item = Inr (?g item)" by blast
    from image_item_written(1) [OF this] that(2) show ?thesis by simp
  qed
  show "\<exists>b. utf8_encode rt rels = Some b \<and> zread out RELS = Inr b" if "RELS \<in> fst ` set zin"
  proof -
    from that obtain item where i: "item \<in> set zin" "fst item = RELS" by auto
    from rels [OF i] obtain b where b: "utf8_encode rt rels = Some b" "?g item = (RELS, b)"
      by blast
    have "zread out RELS = Inr b"
    proof (rule zread_all_same)
      from i(1) b(2) show "RELS \<in> fst ` set out" unfolding out by force
    next
      fix x assume "(RELS, x) \<in> set out"
      then obtain item' where i': "item' \<in> set zin" "?g item' = (RELS, x)"
        unfolding out by auto
      have "fst item' = RELS"
      proof (cases "fst item' = ?old")
        case True
        from media [OF i'(1) True] i'(2) arcname_media_not_RELS [of new] show ?thesis by simp
      next
        case False
        from other [OF i'(1) False] i'(2) show ?thesis by simp
      qed
      from rels [OF i'(1) this] i'(2) b(1) show "x = b" by auto
    qed
    with b(1) show ?thesis by blast
  qed
  show "zread out ?new = Inr bytes" if "?old \<in> fst ` set zin" "?new \<notin> fst ` set zin"
  proof (rule zread_all_same)
    from that(1) obtain item where i: "item \<in> set zin" "fst item = ?old" by auto
    from media [OF i] i(1) show "?new \<in> fst ` set out" unfolding out by force
  next
    fix x assume "(?new, x) \<in> set out"
    then obtain item' where i': "item' \<in> set zin" "?g item' = (?new, x)"
      unfolding out by auto
    have "fst item' = ?old"
    proof (rule ccontr)
      assume "fst item' \<noteq> ?old"
      from other [OF i'(1) this] i'(2) have "fst item' = ?new" by simp
      with i'(1) that(2) show False by force
    qed
    from media [OF i'(1) this] i'(2) show "x = bytes" by simp
  qed
  show "zread out ?old = Inl KeyError" if "?old \<noteq> ?new"
  proof (rule zread_absent, rule notI)
    assume "?old \<in> fst ` set out"
    then obtain item' where i': "item' \<in> set zin" "fst (?g item') = ?old"
      unfolding out by auto
    show False
    proof (cases "fst item' = ?old")
      case True
      from media [OF i'(1) True] i'(2) that show False by simp
    next
      case False
      from other [OF i'(1) False] i'(2) False show False by simp
    qed
  qed
qed

text \<open>
  C3 (as amended). When \<open>fill_template\<close> succeeds, the archive at the output path has the
  member names of the template, in the same order, and \<open>read\<close> gives for every name other than
  \<open>word/document.xml\<close> the bytes it gives in the template. When \<open>replace_image_in_docx\<close>
  succeeds, it has either left the file as it was or found the relationship id that the tag is
  bound to in the document text and the media file name \<open><old name>\<close> that this id is bound to
  in the relationships member, and rewritten the archive: every member \<open>word/media/<old name>\<close>
  is stored under the new name \<open>word/media/replaced_<tag>.<ext>\<close> instead, every other member
  keeps its name, and the order is kept; \<open>read\<close> gives the same bytes as before for every name
  other than the relationships member, the old media name and the new media name; it gives the
  encoded relationships text, with the old media name replaced by the new one, for the
  relationships member; it gives the new picture for the new media name when the archive had
  the old media member and no member of the new name; and the old media name, when it differs
  from the new one, is no longer present. A member that already has the new media name is not
  protected: it can be shadowed by the new picture.
\<close>

theorem rewrite_keeps_other_members:
  "(fill_template rt writable copying template_path data output_path fs = (None, fs1) \<longrightarrow>
      (\<exists>src out. fs template_path = Some (Zip src) \<and> fs1 output_path = Some (Zip out) \<and>
         map fst out = map fst src \<and>
         (\<forall>n. n \<noteq> DOCUMENT_XML \<longrightarrow> zread out n = zread src n))) \<and>
   (rewire_image rt writable src rels old docx_path tag bytes ext fs = (None, fs2) \<longrightarrow>
      (\<exists>out. fs2 docx_path = Some (Zip out) \<and>
         map fst out =
           map (\<lambda>n. if n \<noteq> RELS \<and> n = ascii ''word/media/'' @ old
                     then arcname (ascii ''word/media/'' @ new_filename_for rt tag ext) else n)
             (map fst src) \<and>
         (\<forall>n. n \<noteq> RELS \<and> n \<noteq> ascii ''word/media/'' @ old \<and>
              n \<noteq> arcname (ascii ''word/media/'' @ new_filename_for rt tag ext) \<longrightarrow>
              zread out n = zread src n))) \<and>
   (open_zip fs docx_path = Inr z \<and> read_text rt z RELS = Inr rels_content \<and>
    read_text rt z DOCUMENT_XML = Inr doc_content \<and>
    re_embed rt tag doc_content = Inr (Some rid) \<and>
    re_target rt rid rels_content = Some old_filename \<and>
    replace_image_in_docx rt writable docx_path tag bytes ext fs = (None, fs3) \<longrightarrow>
      (\<exists>out b. fs3 docx_path = Some (Zip out) \<and>
         map fst out =
           map (\<lambda>n. if n \<noteq> RELS \<and> n = ascii ''word/media/'' @ old_filename
                     then arcname (ascii ''word/media/'' @ new_filename_for rt tag ext) else n)
             (map fst z) \<and>
         (\<forall>n. n \<noteq> RELS \<and> n \<noteq> ascii ''word/media/'' @ old_filename \<and>
              n \<noteq> arcname (ascii ''word/media/'' @ new_filename_for rt tag ext) \<longrightarrow>
              zread out n = zread z n) \<and>
         utf8_encode rt (py_replace (ascii ''media/'' @ old_filename)
             (ascii ''media/'' @ new_filename_for rt tag ext) rels_content) = Some b \<and>
         zread out RELS = Inr b \<and>
         (ascii ''word/media/'' @ old_filename \<in> fst ` set z \<and>
          arcname (ascii ''word/media/'' @ new_filename_for rt tag ext) \<notin> fst ` set z \<longrightarrow>
            zread out (arcname (ascii ''word/media/'' @ new_filename_for rt tag ext)) = Inr bytes) \<and>
         (ascii ''word/media/'' @ old_filename
            \<noteq> arcname (ascii ''word/media/'' @ new_filename_for rt tag ext) \<longrightarrow>
            zread out (ascii ''word/media/'' @ old_filename) = Inl KeyError))) \<and>
   (replace_image_in_docx rt writable docx_path tag bytes ext fs = (None, fs3) \<longrightarrow>
      fs3 = fs \<or>
      (\<exists>z' rels' doc' rid' old'. open_zip fs docx_path = Inr z' \<and>
         read_text rt z' RELS = Inr rels' \<and> read_text rt z' DOCUMENT_XML = Inr doc' \<and>
         re_embed rt tag doc' = Inr (Some rid') \<and> re_target rt rid' rels' = Some old' \<and>
         rewire_image rt writable z' rels' old' docx_path tag bytes ext fs = (None, fs3)))"
proof -
  have A: "fill_template rt writable copying template_path data output_path fs = (None, fs1) \<longrightarrow>
      (\<exists>src out. fs template_path = Some (Zip src) \<and> fs1 output_path = Some (Zip out) \<and>
         map fst out = map fst src \<and>
         (\<forall>n. n \<noteq> DOCUMENT_XML \<longrightarrow> zread out n = zread src n))"
  proof
    assume a: "fill_template rt writable copying template_path data output_path fs = (None, fs1)"
    from fill_template_cases [OF a]
    obtain src' xml where t: "fs template_path = Some (Zip src')"
      and rw: "rewrite writable (fill_item rt src' (substitute rt xml data)) src'
         (output_path @ ascii ''.tmp'') output_path (fs(output_path \<mapsto> Zip src')) = (None, fs1)"
      by auto
    from rewrite_result(3) [OF rw] obtain out
      where out: "write_members (fill_item rt src' (substitute rt xml data)) src' [] = (None, out)"
        "fs1 output_path = Some (Zip out)"
      by auto
    from fill_rewrite_keeps [OF out(1)] t out(2)
    show "\<exists>src out. fs template_path = Some (Zip src) \<and> fs1 output_path = Some (Zip out) \<and>
           map fst out = map fst src \<and>
           (\<forall>n. n \<noteq> DOCUMENT_XML \<longrightarrow> zread out n = zread src n)"
      by blast
  qed
  have B: "rewire_image rt writable src rels old docx_path tag bytes ext fs = (None, fs2) \<longrightarrow>
      (\<exists>out. fs2 docx_path = Some (Zip out) \<and>
         map fst out =
           map (\<lambda>n. if n \<noteq> RELS \<and> n = ascii ''word/media/'' @ old
                     then arcname (ascii ''word/media/'' @ new_filename_for rt tag ext) else n)
             (map fst src) \<and>
         (\<forall>n. n \<noteq> RELS \<and> n \<noteq> ascii ''word/media/'' @ old \<and>
              n \<noteq> arcname (ascii ''word/media/'' @ new_filename_for rt tag ext) \<longrightarrow>
              zread out n = zread src n))"
  proof
    assume a: "rewire_image rt writable src rels old docx_path tag bytes ext fs = (None, fs2)"
    from rewire_image_result [OF a] obtain f
      where rw: "rewrite writable f src (docx_path @ ascii ''.imgtmp'') docx_path fs = (None, fs2)"
        and f: "f = image_item rt src (py_replace (ascii ''media/'' @ old)
            (ascii ''media/'' @ new_filename_for rt tag ext) rels) old (new_filename_for rt tag ext) bytes"
      by blast
    from rewrite_result(3) [OF rw] obtain out
      where out: "write_members f src [] = (None, out)" "fs2 docx_path = Some (Zip out)"
      by auto
    from image_rewrite_keeps [OF out(1) [unfolded f]] out(2)
    show "\<exists>out. fs2 docx_path = Some (Zip out) \<and>
           map fst out =
             map (\<lambda>n. if n \<noteq> RELS \<and> n = ascii ''word/media/'' @ old
                       then arcname (ascii ''word/media/'' @ new_filename_for rt tag ext) else n)
               (map fst src) \<and>
           (\<forall>n. n \<noteq> RELS \<and> n \<noteq> ascii ''word/media/'' @ old \<and>
                n \<noteq> arcname (ascii ''word/media/'' @ new_filename_for rt tag ext) \<longrightarrow>
                zread out n = zread src n)"
      by blast
  qed
  have C: "open_zip fs docx_path = Inr z \<and> read_text rt z RELS = Inr rels_content \<and>
    read_text rt z DOCUMENT_XML = Inr doc_content \<and>
    re_embed rt tag doc_content = Inr (Some rid) \<and>
    re_target rt rid rels_content = Some old_filename \<and>
    replace_image_in_docx rt writable docx_path tag bytes ext fs = (None, fs3) \<longrightarrow>
      (\<exists>out b. fs3 docx_path = Some (Zip out) \<and>
         map fst out =
           map (\<lambda>n. if n \<noteq> RELS \<and> n = ascii ''word/media/'' @ old_filename
                     then arcname (ascii ''word/media/'' @ new_filename_for rt tag ext) else n)
             (map fst z) \<and>
         (\<forall>n. n \<noteq> RELS \<and> n \<noteq> ascii ''word/media/'' @ old_filename \<and>
              n \<noteq> arcname (ascii ''word/media/'' @ new_filename_for rt tag ext) \<longrightarrow>
              zread out n = zread z n) \<and>
         utf8_encode rt (py_replace (ascii ''media/'' @ old_filename)
             (ascii ''media/'' @ new_filename_for rt tag ext) rels_content) = Some b \<and>
         zread out RELS = Inr b \<and>
         (ascii ''word/media/'' @ old_filename \<in> fst ` set z \<and>
          arcname (ascii ''word/media/'' @ new_filename_for rt tag ext) \<notin> fst ` set z \<longrightarrow>
            zread out (arcname (ascii ''word/media/'' @ new_filename_for rt tag ext)) = Inr bytes) \<and>
         (ascii ''word/media/'' @ old_filename
            \<noteq> arcname (ascii ''word/media/'' @ new_filename_for rt tag ext) \<longrightarrow>
            zread out (ascii ''word/media/'' @ old_filename) = Inl KeyError))"
  proof
    assume a: "open_zip fs docx_path = Inr z \<and> read_text rt z RELS = Inr rels_content \<and>
      read_text rt z DOCUMENT_XML = Inr doc_content \<and>
      re_embed rt tag doc_content = Inr (Some rid) \<and>
      re_target rt rid rels_content = Some old_filename \<and>
      replace_image_in_docx rt writable docx_path tag bytes ext fs = (None, fs3)"
    then have p: "open_zip fs docx_path = Inr z" "read_text rt z RELS = Inr rels_content"
      "read_text rt z DOCUMENT_XML = Inr doc_content"
      "re_embed rt tag doc_content = Inr (Some rid)"
      "re_target rt rid rels_content = Some old_filename"
      and r: "replace_image_in_docx rt writable docx_path tag bytes ext fs = (None, fs3)"
      by blast+
    from r replace_image_pinned [OF p]
    have "rewire_image rt writable z rels_content old_filename docx_path tag bytes ext fs = (None, fs3)"
      by simp
    from rewire_image_result [OF this] obtain f
      where rw: "rewrite writable f z (docx_path @ ascii ''.imgtmp'') docx_path fs = (None, fs3)"
        and f: "f = image_item rt z (py_replace (ascii ''media/'' @ old_filename)
            (ascii ''media/'' @ new_filename_for rt tag ext) rels_content) old_filename
            (new_filename_for rt tag ext) bytes"
      by blast
    from rewrite_result(3) [OF rw] obtain out
      where out: "write_members f z [] = (None, out)" "fs3 docx_path = Some (Zip out)"
      by auto
    note w = out(1) [unfolded f]
    from read_text_member [OF p(2)] image_rewrite_targets(1) [OF w]
    obtain b where b: "utf8_encode rt (py_replace (ascii ''media/'' @ old_filename)
             (ascii ''media/'' @ new_filename_for rt tag ext) rels_content) = Some b"
      "zread out RELS = Inr b"
      by blast
    from out(2) image_rewrite_keeps [OF w] b image_rewrite_targets(2,3) [OF w]
    show "\<exists>out b. fs3 docx_path = Some (Zip out) \<and>
         map fst out =
           map (\<lambda>n. if n \<noteq> RELS \<and> n = ascii ''word/media/'' @ old_filename
                     then arcname (ascii ''word/media/'' @ new_filename_for rt tag ext) else n)
             (map fst z) \<and>
         (\<forall>n. n \<noteq> RELS \<and> n \<noteq> ascii ''word/media/'' @ old_filename \<and>
              n \<noteq> arcname (ascii ''word/media/'' @ new_filename_for rt tag ext) \<longrightarrow>
              zread out n = zread z n) \<and>
         utf8_encode rt (py_replace (ascii ''media/'' @ old_filename)
             (ascii ''media/'' @ new_filename_for rt tag ext) rels_content) = Some b \<and>
         zread out RELS = Inr b \<and>
         (ascii ''word/media/'' @ old_filename \<in> fst ` set z \<and>
          arcname (ascii ''word/media/'' @ new_filename_for rt tag ext) \<notin> fst ` set z \<longrightarrow>
            zread out (arcname (ascii ''word/media/'' @ new_filename_for rt tag ext)) = Inr bytes) \<and>
         (ascii ''word/media/'' @ old_filename
            \<noteq> arcname (ascii ''word/media/'' @ new_filename_for rt tag ext) \<longrightarrow>
            zread out (ascii ''word/media/'' @ old_filename) = Inl KeyError)"
      by blast
  qed
  have D: "replace_image_in_docx rt writable docx_path tag bytes ext fs = (None, fs3) \<longrightarrow>
      fs3 = fs \<or>
      (\<exists>z' rels' doc' rid' old'. open_zip fs docx_path = Inr z' \<and>
         read_text rt z' RELS = Inr rels' \<and> read_text rt z' DOCUMENT_XML = Inr doc' \<and>
         re_embed rt tag doc' = Inr (Some rid') \<and> re_target rt rid' rels' = Some old' \<and>
         rewire_image rt writable z' rels' old' docx_path tag bytes ext fs = (None, fs3))"
    using replace_image_cases [of rt writable docx_path tag bytes ext fs None fs3] by blast
  show ?thesis
    by (rule conjI [OF A conjI [OF B conjI [OF C D]]])
qed


text \<open>
  C7 (as amended). When the document can be read (the archive opens, and the relationships
  member and \<open>word/document.xml\<close> are there and decode), the tag gives a pattern that compiles,
  and the search for it in the document text finds nothing, or it finds a relationship id for
  which the search in the relationships member finds no media file name, then
  \<open>replace_image_in_docx\<close> raises nothing and leaves the file system, and so the document,
  exactly as it was. Both members are read before either search: when the archive does not
  open, or one of the two members is missing or does not decode, or the pattern does not
  compile, \<open>replace_image_in_docx\<close> raises, whether or not the tag is bound to a picture; the
  file system is then as it was.
\<close>

theorem unmatched_image_is_noop:
  "(open_zip fs docx_path = Inr z \<and> read_text rt z RELS = Inr rels \<and>
    read_text rt z DOCUMENT_XML = Inr doc \<and>
    (re_embed rt tag doc = Inr None \<or>
     (\<exists>rid. re_embed rt tag doc = Inr (Some rid) \<and> re_target rt rid rels = None)) \<longrightarrow>
    replace_image_in_docx rt writable docx_path tag bytes ext fs = (None, fs)) \<and>
   (open_zip fs docx_path = Inl e \<longrightarrow>
    replace_image_in_docx rt writable docx_path tag bytes ext fs = (Some e, fs)) \<and>
   (open_zip fs docx_path = Inr z \<and> read_text rt z RELS = Inl e \<longrightarrow>
    replace_image_in_docx rt writable docx_path tag bytes ext fs = (Some e, fs)) \<and>
   (open_zip fs docx_path = Inr z \<and> read_text rt z RELS = Inr rels \<and>
    read_text rt z DOCUMENT_XML = Inl e \<longrightarrow>
    replace_image_in_docx rt writable docx_path tag bytes ext fs = (Some e, fs)) \<and>
   (open_zip fs docx_path = Inr z \<and> read_text rt z RELS = Inr rels \<and>
    read_text rt z DOCUMENT_XML = Inr doc \<and> re_embed rt tag doc = Inl e \<longrightarrow>
    replace_image_in_docx rt writable docx_path tag bytes ext fs = (Some e, fs))"
  by (auto simp: replace_image_in_docx_def)

lemma example_decode:
  assumes "list_all (\<lambda>c. c < 0x80) s"
  shows "utf8_decode example_rt (map of_nat s) = Some s"
proof -
  have 1: "(of_nat c :: 8 word) < 0x80" if "c < 0x80" for c :: nat
    using that by (simp add: word_less_nat_alt unat_of_nat)
  have 2: "unat (of_nat c :: 8 word) = c" if "c < 0x80" for c :: nat
    using that by (simp add: unat_of_nat)
  from assms have "list_all (\<lambda>x. x < 0x80) (map of_nat s :: 8 word list)"
    using 1 by (induction s) auto
  moreover from assms have "map unat (map of_nat s :: 8 word list) = s"
    using 2 by (induction s) auto
  ultimately show ?thesis by (simp add: example_rt_def)
qed

lemma example_encode:
  "list_all (\<lambda>c. c < 0x80) s \<Longrightarrow> utf8_encode example_rt s = Some (map of_nat s)"
  by (simp add: example_rt_def)

lemma example_archive_reads:
  "zread EXAMPLE_ARCHIVE RELS = Inr (map of_nat EXAMPLE_RELS)"
  "zread EXAMPLE_ARCHIVE DOCUMENT_XML = Inr (map of_nat EXAMPLE_DOC)"
  "zread EXAMPLE_ARCHIVE (ascii ''word/media/replaced_image_photo_1.png'') = Inr [1, 2, 3]"
  "zread EXAMPLE_ARCHIVE (ascii ''word/media/image1.png'') = Inr [4, 5, 6]"
  by (simp_all add: zread_def EXAMPLE_ARCHIVE_def RELS_def DOCUMENT_XML_def ascii_def)

lemma example_archive_texts:
  "read_text example_rt EXAMPLE_ARCHIVE RELS = Inr EXAMPLE_RELS"
  "read_text example_rt EXAMPLE_ARCHIVE DOCUMENT_XML = Inr EXAMPLE_DOC"
proof -
  have "list_all (\<lambda>c. c < 0x80) EXAMPLE_RELS" "list_all (\<lambda>c. c < 0x80) EXAMPLE_DOC"
    by (simp_all add: EXAMPLE_RELS_def EXAMPLE_DOC_def DQ_def ascii_def)
  then show "read_text example_rt EXAMPLE_ARCHIVE RELS = Inr EXAMPLE_RELS"
    "read_text example_rt EXAMPLE_ARCHIVE DOCUMENT_XML = Inr EXAMPLE_DOC"
    by (simp_all add: read_text_def example_archive_reads example_decode)
qed

lemma example_rels_rewired:
  "py_replace (ascii ''media/'' @ ascii ''image1.png'')
     (ascii ''media/'' @ ascii ''replaced_image_photo_1.png'')
     EXAMPLE_RELS = EXAMPLE_RELS_REWIRED"
  by (simp add: py_replace_def EXAMPLE_RELS_def EXAMPLE_RELS_REWIRED_def DQ_def ascii_def)

lemma example_new_filename:
  "new_filename_for example_rt (ascii ''IMAGE_PHOTO_1'') (ascii ''png'')
     = ascii ''replaced_image_photo_1.png''"
  by (simp add: new_filename_for_def example_rt_def ascii_def)

lemma example_image_rewrite:
  "write_members
     (image_item example_rt EXAMPLE_ARCHIVE EXAMPLE_RELS_REWIRED (ascii ''image1.png'')
        (ascii ''replaced_image_photo_1.png'') [7, 8, 9])
     EXAMPLE_ARCHIVE [] =
   (None,
    [ (RELS, map of_nat EXAMPLE_RELS_REWIRED),
      (DOCUMENT_XML, map of_nat EXAMPLE_DOC),
      (ascii ''word/media/replaced_image_photo_1.png'', [1, 2, 3]),
      (ascii ''word/media/replaced_image_photo_1.png'', [7, 8, 9]) ])"
proof -
  define F where "F = image_item example_rt EXAMPLE_ARCHIVE EXAMPLE_RELS_REWIRED
    (ascii ''image1.png'') (ascii ''replaced_image_photo_1.png'') [7, 8, 9]"
  have e: "utf8_encode example_rt EXAMPLE_RELS_REWIRED = Some (map of_nat EXAMPLE_RELS_REWIRED)"
    by (rule example_encode) (simp add: EXAMPLE_RELS_REWIRED_def DQ_def ascii_def)
  have n: "DOCUMENT_XML \<noteq> RELS" "ascii ''word/media/replaced_image_photo_1.png'' \<noteq> RELS"
    "ascii ''word/media/image1.png'' \<noteq> RELS"
    "DOCUMENT_XML \<noteq> ascii ''word/media/image1.png''"
    "ascii ''word/media/replaced_image_photo_1.png'' \<noteq> ascii ''word/media/image1.png''"
    "ascii ''word/media/'' @ ascii ''image1.png'' = ascii ''word/media/image1.png''"
    "arcname (ascii ''word/media/'' @ ascii ''replaced_image_photo_1.png'')
       = ascii ''word/media/replaced_image_photo_1.png''"
    by (simp_all add: RELS_def DOCUMENT_XML_def arcname_def ascii_def)
  have F: "F (RELS, x) = Inr (RELS, map of_nat EXAMPLE_RELS_REWIRED)"
    "F (DOCUMENT_XML, y) = Inr (DOCUMENT_XML, map of_nat EXAMPLE_DOC)"
    "F (ascii ''word/media/replaced_image_photo_1.png'', z)
       = Inr (ascii ''word/media/replaced_image_photo_1.png'', [1, 2, 3])"
    "F (ascii ''word/media/image1.png'', w)
       = Inr (ascii ''word/media/replaced_image_photo_1.png'', [7, 8, 9])"
    for x y z w
    by (simp_all add: F_def image_item_def e n example_archive_reads)
  have "write_members F EXAMPLE_ARCHIVE [] =
   (None,
    [ (RELS, map of_nat EXAMPLE_RELS_REWIRED),
      (DOCUMENT_XML, map of_nat EXAMPLE_DOC),
      (ascii ''word/media/replaced_image_photo_1.png'', [1, 2, 3]),
      (ascii ''word/media/replaced_image_photo_1.png'', [7, 8, 9]) ])"
    unfolding EXAMPLE_ARCHIVE_def by (simp add: F)
  then show ?thesis by (simp only: F_def)
qed

lemma example_replace_image:
  "replace_image_in_docx example_rt writable REPORT_PATH (ascii ''IMAGE_PHOTO_1'') [7, 8, 9]
       (ascii ''png'') [REPORT_PATH \<mapsto> Zip EXAMPLE_ARCHIVE] =
     rewrite writable
       (image_item example_rt EXAMPLE_ARCHIVE EXAMPLE_RELS_REWIRED (ascii ''image1.png'')
          (ascii ''replaced_image_photo_1.png'') [7, 8, 9])
       EXAMPLE_ARCHIVE (REPORT_PATH @ ascii ''.imgtmp'') REPORT_PATH
       [REPORT_PATH \<mapsto> Zip EXAMPLE_ARCHIVE]"
proof -
  have "open_zip [REPORT_PATH \<mapsto> Zip EXAMPLE_ARCHIVE] REPORT_PATH = Inr EXAMPLE_ARCHIVE"
    by (simp add: open_zip_def)
  moreover have "re_embed example_rt (ascii ''IMAGE_PHOTO_1'') EXAMPLE_DOC = Inr (Some (ascii ''rId5''))"
    "re_target example_rt (ascii ''rId5'') EXAMPLE_RELS = Some (ascii ''image1.png'')"
    by (simp_all add: example_rt_def)
  ultimately show ?thesis
    by (simp add: replace_image_in_docx_def rewire_image_def Let_def example_archive_texts
        example_rels_rewired example_new_filename)
qed

text \<open>
  Against C3 as stated: the archive already has a member
  \<open>word/media/replaced_image_photo_1.png\<close>, which is neither the relationships member nor the
  picture bound to the tag. After the picture \<open>image1.png\<close> has been replaced, \<open>read\<close> gives
  the new picture for that name.
\<close>

theorem replaced_image_shadows_member:
  "fst (replace_image_in_docx example_rt always_writable REPORT_PATH (ascii ''IMAGE_PHOTO_1'')
          [7, 8, 9] (ascii ''png'') [REPORT_PATH \<mapsto> Zip EXAMPLE_ARCHIVE]) = None \<and>
   read_at [REPORT_PATH \<mapsto> Zip EXAMPLE_ARCHIVE] REPORT_PATH
       (ascii ''word/media/replaced_image_photo_1.png'') = Inr [1, 2, 3] \<and>
   read_at (snd (replace_image_in_docx example_rt always_writable REPORT_PATH
          (ascii ''IMAGE_PHOTO_1'') [7, 8, 9] (ascii ''png'') [REPORT_PATH \<mapsto> Zip EXAMPLE_ARCHIVE]))
       REPORT_PATH (ascii ''word/media/replaced_image_photo_1.png'') = Inr [7, 8, 9] \<and>
   ascii ''word/media/replaced_image_photo_1.png'' \<noteq> RELS \<and>
   ascii ''word/media/replaced_image_photo_1.png'' \<noteq> ascii ''word/media/image1.png''"
proof -
  have "replace_image_in_docx example_rt always_writable REPORT_PATH (ascii ''IMAGE_PHOTO_1'')
          [7, 8, 9] (ascii ''png'') [REPORT_PATH \<mapsto> Zip EXAMPLE_ARCHIVE] =
      (None, ([REPORT_PATH \<mapsto> Zip EXAMPLE_ARCHIVE](REPORT_PATH @ ascii ''.imgtmp'' := None))
                (REPORT_PATH \<mapsto> Zip REWIRED_ARCHIVE))"
    by (simp add: example_replace_image rewrite_def example_image_rewrite always_writable_def
        REWIRED_ARCHIVE_def)
  moreover have "zread REWIRED_ARCHIVE (ascii ''word/media/replaced_image_photo_1.png'') = Inr [7, 8, 9]"
    by (simp add: zread_def REWIRED_ARCHIVE_def RELS_def DOCUMENT_XML_def ascii_def)
  moreover have "ascii ''word/media/replaced_image_photo_1.png'' \<noteq> RELS"
    "ascii ''word/media/replaced_image_photo_1.png'' \<noteq> ascii ''word/media/image1.png''"
    by (simp_all add: RELS_def ascii_def)
  ultimately show ?thesis
    by (simp add: read_at_def open_zip_def example_archive_reads)
qed


theorem unmatched_image_is_noop_witness:
  "open_zip [REPORT_PATH \<mapsto> Zip EXAMPLE_ARCHIVE] REPORT_PATH = Inr EXAMPLE_ARCHIVE \<and>
   read_text example_rt EXAMPLE_ARCHIVE RELS = Inr EXAMPLE_RELS \<and>
   read_text example_rt EXAMPLE_ARCHIVE DOCUMENT_XML = Inr EXAMPLE_DOC \<and>
   re_embed example_rt (ascii ''IMAGE_PHOTO_2'') EXAMPLE_DOC = Inr None \<and>
   replace_image_in_docx example_rt always_writable REPORT_PATH (ascii ''IMAGE_PHOTO_2'')
       [7, 8, 9] (ascii ''png'') [REPORT_PATH \<mapsto> Zip EXAMPLE_ARCHIVE]
     = (None, [REPORT_PATH \<mapsto> Zip EXAMPLE_ARCHIVE])"
proof -
  have o: "open_zip [REPORT_PATH \<mapsto> Zip EXAMPLE_ARCHIVE] REPORT_PATH = Inr EXAMPLE_ARCHIVE"
    by (simp add: open_zip_def)
  have r: "re_embed example_rt (ascii ''IMAGE_PHOTO_2'') EXAMPLE_DOC = Inr None"
    by (simp add: example_rt_def ascii_def)
  note th = conjunct1 [OF unmatched_image_is_noop
    [where fs = "[REPORT_PATH \<mapsto> Zip EXAMPLE_ARCHIVE]" and docx_path = REPORT_PATH
       and z = EXAMPLE_ARCHIVE and rt = example_rt and rels = EXAMPLE_RELS and doc = EXAMPLE_DOC
       and tag = "ascii ''IMAGE_PHOTO_2''" and writable = always_writable and bytes = "[7, 8, 9]"
       and ext = "ascii ''png''"]]
  from th o r example_archive_texts
  have "replace_image_in_docx example_rt always_writable REPORT_PATH (ascii ''IMAGE_PHOTO_2'')
       [7, 8, 9] (ascii ''png'') [REPORT_PATH \<mapsto> Zip EXAMPLE_ARCHIVE]
     = (None, [REPORT_PATH \<mapsto> Zip EXAMPLE_ARCHIVE])"
    by blast
  with o r example_archive_texts show ?thesis by (simp only: simp_thms)
qed

text \<open>
  Against C7 as stated: the document has no relationships member, and the tag
  \<open>IMAGE_PHOTO_2\<close> matches nothing in the document text. \<open>replace_image_in_docx\<close> reads the
  relationships member before it searches, and raises \<open>KeyError\<close>.
\<close>

theorem unmatched_image_raises_without_rels:
  "open_zip [REPORT_PATH \<mapsto> Zip NO_RELS_ARCHIVE] REPORT_PATH = Inr NO_RELS_ARCHIVE \<and>
   read_text example_rt NO_RELS_ARCHIVE DOCUMENT_XML = Inr EXAMPLE_DOC \<and>
   re_embed example_rt (ascii ''IMAGE_PHOTO_2'') EXAMPLE_DOC = Inr None \<and>
   replace_image_in_docx example_rt always_writable REPORT_PATH (ascii ''IMAGE_PHOTO_2'')
       [7, 8, 9] (ascii ''png'') [REPORT_PATH \<mapsto> Zip NO_RELS_ARCHIVE]
     = (Some KeyError, [REPORT_PATH \<mapsto> Zip NO_RELS_ARCHIVE])"
proof -
  have o: "open_zip [REPORT_PATH \<mapsto> Zip NO_RELS_ARCHIVE] REPORT_PATH = Inr NO_RELS_ARCHIVE"
    by (simp add: open_zip_def)
  have d: "zread NO_RELS_ARCHIVE DOCUMENT_XML = Inr (map of_nat EXAMPLE_DOC)"
    by (simp add: zread_def NO_RELS_ARCHIVE_def)
  have "list_all (\<lambda>c. c < 0x80) EXAMPLE_DOC"
    by (simp add: EXAMPLE_DOC_def DQ_def ascii_def)
  with d have t: "read_text example_rt NO_RELS_ARCHIVE DOCUMENT_XML = Inr EXAMPLE_DOC"
    by (simp add: read_text_def example_decode)
  have k: "read_text example_rt NO_RELS_ARCHIVE RELS = Inl KeyError"
    by (simp add: read_text_def zread_def NO_RELS_ARCHIVE_def RELS_def DOCUMENT_XML_def ascii_def)
  have r: "re_embed example_rt (ascii ''IMAGE_PHOTO_2'') EXAMPLE_DOC = Inr None"
    by (simp add: example_rt_def ascii_def)
  have "replace_image_in_docx example_rt always_writable REPORT_PATH (ascii ''IMAGE_PHOTO_2'')
       [7, 8, 9] (ascii ''png'') [REPORT_PATH \<mapsto> Zip NO_RELS_ARCHIVE]
     = (Some KeyError, [REPORT_PATH \<mapsto> Zip NO_RELS_ARCHIVE])"
    by (simp add: replace_image_in_docx_def o k)
  with o t r show ?thesis by (simp only: simp_thms)
qed


lemma write_members_total:
  "(\<forall>item \<in> set items. \<exists>m. f item = Inr m) \<Longrightarrow> \<exists>out. write_members f items acc = (None, out)"
  by (induction items arbitrary: acc) auto

lemma fill_rewrite_total:
  assumes "utf8_encode rt xml = Some b"
  shows "\<exists>out. write_members (fill_item rt zin xml) zin [] = (None, out)"
proof (rule write_members_total, rule ballI)
  fix item assume "item \<in> set zin"
  from zread_in_archive [OF this] assms
  show "\<exists>m. fill_item rt zin xml item = Inr m"
    by (auto simp: fill_item_def)
qed

lemma fill_template_success:
  assumes "fs template_path = Some (Zip src)" "output_path \<noteq> template_path"
    "writable output_path" "writable (output_path @ ascii ''.tmp'')"
    "read_text rt src DOCUMENT_XML = Inr xml"
    "utf8_encode rt (substitute rt xml data) = Some b"
  shows "fst (fill_template rt writable Copies template_path data output_path fs) = None"
proof -
  from fill_rewrite_total [OF assms(6), of src] obtain out
    where "write_members (fill_item rt src (substitute rt xml data)) src [] = (None, out)" ..
  with assms(1-5) show ?thesis
    by (simp add: fill_template_def Let_def open_zip_def rewrite_def)
qed

lemma image_rewrite_total:
  assumes "utf8_encode rt rels = Some b"
  shows "\<exists>out. write_members (image_item rt zin rels old new bytes) zin [] = (None, out)"
proof (rule write_members_total, rule ballI)
  fix item assume "item \<in> set zin"
  from zread_in_archive [OF this] assms
  show "\<exists>m. image_item rt zin rels old new bytes item = Inr m"
    by (auto simp: image_item_def)
qed

lemma replace_image_success:
  assumes "open_zip fs docx_path = Inr z" "read_text rt z RELS = Inr rels"
    "read_text rt z DOCUMENT_XML = Inr doc" "re_embed rt tag doc = Inr (Some rid)"
    "re_target rt rid rels = Some old"
    and enc: "utf8_encode rt (py_replace (ascii ''media/'' @ old)
                (ascii ''media/'' @ new_filename_for rt tag ext) rels) = Some b"
    and w: "writable (docx_path @ ascii ''.imgtmp'')" "writable docx_path"
  shows "fst (replace_image_in_docx rt writable docx_path tag bytes ext fs) = None"
proof -
  from image_rewrite_total [OF enc, of z old "new_filename_for rt tag ext" bytes] obtain out
    where "write_members (image_item rt z (py_replace (ascii ''media/'' @ old)
                (ascii ''media/'' @ new_filename_for rt tag ext) rels) old
                (new_filename_for rt tag ext) bytes) z [] = (None, out)" ..
  with w show ?thesis
    by (simp add: replace_image_pinned [OF assms(1-5)] rewire_image_def Let_def rewrite_def)
qed

lemma plain_archive_texts:
  "open_zip [REPORT_PATH \<mapsto> Zip PLAIN_ARCHIVE] REPORT_PATH = Inr PLAIN_ARCHIVE"
  "read_text example_rt PLAIN_ARCHIVE RELS = Inr EXAMPLE_RELS"
  "read_text example_rt PLAIN_ARCHIVE DOCUMENT_XML = Inr EXAMPLE_DOC"
proof -
  have r: "zread PLAIN_ARCHIVE RELS = Inr (map of_nat EXAMPLE_RELS)"
    "zread PLAIN_ARCHIVE DOCUMENT_XML = Inr (map of_nat EXAMPLE_DOC)"
    by (simp_all add: zread_def PLAIN_ARCHIVE_def RELS_def DOCUMENT_XML_def ascii_def)
  have "list_all (\<lambda>c. c < 0x80) EXAMPLE_RELS" "list_all (\<lambda>c. c < 0x80) EXAMPLE_DOC"
    by (simp_all add: EXAMPLE_RELS_def EXAMPLE_DOC_def DQ_def ascii_def)
  then show "read_text example_rt PLAIN_ARCHIVE RELS = Inr EXAMPLE_RELS"
    "read_text example_rt PLAIN_ARCHIVE DOCUMENT_XML = Inr EXAMPLE_DOC"
    by (simp_all add: read_text_def r example_decode)
  show "open_zip [REPORT_PATH \<mapsto> Zip PLAIN_ARCHIVE] REPORT_PATH = Inr PLAIN_ARCHIVE"
    by (simp add: open_zip_def)
qed

lemma plain_archive_names:
  "ascii ''word/media/image1.png'' \<in> fst ` set PLAIN_ARCHIVE"
  "ascii ''word/media/replaced_image_photo_1.png'' \<notin> fst ` set PLAIN_ARCHIVE"
  by (simp_all add: PLAIN_ARCHIVE_def RELS_def DOCUMENT_XML_def ascii_def)

lemma example_new_arcname:
  "arcname (ascii ''word/media/'' @ new_filename_for example_rt (ascii ''IMAGE_PHOTO_1'') (ascii ''png''))
     = ascii ''word/media/replaced_image_photo_1.png''"
  unfolding example_new_filename by (simp add: arcname_def ascii_def)

lemma example_names:
  "ascii ''word/media/'' @ ascii ''image1.png'' = ascii ''word/media/image1.png''"
  "ascii ''word/media/image1.png'' \<noteq> ascii ''word/media/replaced_image_photo_1.png''"
  "DOCUMENT_XML \<noteq> RELS" "DOCUMENT_XML \<noteq> ascii ''word/media/image1.png''"
  "DOCUMENT_XML \<noteq> ascii ''word/media/replaced_image_photo_1.png''"
  by (simp_all add: RELS_def DOCUMENT_XML_def ascii_def)

lemma example_rels_encoded:
  "utf8_encode example_rt (py_replace (ascii ''media/'' @ ascii ''image1.png'')
     (ascii ''media/'' @ new_filename_for example_rt (ascii ''IMAGE_PHOTO_1'') (ascii ''png''))
     EXAMPLE_RELS) = Some (map of_nat EXAMPLE_RELS_REWIRED)"
proof -
  have "list_all (\<lambda>c. c < 0x80) EXAMPLE_RELS_REWIRED"
    by (simp add: EXAMPLE_RELS_REWIRED_def DQ_def ascii_def)
  then show ?thesis
    by (simp only: example_new_filename example_rels_rewired example_encode)
qed

lemma example_fill_template:
  "fst (fill_template example_rt always_writable Copies TEMPLATE [(ascii ''no'', JStr (ascii ''7''))]
          REPORT_PATH [TEMPLATE \<mapsto> Zip EXAMPLE_ARCHIVE]) = None"
proof -
  have p: "REPORT_PATH \<noteq> TEMPLATE"
    by (simp add: REPORT_PATH_def TEMPLATE_def ascii_def)
  have s: "substitute example_rt EXAMPLE_DOC [(ascii ''no'', JStr (ascii ''7''))] =
      ascii ''<w:t>7</w:t><a:blip r:embed='' @ DQ @ ascii ''rId5'' @ DQ @
      ascii '' w:comment='' @ DQ @ ascii ''IMAGE_PHOTO_1'' @ DQ @ ascii ''/>''"
    by (simp add: substitute_def py_replace_def value_text_def token_def EXAMPLE_DOC_def DQ_def
        ascii_def)
  have "\<exists>b. utf8_encode example_rt
      (substitute example_rt EXAMPLE_DOC [(ascii ''no'', JStr (ascii ''7''))]) = Some b"
    unfolding s by (simp add: example_rt_def DQ_def ascii_def)
  then obtain b where b: "utf8_encode example_rt
      (substitute example_rt EXAMPLE_DOC [(ascii ''no'', JStr (ascii ''7''))]) = Some b" ..
  have t: "[TEMPLATE \<mapsto> Zip EXAMPLE_ARCHIVE] TEMPLATE = Some (Zip EXAMPLE_ARCHIVE)"
    by simp
  have w: "always_writable REPORT_PATH" "always_writable (REPORT_PATH @ ascii ''.tmp'')"
    by (simp_all add: always_writable_def)
  from t p w example_archive_texts(2) b show ?thesis
    by (rule fill_template_success)
qed

lemma example_rewire_image:
  "rewire_image example_rt always_writable EXAMPLE_ARCHIVE EXAMPLE_RELS (ascii ''image1.png'')
       REPORT_PATH (ascii ''IMAGE_PHOTO_1'') [7, 8, 9] (ascii ''png'')
       [REPORT_PATH \<mapsto> Zip EXAMPLE_ARCHIVE] =
     (None, ([REPORT_PATH \<mapsto> Zip EXAMPLE_ARCHIVE](REPORT_PATH @ ascii ''.imgtmp'' := None))
              (REPORT_PATH \<mapsto> Zip REWIRED_ARCHIVE))"
  by (simp add: rewire_image_def Let_def example_rels_rewired example_new_filename rewrite_def
      example_image_rewrite always_writable_def REWIRED_ARCHIVE_def)

theorem rewrite_keeps_other_members_witness:
  "fst (fill_template example_rt always_writable Copies TEMPLATE [(ascii ''no'', JStr (ascii ''7''))]
          REPORT_PATH [TEMPLATE \<mapsto> Zip EXAMPLE_ARCHIVE]) = None \<and>
   read_at (snd (fill_template example_rt always_writable Copies TEMPLATE [(ascii ''no'', JStr (ascii ''7''))]
          REPORT_PATH [TEMPLATE \<mapsto> Zip EXAMPLE_ARCHIVE])) REPORT_PATH (ascii ''word/media/image1.png'')
     = Inr [4, 5, 6] \<and>
   read_at (snd (fill_template example_rt always_writable Copies TEMPLATE [(ascii ''no'', JStr (ascii ''7''))]
          REPORT_PATH [TEMPLATE \<mapsto> Zip EXAMPLE_ARCHIVE])) REPORT_PATH RELS
     = Inr (map of_nat EXAMPLE_RELS) \<and>
   fst (rewire_image example_rt always_writable EXAMPLE_ARCHIVE EXAMPLE_RELS (ascii ''image1.png'')
          REPORT_PATH (ascii ''IMAGE_PHOTO_1'') [7, 8, 9] (ascii ''png'')
          [REPORT_PATH \<mapsto> Zip EXAMPLE_ARCHIVE]) = None \<and>
   read_at (snd (rewire_image example_rt always_writable EXAMPLE_ARCHIVE EXAMPLE_RELS
          (ascii ''image1.png'') REPORT_PATH (ascii ''IMAGE_PHOTO_1'') [7, 8, 9] (ascii ''png'')
          [REPORT_PATH \<mapsto> Zip EXAMPLE_ARCHIVE])) REPORT_PATH DOCUMENT_XML
     = Inr (map of_nat EXAMPLE_DOC) \<and>
   fst (replace_image_in_docx example_rt always_writable REPORT_PATH (ascii ''IMAGE_PHOTO_1'')
          [7, 8, 9] (ascii ''png'') [REPORT_PATH \<mapsto> Zip PLAIN_ARCHIVE]) = None \<and>
   read_at (snd (replace_image_in_docx example_rt always_writable REPORT_PATH
          (ascii ''IMAGE_PHOTO_1'') [7, 8, 9] (ascii ''png'') [REPORT_PATH \<mapsto> Zip PLAIN_ARCHIVE]))
       REPORT_PATH (ascii ''word/media/replaced_image_photo_1.png'') = Inr [7, 8, 9] \<and>
   read_at (snd (replace_image_in_docx example_rt always_writable REPORT_PATH
          (ascii ''IMAGE_PHOTO_1'') [7, 8, 9] (ascii ''png'') [REPORT_PATH \<mapsto> Zip PLAIN_ARCHIVE]))
       REPORT_PATH (ascii ''word/media/image1.png'') = Inl KeyError \<and>
   read_at (snd (replace_image_in_docx example_rt always_writable REPORT_PATH
          (ascii ''IMAGE_PHOTO_1'') [7, 8, 9] (ascii ''png'') [REPORT_PATH \<mapsto> Zip PLAIN_ARCHIVE]))
       REPORT_PATH DOCUMENT_XML = Inr (map of_nat EXAMPLE_DOC) \<and>
   read_at (snd (replace_image_in_docx example_rt always_writable REPORT_PATH
          (ascii ''IMAGE_PHOTO_1'') [7, 8, 9] (ascii ''png'') [REPORT_PATH \<mapsto> Zip PLAIN_ARCHIVE]))
       REPORT_PATH RELS = Inr (map of_nat EXAMPLE_RELS_REWIRED)"
proof -
  define run where "run = fill_template example_rt always_writable Copies TEMPLATE
    [(ascii ''no'', JStr (ascii ''7''))] REPORT_PATH [TEMPLATE \<mapsto> Zip EXAMPLE_ARCHIVE]"
  define run2 where "run2 = rewire_image example_rt always_writable EXAMPLE_ARCHIVE EXAMPLE_RELS
    (ascii ''image1.png'') REPORT_PATH (ascii ''IMAGE_PHOTO_1'') [7, 8, 9] (ascii ''png'')
    [REPORT_PATH \<mapsto> Zip EXAMPLE_ARCHIVE]"
  have f: "fst run = None" unfolding run_def by (rule example_fill_template)
  then have eq: "fill_template example_rt always_writable Copies TEMPLATE
    [(ascii ''no'', JStr (ascii ''7''))] REPORT_PATH [TEMPLATE \<mapsto> Zip EXAMPLE_ARCHIVE] = (None, snd run)"
    unfolding run_def by (metis prod.collapse)
  have f2: "fst run2 = None" unfolding run2_def by (simp only: example_rewire_image fst_conv)
  then have eq2: "rewire_image example_rt always_writable EXAMPLE_ARCHIVE EXAMPLE_RELS
    (ascii ''image1.png'') REPORT_PATH (ascii ''IMAGE_PHOTO_1'') [7, 8, 9] (ascii ''png'')
    [REPORT_PATH \<mapsto> Zip EXAMPLE_ARCHIVE] = (None, snd run2)"
    unfolding run2_def by (metis prod.collapse)
  note th = rewrite_keeps_other_members
    [where rt = example_rt and writable = always_writable and copying = Copies
       and template_path = TEMPLATE and data = "[(ascii ''no'', JStr (ascii ''7''))]"
       and output_path = REPORT_PATH and fs = "[TEMPLATE \<mapsto> Zip EXAMPLE_ARCHIVE]"
       and ?fs1.0 = "snd run"]
  from th have "fill_template example_rt always_writable Copies TEMPLATE
      [(ascii ''no'', JStr (ascii ''7''))] REPORT_PATH [TEMPLATE \<mapsto> Zip EXAMPLE_ARCHIVE] = (None, snd run) \<longrightarrow>
    (\<exists>src out. [TEMPLATE \<mapsto> Zip EXAMPLE_ARCHIVE] TEMPLATE = Some (Zip src) \<and>
       snd run REPORT_PATH = Some (Zip out) \<and> map fst out = map fst src \<and>
       (\<forall>n. n \<noteq> DOCUMENT_XML \<longrightarrow> zread out n = zread src n))"
    by (rule conjunct1)
  from this eq have "\<exists>src out. [TEMPLATE \<mapsto> Zip EXAMPLE_ARCHIVE] TEMPLATE = Some (Zip src) \<and>
       snd run REPORT_PATH = Some (Zip out) \<and> map fst out = map fst src \<and>
       (\<forall>n. n \<noteq> DOCUMENT_XML \<longrightarrow> zread out n = zread src n)"
    by (rule mp)
  then obtain src out where so: "[TEMPLATE \<mapsto> Zip EXAMPLE_ARCHIVE] TEMPLATE = Some (Zip src)"
    "snd run REPORT_PATH = Some (Zip out)"
    "\<forall>n. n \<noteq> DOCUMENT_XML \<longrightarrow> zread out n = zread src n"
    by blast
  from so(1) have src: "src = EXAMPLE_ARCHIVE" by simp
  have n: "ascii ''word/media/image1.png'' \<noteq> DOCUMENT_XML" "RELS \<noteq> DOCUMENT_XML"
    by (simp_all add: RELS_def DOCUMENT_XML_def ascii_def)
  with so(3) src have "zread out (ascii ''word/media/image1.png'') = Inr [4, 5, 6]"
    "zread out RELS = Inr (map of_nat EXAMPLE_RELS)"
    by (simp_all add: example_archive_reads)
  with so(2) have A: "read_at (snd run) REPORT_PATH (ascii ''word/media/image1.png'') = Inr [4, 5, 6]"
    "read_at (snd run) REPORT_PATH RELS = Inr (map of_nat EXAMPLE_RELS)"
    by (simp_all add: read_at_def open_zip_def)
  note th2 = rewrite_keeps_other_members
    [where rt = example_rt and writable = always_writable and src = EXAMPLE_ARCHIVE
       and rels = EXAMPLE_RELS and old = "ascii ''image1.png''" and docx_path = REPORT_PATH
       and tag = "ascii ''IMAGE_PHOTO_1''" and bytes = "[7, 8, 9]" and ext = "ascii ''png''"
       and fs = "[REPORT_PATH \<mapsto> Zip EXAMPLE_ARCHIVE]" and ?fs2.0 = "snd run2"]
  from th2 have "rewire_image example_rt always_writable EXAMPLE_ARCHIVE EXAMPLE_RELS
      (ascii ''image1.png'') REPORT_PATH (ascii ''IMAGE_PHOTO_1'') [7, 8, 9] (ascii ''png'')
      [REPORT_PATH \<mapsto> Zip EXAMPLE_ARCHIVE] = (None, snd run2) \<longrightarrow>
    (\<exists>out. snd run2 REPORT_PATH = Some (Zip out) \<and>
       map fst out =
         map (\<lambda>n. if n \<noteq> RELS \<and> n = ascii ''word/media/'' @ ascii ''image1.png''
                   then arcname (ascii ''word/media/'' @
                     new_filename_for example_rt (ascii ''IMAGE_PHOTO_1'') (ascii ''png'')) else n)
           (map fst EXAMPLE_ARCHIVE) \<and>
       (\<forall>n. n \<noteq> RELS \<and> n \<noteq> ascii ''word/media/'' @ ascii ''image1.png'' \<and>
            n \<noteq> arcname (ascii ''word/media/'' @
                   new_filename_for example_rt (ascii ''IMAGE_PHOTO_1'') (ascii ''png'')) \<longrightarrow>
            zread out n = zread EXAMPLE_ARCHIVE n))"
    by (rule conjunct1 [OF conjunct2])
  from this eq2 have "\<exists>out. snd run2 REPORT_PATH = Some (Zip out) \<and>
       map fst out =
         map (\<lambda>n. if n \<noteq> RELS \<and> n = ascii ''word/media/'' @ ascii ''image1.png''
                   then arcname (ascii ''word/media/'' @
                     new_filename_for example_rt (ascii ''IMAGE_PHOTO_1'') (ascii ''png'')) else n)
           (map fst EXAMPLE_ARCHIVE) \<and>
       (\<forall>n. n \<noteq> RELS \<and> n \<noteq> ascii ''word/media/'' @ ascii ''image1.png'' \<and>
            n \<noteq> arcname (ascii ''word/media/'' @
                   new_filename_for example_rt (ascii ''IMAGE_PHOTO_1'') (ascii ''png'')) \<longrightarrow>
            zread out n = zread EXAMPLE_ARCHIVE n)"
    by (rule mp)
  then obtain out2 where o2: "snd run2 REPORT_PATH = Some (Zip out2)"
    "\<forall>n. n \<noteq> RELS \<and> n \<noteq> ascii ''word/media/'' @ ascii ''image1.png'' \<and>
         n \<noteq> arcname (ascii ''word/media/'' @
                new_filename_for example_rt (ascii ''IMAGE_PHOTO_1'') (ascii ''png'')) \<longrightarrow>
         zread out2 n = zread EXAMPLE_ARCHIVE n"
    by (elim exE conjE)
  have "DOCUMENT_XML \<noteq> RELS" "DOCUMENT_XML \<noteq> ascii ''word/media/'' @ ascii ''image1.png''"
    "DOCUMENT_XML \<noteq> arcname (ascii ''word/media/'' @
                new_filename_for example_rt (ascii ''IMAGE_PHOTO_1'') (ascii ''png''))"
    by (simp_all add: example_new_filename RELS_def DOCUMENT_XML_def arcname_def ascii_def)
  with o2(2) have "zread out2 DOCUMENT_XML = zread EXAMPLE_ARCHIVE DOCUMENT_XML"
    by blast
  then have "zread out2 DOCUMENT_XML = Inr (map of_nat EXAMPLE_DOC)"
    by (simp only: example_archive_reads)
  with o2(1) have B: "read_at (snd run2) REPORT_PATH DOCUMENT_XML = Inr (map of_nat EXAMPLE_DOC)"
    by (simp add: read_at_def open_zip_def)
  define run3 where "run3 = replace_image_in_docx example_rt always_writable REPORT_PATH
    (ascii ''IMAGE_PHOTO_1'') [7, 8, 9] (ascii ''png'') [REPORT_PATH \<mapsto> Zip PLAIN_ARCHIVE]"
  have m: "re_embed example_rt (ascii ''IMAGE_PHOTO_1'') EXAMPLE_DOC = Inr (Some (ascii ''rId5''))"
    "re_target example_rt (ascii ''rId5'') EXAMPLE_RELS = Some (ascii ''image1.png'')"
    by (simp_all add: example_rt_def)
  have w3: "always_writable (REPORT_PATH @ ascii ''.imgtmp'')" "always_writable REPORT_PATH"
    by (simp_all add: always_writable_def)
  have f3: "fst run3 = None"
    unfolding run3_def
    by (rule replace_image_success [OF plain_archive_texts m example_rels_encoded w3])
  then have eq3: "replace_image_in_docx example_rt always_writable REPORT_PATH
    (ascii ''IMAGE_PHOTO_1'') [7, 8, 9] (ascii ''png'') [REPORT_PATH \<mapsto> Zip PLAIN_ARCHIVE]
      = (None, snd run3)"
    unfolding run3_def by (metis prod.collapse)
  note th3 = conjunct1 [OF conjunct2 [OF conjunct2 [OF rewrite_keeps_other_members
    [where rt = example_rt and writable = always_writable and docx_path = REPORT_PATH
       and tag = "ascii ''IMAGE_PHOTO_1''" and bytes = "[7, 8, 9]" and ext = "ascii ''png''"
       and fs = "[REPORT_PATH \<mapsto> Zip PLAIN_ARCHIVE]" and z = PLAIN_ARCHIVE
       and rels_content = EXAMPLE_RELS and doc_content = EXAMPLE_DOC and rid = "ascii ''rId5''"
       and old_filename = "ascii ''image1.png''" and ?fs3.0 = "snd run3"]]]]
  have "open_zip [REPORT_PATH \<mapsto> Zip PLAIN_ARCHIVE] REPORT_PATH = Inr PLAIN_ARCHIVE \<and>
    read_text example_rt PLAIN_ARCHIVE RELS = Inr EXAMPLE_RELS \<and>
    read_text example_rt PLAIN_ARCHIVE DOCUMENT_XML = Inr EXAMPLE_DOC \<and>
    re_embed example_rt (ascii ''IMAGE_PHOTO_1'') EXAMPLE_DOC = Inr (Some (ascii ''rId5'')) \<and>
    re_target example_rt (ascii ''rId5'') EXAMPLE_RELS = Some (ascii ''image1.png'') \<and>
    replace_image_in_docx example_rt always_writable REPORT_PATH
      (ascii ''IMAGE_PHOTO_1'') [7, 8, 9] (ascii ''png'') [REPORT_PATH \<mapsto> Zip PLAIN_ARCHIVE]
      = (None, snd run3)"
    by (intro conjI plain_archive_texts m eq3)
  from mp [OF th3 this] obtain out3 b
    where o3: "snd run3 REPORT_PATH = Some (Zip out3)"
      and same3: "\<forall>n. n \<noteq> RELS \<and> n \<noteq> ascii ''word/media/'' @ ascii ''image1.png'' \<and>
         n \<noteq> arcname (ascii ''word/media/'' @
                new_filename_for example_rt (ascii ''IMAGE_PHOTO_1'') (ascii ''png'')) \<longrightarrow>
         zread out3 n = zread PLAIN_ARCHIVE n"
      and enc3: "utf8_encode example_rt (py_replace (ascii ''media/'' @ ascii ''image1.png'')
         (ascii ''media/'' @ new_filename_for example_rt (ascii ''IMAGE_PHOTO_1'') (ascii ''png''))
         EXAMPLE_RELS) = Some b"
      and rels3: "zread out3 RELS = Inr b"
      and new3: "ascii ''word/media/'' @ ascii ''image1.png'' \<in> fst ` set PLAIN_ARCHIVE \<and>
         arcname (ascii ''word/media/'' @
           new_filename_for example_rt (ascii ''IMAGE_PHOTO_1'') (ascii ''png''))
           \<notin> fst ` set PLAIN_ARCHIVE \<longrightarrow>
         zread out3 (arcname (ascii ''word/media/'' @
           new_filename_for example_rt (ascii ''IMAGE_PHOTO_1'') (ascii ''png''))) = Inr [7, 8, 9]"
      and old3: "ascii ''word/media/'' @ ascii ''image1.png''
           \<noteq> arcname (ascii ''word/media/'' @
                new_filename_for example_rt (ascii ''IMAGE_PHOTO_1'') (ascii ''png'')) \<longrightarrow>
         zread out3 (ascii ''word/media/'' @ ascii ''image1.png'') = Inl KeyError"
    by (elim exE conjE)
  from new3 plain_archive_names
  have n3: "zread out3 (ascii ''word/media/replaced_image_photo_1.png'') = Inr [7, 8, 9]"
    by (simp only: example_new_arcname example_names simp_thms)
  from old3 have k3: "zread out3 (ascii ''word/media/image1.png'') = Inl KeyError"
    by (simp only: example_new_arcname example_names simp_thms not_False_eq_True)
  from same3 have "\<forall>n. n \<noteq> RELS \<and> n \<noteq> ascii ''word/media/image1.png'' \<and>
      n \<noteq> ascii ''word/media/replaced_image_photo_1.png'' \<longrightarrow>
      zread out3 n = zread PLAIN_ARCHIVE n"
    by (simp only: example_new_arcname example_names(1))
  with example_names(3-5) have "zread out3 DOCUMENT_XML = zread PLAIN_ARCHIVE DOCUMENT_XML"
    by blast
  moreover have "zread PLAIN_ARCHIVE DOCUMENT_XML = Inr (map of_nat EXAMPLE_DOC)"
    by (simp add: zread_def PLAIN_ARCHIVE_def RELS_def DOCUMENT_XML_def ascii_def)
  ultimately have d3: "zread out3 DOCUMENT_XML = Inr (map of_nat EXAMPLE_DOC)"
    by simp
  from enc3 example_rels_encoded have "b = map of_nat EXAMPLE_RELS_REWIRED"
    by (simp only: option.inject)
  with rels3 have r3: "zread out3 RELS = Inr (map of_nat EXAMPLE_RELS_REWIRED)"
    by simp
  from o3 n3 k3 d3 r3
  have C: "read_at (snd run3) REPORT_PATH (ascii ''word/media/replaced_image_photo_1.png'')
        = Inr [7, 8, 9]"
    "read_at (snd run3) REPORT_PATH (ascii ''word/media/image1.png'') = Inl KeyError"
    "read_at (snd run3) REPORT_PATH DOCUMENT_XML = Inr (map of_nat EXAMPLE_DOC)"
    "read_at (snd run3) REPORT_PATH RELS = Inr (map of_nat EXAMPLE_RELS_REWIRED)"
    by (simp_all add: read_at_def open_zip_def)
  from f A f2 B f3 C show ?thesis
    unfolding run_def run2_def run3_def by (simp only: simp_thms)
qed

section \<open>The surroundings search\<close>

text \<open>
  C8. \<open>search_surroundings\<close> always returns a record: its status is "success", "address not
  resolved", or "search failed: " followed by the message of the exception that ended the
  \<open>try\<close> block. When the geocoding request answers but does not resolve the address (its
  status is not \<open>"1"\<close> or it has no geocodes), the record has the status "address not resolved",
  five empty lists and no coordinate. When a request fails, be it the geocoding request or the
  nearby search of any category, or anything else raises inside the \<open>try\<close> block, the record has
  the status "search failed: " with the message and the lists as they were populated up to that
  moment; during the search the lists only grow.
\<close>

theorem search_never_raises:
  "(status (search_surroundings rt http address amap_key) = STATUS_OK \<or>
    status (search_surroundings rt http address amap_key) = STATUS_UNRESOLVED \<or>
    (\<exists>e. status (search_surroundings rt http address amap_key) = STATUS_ERROR @ exc_str rt e)) \<and>
   coord initial_result = JNull \<and> (\<forall>c. pois initial_result c = []) \<and>
   (http (Geocode address amap_key) = Body geo \<and>
    py_get geo (ascii ''status'') JNull = Inr st \<and>
    (st \<noteq> JStr (ascii ''1'') \<or> (py_get geo (ascii ''geocodes'') JNull = Inr gs \<and> \<not> truthy gs)) \<longrightarrow>
      search_surroundings rt http address amap_key = initial_result\<lparr> status := STATUS_UNRESOLVED \<rparr>) \<and>
   (http (Geocode address amap_key) = Fails e \<longrightarrow>
      search_surroundings rt http address amap_key
        = initial_result\<lparr> status := STATUS_ERROR @ exc_str rt e \<rparr>) \<and>
   (http (Geocode address amap_key) = Body geo \<and> locate geo = Inr (Some location) \<and>
    CATEGORIES = searched @ (type_str, key, radius) # rest \<and>
    search_categories rt http location amap_key searched (initial_result\<lparr> coord := location \<rparr>)
      = (None, result) \<and>
    http (Around location type_str radius amap_key) = Fails e \<longrightarrow>
      search_surroundings rt http address amap_key
        = result\<lparr> status := STATUS_ERROR @ exc_str rt e \<rparr>) \<and>
   (search_body rt http address amap_key = (Some e, result) \<longrightarrow>
      search_surroundings rt http address amap_key
        = result\<lparr> status := STATUS_ERROR @ exc_str rt e \<rparr>) \<and>
   (search_categories rt http location amap_key cats result = (r, result') \<longrightarrow>
      (\<forall>c. prefix (pois result c) (pois result' c)) \<and> coord result' = coord result)"
proof -
  have B: "search_surroundings rt http address amap_key = initial_result\<lparr> status := STATUS_UNRESOLVED \<rparr>"
    if "http (Geocode address amap_key) = Body geo" "py_get geo (ascii ''status'') JNull = Inr st"
      "st \<noteq> JStr (ascii ''1'') \<or> (py_get geo (ascii ''geocodes'') JNull = Inr gs \<and> \<not> truthy gs)"
    using that(1) locate_unresolved [OF that(2,3)]
    by (simp add: search_surroundings_def search_body_def)
  have C: "search_surroundings rt http address amap_key
        = initial_result\<lparr> status := STATUS_ERROR @ exc_str rt e \<rparr>"
    if "http (Geocode address amap_key) = Fails e"
    using that by (simp add: search_surroundings_def search_body_def)
  have D: "search_surroundings rt http address amap_key
        = result\<lparr> status := STATUS_ERROR @ exc_str rt e \<rparr>"
    if "http (Geocode address amap_key) = Body geo" "locate geo = Inr (Some location)"
      "CATEGORIES = searched @ (type_str, key, radius) # rest"
      "search_categories rt http location amap_key searched (initial_result\<lparr> coord := location \<rparr>)
        = (None, result)"
      "http (Around location type_str radius amap_key) = Fails e"
    using that(1,2,3) search_categories_fails [OF that(4,5), of key rest]
    by (simp add: search_surroundings_def search_body_def)
  have E: "search_surroundings rt http address amap_key
        = result\<lparr> status := STATUS_ERROR @ exc_str rt e \<rparr>"
    if "search_body rt http address amap_key = (Some e, result)"
    using that by (simp add: search_surroundings_def)
  have F: "(\<forall>c. prefix (pois result c) (pois result' c)) \<and> coord result' = coord result"
    if "search_categories rt http location amap_key cats result = (r, result')"
    using search_categories_grows [OF that] by simp
  from search_status [of rt http address amap_key] initial_result_empty(1,2) B C D E F
  show ?thesis by blast
qed

lemma example_one_place:
  "search_categories example_rt http_times_out (JStr (ascii ''116.48,39.99'')) (ascii ''key'')
     [(TRANSPORT_TYPES, Transport, 1000)]
     (initial_result\<lparr> coord := JStr (ascii ''116.48,39.99'') \<rparr>) = (None, ONE_PLACE_RESULT)"
proof -
  have "(\<lambda>c. []) (Transport := [x]) = (\<lambda>c. if c = Transport then [x] else [])" for x :: pystr
    by (rule ext) simp
  then show ?thesis
    by (simp add: http_times_out_def ONE_PLACE_def take_pois_def py_get_def py_item_def
        py_first5_def py_format_def initial_result_def ONE_PLACE_RESULT_def ascii_def
        fun_eq_iff)
qed

theorem search_never_raises_witness:
  "search_surroundings example_rt http_down BEIJING_ADDRESS (ascii ''key'')
     = initial_result\<lparr> status := STATUS_ERROR @ ascii ''connection refused'' \<rparr> \<and>
   search_surroundings example_rt http_not_found BEIJING_ADDRESS (ascii ''key'')
     = initial_result\<lparr> status := STATUS_UNRESOLVED \<rparr> \<and>
   search_surroundings example_rt http_times_out BEIJING_ADDRESS (ascii ''key'')
     = ONE_PLACE_RESULT\<lparr> status := STATUS_ERROR @ ascii ''timed out'' \<rparr>"
proof -
  have m: "exc_str example_rt (External msg) = msg" for msg
    by (simp add: example_rt_def)
  have 1: "search_surroundings example_rt http_down BEIJING_ADDRESS (ascii ''key'')
     = initial_result\<lparr> status := STATUS_ERROR @ ascii ''connection refused'' \<rparr>"
  proof -
    have "http_down (Geocode BEIJING_ADDRESS (ascii ''key''))
        = Fails (External (ascii ''connection refused''))"
      by (simp add: http_down_def)
    with search_never_raises
      [of example_rt http_down BEIJING_ADDRESS "ascii ''key''" _ _ _
          "External (ascii ''connection refused'')"]
    show ?thesis by (simp only: m)
  qed
  have 2: "search_surroundings example_rt http_not_found BEIJING_ADDRESS (ascii ''key'')
     = initial_result\<lparr> status := STATUS_UNRESOLVED \<rparr>"
  proof -
    have "http_not_found (Geocode BEIJING_ADDRESS (ascii ''key'')) = Body GEO_NOT_FOUND"
      "py_get GEO_NOT_FOUND (ascii ''status'') JNull = Inr (JStr (ascii ''1''))"
      "py_get GEO_NOT_FOUND (ascii ''geocodes'') JNull = Inr (JArr [])" "\<not> truthy (JArr [])"
      by (simp_all add: http_not_found_def GEO_NOT_FOUND_def py_get_def ascii_def)
    with search_never_raises
      [of example_rt http_not_found BEIJING_ADDRESS "ascii ''key''" GEO_NOT_FOUND
          "JStr (ascii ''1'')" "JArr []"]
    show ?thesis by blast
  qed
  have 3: "search_surroundings example_rt http_times_out BEIJING_ADDRESS (ascii ''key'')
     = ONE_PLACE_RESULT\<lparr> status := STATUS_ERROR @ ascii ''timed out'' \<rparr>"
  proof -
    have g: "http_times_out (Geocode BEIJING_ADDRESS (ascii ''key'')) = Body GEO_FOUND"
      by (simp add: http_times_out_def)
    have l: "locate GEO_FOUND = Inr (Some (JStr (ascii ''116.48,39.99'')))"
      by (simp add: locate_def GEO_FOUND_def py_get_def py_item_def py_first_def ascii_def)
    have c: "CATEGORIES = [(TRANSPORT_TYPES, Transport, 1000)] @
        ([0x4E2D, 0x5C0F, 0x5B66, 0x3B, 0x9AD8, 0x7B49, 0x9662, 0x6821, 0x3B, 0x5E7C, 0x513F, 0x56ED],
          Education, 1000) # drop 2 CATEGORIES"
      by (simp add: CATEGORIES_def TRANSPORT_TYPES_def)
    have f: "http_times_out (Around (JStr (ascii ''116.48,39.99''))
        [0x4E2D, 0x5C0F, 0x5B66, 0x3B, 0x9AD8, 0x7B49, 0x9662, 0x6821, 0x3B, 0x5E7C, 0x513F, 0x56ED]
        1000 (ascii ''key'')) = Fails (External (ascii ''timed out''))"
      by (simp add: http_times_out_def TRANSPORT_TYPES_def)
    from search_never_raises
      [of example_rt http_times_out BEIJING_ADDRESS "ascii ''key''" GEO_FOUND _ _
          "External (ascii ''timed out'')" "JStr (ascii ''116.48,39.99'')"
          "[(TRANSPORT_TYPES, Transport, 1000)]"
          "[0x4E2D, 0x5C0F, 0x5B66, 0x3B, 0x9AD8, 0x7B49, 0x9662, 0x6821, 0x3B, 0x5E7C, 0x513F, 0x56ED]"
          Education 1000 "drop 2 CATEGORIES" ONE_PLACE_RESULT]
      g l c example_one_place f
    have "search_surroundings example_rt http_times_out BEIJING_ADDRESS (ascii ''key'')
      = ONE_PLACE_RESULT\<lparr> status := STATUS_ERROR @ exc_str example_rt (External (ascii ''timed out'')) \<rparr>"
      by blast
    then show ?thesis by (simp only: m)
  qed
  from 1 2 3 show ?thesis by (simp only: simp_thms)
qed

end
